theory Spec2Isabelle
  imports Main "HOL-Library.Word" "HOL-Library.Signed_Division"
begin

unbundle bit_operations_syntax

section \<open>Bytes and object representations\<close>

text \<open>
  The protocol of \<^verbatim>\<open>rpc_reference.h\<close> moves values as their object representation:
  \<^verbatim>\<open>channel->Write(value)\<close> transfers \<^verbatim>\<open>sizeof(T)\<close> bytes in the byte order of the
  machine. The model fixes the little-endian order; every function below uses the same
  order for writing and for reading, as both peers of the source do.
\<close>

type_synonym byte = "8 word"
type_synonym int32 = "32 word"
type_synonym int64 = "64 word"
type_synonym uint64 = "64 word"

primrec le_bytes :: "nat \<Rightarrow> 'a::len word \<Rightarrow> byte list" where
  "le_bytes 0 w = []"
| "le_bytes (Suc n) w = ucast w # le_bytes n (drop_bit 8 w)"

primrec le_word :: "byte list \<Rightarrow> 'a::len word" where
  "le_word [] = 0"
| "le_word (b # bs) = ucast b OR push_bit 8 (le_word bs)"

definition bytes_i32 :: "int32 \<Rightarrow> byte list" where
  "bytes_i32 w = le_bytes 4 w"

definition bytes_u64 :: "uint64 \<Rightarrow> byte list" where
  "bytes_u64 w = le_bytes 8 w"

text \<open>\<^verbatim>\<open>WriteArray(const int64_t*, num)\<close>: the elements one after the other.\<close>

definition bytes_i64_array :: "int64 list \<Rightarrow> byte list" where
  "bytes_i64_array xs = concat (map bytes_u64 xs)"

section \<open>Protocol codes (\<^verbatim>\<open>rpc_reference.h\<close>)\<close>

datatype RPCCode =
    kNone | kShutdown | kInitServer | kCallFunc | kReturn | kException
  | kCopyFromRemote | kCopyToRemote | kCopyAck
  | kGetGlobalFunc | kFreeHandle | kDevSetDevice | kDevGetAttr | kDevAllocData
  | kDevFreeData | kDevStreamSync | kCopyAmongRemote | kDevAllocDataWithScope
  | kDevCreateStream | kDevFreeStream | kDevSetStream | kDevGetCurrentStream

text \<open>The enumerators of \<^verbatim>\<open>enum class RPCCode : int\<close> count from 0.\<close>

fun RPCCode_int :: "RPCCode \<Rightarrow> int32" where
  "RPCCode_int kNone = 0"
| "RPCCode_int kShutdown = 1"
| "RPCCode_int kInitServer = 2"
| "RPCCode_int kCallFunc = 3"
| "RPCCode_int kReturn = 4"
| "RPCCode_int kException = 5"
| "RPCCode_int kCopyFromRemote = 6"
| "RPCCode_int kCopyToRemote = 7"
| "RPCCode_int kCopyAck = 8"
| "RPCCode_int kGetGlobalFunc = 9"
| "RPCCode_int kFreeHandle = 10"
| "RPCCode_int kDevSetDevice = 11"
| "RPCCode_int kDevGetAttr = 12"
| "RPCCode_int kDevAllocData = 13"
| "RPCCode_int kDevFreeData = 14"
| "RPCCode_int kDevStreamSync = 15"
| "RPCCode_int kCopyAmongRemote = 16"
| "RPCCode_int kDevAllocDataWithScope = 17"
| "RPCCode_int kDevCreateStream = 18"
| "RPCCode_int kDevFreeStream = 19"
| "RPCCode_int kDevSetStream = 20"
| "RPCCode_int kDevGetCurrentStream = 21"

datatype RPCServerStatus =
    kSuccess | kInvalidTypeCodeObject | kInvalidTypeCodeNDArray
  | kInvalidDLTensorFieldStride | kInvalidDLTensorFieldByteOffset
  | kUnknownTypeIndex | kUnknownRPCCode | kRPCCodeNotSupported
  | kUnknownRPCSyscall | kCheckError | kReadError | kWriteError | kAllocError

text \<open>
  Every way in which the modelled code stops instead of returning:
  \<^verbatim>\<open>channel->ThrowError(status)\<close>, a failed \<^verbatim>\<open>ICHECK\<close>/\<^verbatim>\<open>CHECK\<close>/\<^verbatim>\<open>LOG(FATAL)\<close>,
  \<^verbatim>\<open>std::vector::at\<close> out of range, and an access the language leaves undefined
  (an unchecked index out of range, a division by zero).
\<close>

datatype error =
    ThrowError RPCServerStatus
  | CheckFailed
  | OutOfRange
  | Undefined

section \<open>Argument values\<close>

text \<open>
  Modelled from the spec: the DLPack structures \<^verbatim>\<open>DLDevice\<close>, \<^verbatim>\<open>DLDataType\<close> and
  \<^verbatim>\<open>DLTensor\<close> are declared outside the source files at hand. The spec names the
  fields of a tensor descriptor (device, rank, dtype, shape, byte offset, raw data
  pointer); the source reads exactly these and \<^verbatim>\<open>strides\<close>. Pointers are 64-bit handles;
  the shape array is held by value; \<^verbatim>\<open>strides = None\<close> is the null pointer.
\<close>

record DLDevice =
  device_type :: int32
  device_id :: int32

record DLDataType =
  code :: "8 word"
  bits :: "8 word"
  lanes :: "16 word"

record DLTensor =
  data :: uint64
  device :: DLDevice
  ndim :: int32
  dtype :: DLDataType
  shape :: "int64 list"
  strides :: "int64 list option"
  byte_offset :: uint64

definition bytes_DLDevice :: "DLDevice \<Rightarrow> byte list" where
  "bytes_DLDevice d = le_bytes 4 (device_type d) @ le_bytes 4 (device_id d)"

definition bytes_DLDataType :: "DLDataType \<Rightarrow> byte list" where
  "bytes_DLDataType t = le_bytes 1 (code t) @ le_bytes 1 (bits t) @ le_bytes 2 (lanes t)"

definition DLDevice_of_bytes :: "byte list \<Rightarrow> DLDevice" where
  "DLDevice_of_bytes bs =
     \<lparr>device_type = le_word (take 4 bs), device_id = le_word (take 4 (drop 4 bs))\<rparr>"

definition DLDataType_of_bytes :: "byte list \<Rightarrow> DLDataType" where
  "DLDataType_of_bytes bs =
     \<lparr>code = le_word (take 1 bs), bits = le_word (take 1 (drop 1 bs)),
      lanes = le_word (take 2 (drop 2 bs))\<rparr>"

text \<open>
  Modelled from the spec: \<^verbatim>\<open>TVMFFIAny\<close> is declared outside the source files at hand.
  The spec's argument value is a tagged union whose tag fully determines the payload
  layout; the constructors below are the cases the two \<^verbatim>\<open>switch\<close> statements of
  \<^verbatim>\<open>SendPackedSeq\<close> and \<^verbatim>\<open>RecvPackedSeq\<close> tell apart. Payloads behind a pointer are
  held by value: \<open>AnyRawStr s\<close> stands for a pointer to the characters \<open>s\<close> followed by
  the terminating NUL, \<open>AnyByteArrayPtr bs\<close> for a \<^verbatim>\<open>TVMFFIByteArray\<close> whose \<^verbatim>\<open>size\<close> is
  the length of \<open>bs\<close>. Bool, Int and Float share the 64-bit member \<^verbatim>\<open>v_int64\<close> of the
  union (a float is its bit pattern). \<open>AnyOther t obj\<close> is a value with any other type
  index \<open>t\<close>, handled by the channel's object codec.
\<close>

datatype 'o TVMFFIAny =
    AnyNone
  | AnyBool int64
  | AnyInt int64
  | AnyFloat int64
  | AnyOpaquePtr uint64
  | AnyDataType DLDataType
  | AnyDevice DLDevice
  | AnyFunction uint64
  | AnyModule uint64
  | AnyNDArray uint64
  | AnyDLTensorPtr DLTensor
  | AnyRawStr "byte list"
  | AnyByteArrayPtr "byte list"
  | AnyOther int32 'o

text \<open>
  The numeric values of \<^verbatim>\<open>ffi::TypeIndex\<close> are declared outside the source files at
  hand, so the table of the values the source names is a parameter of every function
  that uses one.
\<close>

record TypeIndex =
  kTVMFFINone :: int32
  kTVMFFIInt :: int32
  kTVMFFIBool :: int32
  kTVMFFIFloat :: int32
  kTVMFFIOpaquePtr :: int32
  kTVMFFIDataType :: int32
  kTVMFFIDevice :: int32
  kTVMFFIDLTensorPtr :: int32
  kTVMFFIRawStr :: int32
  kTVMFFIByteArrayPtr :: int32
  kTVMFFIStaticObjectBegin :: int32
  kTVMFFIFunction :: int32
  kTVMFFINDArray :: int32
  kTVMFFIModule :: int32

fun type_index :: "TypeIndex \<Rightarrow> 'o TVMFFIAny \<Rightarrow> int32" where
  "type_index ti AnyNone = kTVMFFINone ti"
| "type_index ti (AnyBool v) = kTVMFFIBool ti"
| "type_index ti (AnyInt v) = kTVMFFIInt ti"
| "type_index ti (AnyFloat v) = kTVMFFIFloat ti"
| "type_index ti (AnyOpaquePtr h) = kTVMFFIOpaquePtr ti"
| "type_index ti (AnyDataType t) = kTVMFFIDataType ti"
| "type_index ti (AnyDevice d) = kTVMFFIDevice ti"
| "type_index ti (AnyFunction h) = kTVMFFIFunction ti"
| "type_index ti (AnyModule h) = kTVMFFIModule ti"
| "type_index ti (AnyNDArray h) = kTVMFFINDArray ti"
| "type_index ti (AnyDLTensorPtr arr) = kTVMFFIDLTensorPtr ti"
| "type_index ti (AnyRawStr s) = kTVMFFIRawStr ti"
| "type_index ti (AnyByteArrayPtr bs) = kTVMFFIByteArrayPtr ti"
| "type_index ti (AnyOther t obj) = t"

text \<open>
  The case labels of the \<^verbatim>\<open>switch\<close> of \<^verbatim>\<open>RecvPackedSeq\<close>; C++ requires them pairwise
  different.
\<close>

definition case_labels :: "TypeIndex \<Rightarrow> int32 list" where
  "case_labels ti =
     [kTVMFFIDLTensorPtr ti, kTVMFFIByteArrayPtr ti, kTVMFFIRawStr ti, kTVMFFIModule ti,
      kTVMFFIFunction ti, kTVMFFIDevice ti, kTVMFFIDataType ti, kTVMFFIOpaquePtr ti,
      kTVMFFIFloat ti, kTVMFFIInt ti, kTVMFFIBool ti, kTVMFFINone ti]"

text \<open>
  The values of the type indices in the FFI header this revision of the repository
  builds against; they instantiate the parameter at concrete inputs.
\<close>

definition ffi_TypeIndex :: TypeIndex where
  "ffi_TypeIndex =
     \<lparr>kTVMFFINone = 0, kTVMFFIInt = 1, kTVMFFIBool = 2, kTVMFFIFloat = 3,
      kTVMFFIOpaquePtr = 4, kTVMFFIDataType = 5, kTVMFFIDevice = 6,
      kTVMFFIDLTensorPtr = 7, kTVMFFIRawStr = 8, kTVMFFIByteArrayPtr = 9,
      kTVMFFIStaticObjectBegin = 64, kTVMFFIFunction = 68, kTVMFFINDArray = 70,
      kTVMFFIModule = 73\<rparr>"

section \<open>Writing: \<^verbatim>\<open>SendDLTensor\<close> and \<^verbatim>\<open>SendPackedSeq\<close>\<close>

text \<open>
  The functions of \<^verbatim>\<open>RPCReference\<close> are templates over the channel. A channel for
  writing is the record of the operations the templates call, over a channel state \<open>'c\<close>:
  \<open>Write\<close> receives the object representation of the value (\<^verbatim>\<open>Write<T>\<close> and
  \<^verbatim>\<open>WriteArray<T>\<close>), \<open>WriteFFIAny\<close> is the channel's codec for other objects and
  \<open>GetFFIAnyProtocolBytes\<close> the size that codec announces, \<open>MessageStart\<close> and
  \<open>MessageDone\<close> are the hooks around a packet. \<^verbatim>\<open>ThrowError\<close> does not return: the
  result is then \<open>Inl\<close> with the error and the state of the channel at that moment.
\<close>

record ('o, 'c) TChannel =
  Write :: "byte list \<Rightarrow> 'c \<Rightarrow> 'c"
  WriteFFIAny :: "int32 \<Rightarrow> 'o \<Rightarrow> 'c \<Rightarrow> (error \<times> 'c) + 'c"
  GetFFIAnyProtocolBytes :: "int32 \<Rightarrow> 'o \<Rightarrow> error + uint64"
  MessageStart :: "uint64 \<Rightarrow> 'c \<Rightarrow> 'c"
  MessageDone :: "'c \<Rightarrow> 'c"

definition SendDLTensor :: "('o, 'c) TChannel \<Rightarrow> DLTensor \<Rightarrow> 'c \<Rightarrow> (error \<times> 'c) + 'c" where
  "SendDLTensor channel arr c0 =
     (let c1 = Write channel (bytes_u64 (data arr)) c0;
          c2 = Write channel (bytes_DLDevice (device arr)) c1;
          c3 = Write channel (bytes_i32 (ndim arr)) c2;
          c4 = Write channel (bytes_DLDataType (dtype arr)) c3;
          c5 = Write channel (bytes_i64_array (take (nat (sint (ndim arr))) (shape arr))) c4
      in if strides arr \<noteq> None then Inl (ThrowError kInvalidDLTensorFieldStride, c5)
         else Inr (Write channel (bytes_u64 (byte_offset arr)) c5))"

text \<open>\<^verbatim>\<open>StrLength\<close>: the loop walks the characters at the pointer up to the first NUL.\<close>

fun StrLength :: "byte list \<Rightarrow> uint64" where
  "StrLength [] = 0"
| "StrLength (c # str) = (if c = 0 then 0 else StrLength str + 1)"

text \<open>One turn of the loop of \<^verbatim>\<open>SendPackedSeq\<close>.\<close>

fun SendPackedArg ::
  "('o, 'c) TChannel \<Rightarrow> TypeIndex \<Rightarrow> bool \<Rightarrow> 'o TVMFFIAny \<Rightarrow> 'c \<Rightarrow> (error \<times> 'c) + 'c" where
  "SendPackedArg channel ti client_mode arg c0 =
     (let c = Write channel (bytes_i32 (type_index ti arg)) c0 in
      case arg of
        AnyNone \<Rightarrow> Inr c
      | AnyBool v \<Rightarrow> Inr (Write channel (bytes_u64 v) c)
      | AnyInt v \<Rightarrow> Inr (Write channel (bytes_u64 v) c)
      | AnyFloat v \<Rightarrow> Inr (Write channel (bytes_u64 v) c)
      | AnyOpaquePtr handle \<Rightarrow> Inr (Write channel (bytes_u64 handle) c)
      | AnyDataType t \<Rightarrow>
          Inr (Write channel (bytes_i32 0) (Write channel (bytes_DLDataType t) c))
      | AnyDevice d \<Rightarrow> Inr (Write channel (bytes_DLDevice d) c)
      | AnyFunction handle \<Rightarrow>
          if \<not> client_mode then Inl (ThrowError kInvalidTypeCodeObject, c)
          else Inr (Write channel (bytes_u64 handle) c)
      | AnyModule handle \<Rightarrow>
          if \<not> client_mode then Inl (ThrowError kInvalidTypeCodeObject, c)
          else Inr (Write channel (bytes_u64 handle) c)
      | AnyNDArray handle \<Rightarrow> Inl (ThrowError kInvalidTypeCodeNDArray, c)
      | AnyDLTensorPtr arr \<Rightarrow> SendDLTensor channel arr c
      | AnyRawStr s \<Rightarrow>
          (let len = StrLength (s @ [0]) in
           Inr (Write channel (take (unat len) s) (Write channel (bytes_u64 len) c)))
      | AnyByteArrayPtr bs \<Rightarrow>
          (let len = (of_nat (length bs) :: uint64) in
           Inr (Write channel (take (unat len) bs) (Write channel (bytes_u64 len) c)))
      | AnyOther t obj \<Rightarrow> WriteFFIAny channel t obj c)"

fun SendPackedArgs ::
  "('o, 'c) TChannel \<Rightarrow> TypeIndex \<Rightarrow> bool \<Rightarrow> 'o TVMFFIAny list \<Rightarrow> 'c \<Rightarrow> (error \<times> 'c) + 'c" where
  "SendPackedArgs channel ti client_mode [] c = Inr c"
| "SendPackedArgs channel ti client_mode (arg # args) c =
     (case SendPackedArg channel ti client_mode arg c of
        Inl e \<Rightarrow> Inl e
      | Inr c' \<Rightarrow> SendPackedArgs channel ti client_mode args c')"

text \<open>
  \<^verbatim>\<open>SendPackedSeq(packed_args, num_args, client_mode, channel)\<close>: the sequence is the list
  \<open>packed_args\<close>, and \<^verbatim>\<open>num_args\<close> is its length as a 32-bit \<^verbatim>\<open>int\<close>.
\<close>

definition SendPackedSeq ::
  "('o, 'c) TChannel \<Rightarrow> TypeIndex \<Rightarrow> 'o TVMFFIAny list \<Rightarrow> bool \<Rightarrow> 'c \<Rightarrow> (error \<times> 'c) + 'c" where
  "SendPackedSeq channel ti packed_args client_mode c =
     SendPackedArgs channel ti client_mode packed_args
       (Write channel (bytes_i32 (of_nat (length packed_args))) c)"

text \<open>
  \<^verbatim>\<open>PackedSeqNumBytesGetter\<close> wraps a channel: \<^verbatim>\<open>Write<T>\<close> and \<^verbatim>\<open>WriteArray<T>\<close> only
  add \<^verbatim>\<open>sizeof(T)\<close> (times the number of elements) to a 64-bit counter, and an object
  counts as many bytes as the wrapped channel announces for it.
\<close>

definition PackedSeqNumBytesGetter :: "('o, 'c) TChannel \<Rightarrow> ('o, uint64) TChannel" where
  "PackedSeqNumBytesGetter channel =
     \<lparr>Write = (\<lambda>bs num_bytes. num_bytes + of_nat (length bs)),
      WriteFFIAny = (\<lambda>t obj num_bytes.
        case GetFFIAnyProtocolBytes channel t obj of
          Inl e \<Rightarrow> Inl (e, num_bytes)
        | Inr n \<Rightarrow> Inr (num_bytes + n)),
      GetFFIAnyProtocolBytes = GetFFIAnyProtocolBytes channel,
      MessageStart = (\<lambda>packet_nbytes num_bytes. num_bytes),
      MessageDone = (\<lambda>num_bytes. num_bytes)\<rparr>"

definition PackedSeqGetNumBytes ::
  "('o, 'c) TChannel \<Rightarrow> TypeIndex \<Rightarrow> 'o TVMFFIAny list \<Rightarrow> bool \<Rightarrow> error + uint64" where
  "PackedSeqGetNumBytes channel ti packed_args client_mode =
     (case SendPackedSeq (PackedSeqNumBytesGetter channel) ti packed_args client_mode 0 of
        Inl (e, n) \<Rightarrow> Inl e
      | Inr n \<Rightarrow> Inr n)"

text \<open>
  A stream channel appends what is written to its buffer, as
  \<^verbatim>\<open>DiscoThreadedMessageQueue::Write\<close> does, and its \<^verbatim>\<open>MessageStart\<close> is empty. The object
  codec of the channel is a parameter: \<open>wr\<close> gives the bytes \<^verbatim>\<open>WriteFFIAny\<close> writes, \<open>nb\<close>
  is \<^verbatim>\<open>GetFFIAnyProtocolBytes\<close>.
\<close>

definition StreamChannel ::
  "(int32 \<Rightarrow> 'o \<Rightarrow> error + byte list) \<Rightarrow> (int32 \<Rightarrow> 'o \<Rightarrow> error + uint64)
     \<Rightarrow> ('o, byte list) TChannel" where
  "StreamChannel wr nb =
     \<lparr>Write = (\<lambda>bs buf. buf @ bs),
      WriteFFIAny = (\<lambda>t obj buf.
        case wr t obj of Inl e \<Rightarrow> Inl (e, buf) | Inr bs \<Rightarrow> Inr (buf @ bs)),
      GetFFIAnyProtocolBytes = nb,
      MessageStart = (\<lambda>packet_nbytes buf. buf),
      MessageDone = (\<lambda>buf. buf)\<rparr>"

section \<open>Packets: \<^verbatim>\<open>ReturnException\<close>, \<^verbatim>\<open>ReturnPackedSeq\<close>, \<^verbatim>\<open>ReturnVoid\<close>\<close>

text \<open>\<^verbatim>\<open>sizeof(code)\<close>, \<^verbatim>\<open>sizeof(num_args)\<close> and \<^verbatim>\<open>sizeof(type_index)\<close> are 4, \<^verbatim>\<open>sizeof(len)\<close> is 8.\<close>

definition ReturnException :: "('o, 'c) TChannel \<Rightarrow> TypeIndex \<Rightarrow> byte list \<Rightarrow> 'c \<Rightarrow> 'c" where
  "ReturnException channel ti msg c0 =
     (let code = kException;
          num_args = (1 :: int32);
          type_index = kTVMFFIRawStr ti;
          len = StrLength (msg @ [0]);
          packet_nbytes = 4 + 4 + 4 + 8 + len;
          c1 = MessageStart channel packet_nbytes c0;
          c2 = Write channel (bytes_u64 packet_nbytes) c1;
          c3 = Write channel (bytes_i32 (RPCCode_int code)) c2;
          c4 = Write channel (bytes_i32 num_args) c3;
          c5 = Write channel (bytes_i32 type_index) c4;
          c6 = Write channel (bytes_u64 len) c5;
          c7 = Write channel (take (unat len) msg) c6
      in MessageDone channel c7)"

definition ReturnPackedSeq ::
  "('o, 'c) TChannel \<Rightarrow> TypeIndex \<Rightarrow> 'o TVMFFIAny list \<Rightarrow> 'c \<Rightarrow> (error \<times> 'c) + 'c" where
  "ReturnPackedSeq channel ti packed_args c0 =
     (let code = kReturn in
      case PackedSeqGetNumBytes channel ti packed_args False of
        Inl e \<Rightarrow> Inl (e, c0)
      | Inr n \<Rightarrow>
          (let packet_nbytes = 4 + n;
               c1 = MessageStart channel packet_nbytes c0;
               c2 = Write channel (bytes_u64 packet_nbytes) c1;
               c3 = Write channel (bytes_i32 (RPCCode_int code)) c2
           in case SendPackedSeq channel ti packed_args False c3 of
                Inl e \<Rightarrow> Inl e
              | Inr c4 \<Rightarrow> Inr (MessageDone channel c4)))"

definition ReturnVoid :: "('o, 'c) TChannel \<Rightarrow> TypeIndex \<Rightarrow> 'c \<Rightarrow> 'c" where
  "ReturnVoid channel ti c0 =
     (let num_args = (1 :: int32);
          type_index = kTVMFFINone ti;
          code = kReturn;
          packet_nbytes = (4 + 4 + 4 :: uint64);
          c1 = MessageStart channel packet_nbytes c0;
          c2 = Write channel (bytes_u64 packet_nbytes) c1;
          c3 = Write channel (bytes_i32 (RPCCode_int code)) c2;
          c4 = Write channel (bytes_i32 num_args) c3
      in MessageDone channel (Write channel (bytes_i32 type_index) c4))"

section \<open>Reading: \<^verbatim>\<open>ReceiveDLTensor\<close> and \<^verbatim>\<open>RecvPackedSeq\<close>\<close>

text \<open>
  A channel for reading is the sequence of bytes still to be read: for
  \<^verbatim>\<open>DiscoThreadedMessageQueue\<close> the content of \<^verbatim>\<open>read_buffer_\<close> from \<^verbatim>\<open>read_offset_\<close> on.
  \<open>Read n\<close> takes the next \<open>n\<close> bytes; reading beyond the end fails the
  \<^verbatim>\<open>ICHECK_LE(read_offset_, read_buffer_.size())\<close> of \<^verbatim>\<open>DiscoThreadedMessageQueue::Read\<close>.
  \<^verbatim>\<open>ArenaAlloc\<close> only provides the space for what is read; values are built by value here.
\<close>

definition Read :: "nat \<Rightarrow> byte list \<Rightarrow> error + (byte list \<times> byte list)" where
  "Read n s = (if n \<le> length s then Inr (take n s, drop n s) else Inl CheckFailed)"

text \<open>\<^verbatim>\<open>ReadArray(int64_t*, num)\<close>\<close>

fun ReadArray_i64 :: "nat \<Rightarrow> byte list \<Rightarrow> error + (int64 list \<times> byte list)" where
  "ReadArray_i64 0 s = Inr ([], s)"
| "ReadArray_i64 (Suc n) s =
     (case Read 8 s of
        Inl e \<Rightarrow> Inl e
      | Inr (bs, s') \<Rightarrow>
          (case ReadArray_i64 n s' of
             Inl e \<Rightarrow> Inl e
           | Inr (xs, s'') \<Rightarrow> Inr (le_word bs # xs, s'')))"

text \<open>
  \<^verbatim>\<open>ReceiveDLTensor\<close>. A negative \<^verbatim>\<open>ndim\<close> read from the channel becomes an element count
  beyond any channel's content; the model stops there as a read beyond the end does.
\<close>

definition ReceiveDLTensor :: "byte list \<Rightarrow> error + (DLTensor \<times> byte list)" where
  "ReceiveDLTensor s0 =
     (case Read 8 s0 of Inl e \<Rightarrow> Inl e | Inr (handle, s1) \<Rightarrow>
      case Read 8 s1 of Inl e \<Rightarrow> Inl e | Inr (dev, s2) \<Rightarrow>
      case Read 4 s2 of Inl e \<Rightarrow> Inl e | Inr (nd, s3) \<Rightarrow>
      case Read 4 s3 of Inl e \<Rightarrow> Inl e | Inr (dt, s4) \<Rightarrow>
      if sint (le_word nd :: int32) < 0 then Inl CheckFailed else
      case ReadArray_i64 (nat (sint (le_word nd :: int32))) s4 of Inl e \<Rightarrow> Inl e | Inr (shp, s5) \<Rightarrow>
      case Read 8 s5 of Inl e \<Rightarrow> Inl e | Inr (off, s6) \<Rightarrow>
        Inr (\<lparr>data = le_word handle, device = DLDevice_of_bytes dev, ndim = le_word nd,
              dtype = DLDataType_of_bytes dt, shape = shp, strides = None,
              byte_offset = le_word off\<rparr>, s6))"

text \<open>The C string at a pointer: the characters before the first NUL.\<close>

definition c_str :: "byte list \<Rightarrow> byte list" where
  "c_str mem = takeWhile (\<lambda>c. c \<noteq> 0) mem"

text \<open>
  The body of the loop of \<^verbatim>\<open>RecvPackedSeq\<close> after the type index has been read: the
  \<^verbatim>\<open>switch\<close>, its labels in the order of the source. \<open>rd\<close> is the channel's
  \<^verbatim>\<open>ReadFFIAny\<close>.
\<close>

definition RecvPackedArg ::
  "TypeIndex \<Rightarrow> (int32 \<Rightarrow> byte list \<Rightarrow> error + ('o TVMFFIAny \<times> byte list)) \<Rightarrow> int32 \<Rightarrow> byte list
     \<Rightarrow> error + ('o TVMFFIAny \<times> byte list)" where
  "RecvPackedArg ti rd t s =
     (if t = kTVMFFINone ti then Inr (AnyNone, s)
      else if t = kTVMFFIBool ti then
        (case Read 8 s of Inl e \<Rightarrow> Inl e | Inr (bs, s') \<Rightarrow> Inr (AnyBool (le_word bs), s'))
      else if t = kTVMFFIInt ti then
        (case Read 8 s of Inl e \<Rightarrow> Inl e | Inr (bs, s') \<Rightarrow> Inr (AnyInt (le_word bs), s'))
      else if t = kTVMFFIFloat ti then
        (case Read 8 s of Inl e \<Rightarrow> Inl e | Inr (bs, s') \<Rightarrow> Inr (AnyFloat (le_word bs), s'))
      else if t = kTVMFFIOpaquePtr ti then
        (case Read 8 s of Inl e \<Rightarrow> Inl e | Inr (bs, s') \<Rightarrow> Inr (AnyOpaquePtr (le_word bs), s'))
      else if t = kTVMFFIDataType ti then
        (case Read 4 s of Inl e \<Rightarrow> Inl e | Inr (bs, s') \<Rightarrow>
         case Read 4 s' of Inl e \<Rightarrow> Inl e | Inr (padding, s'') \<Rightarrow>
           Inr (AnyDataType (DLDataType_of_bytes bs), s''))
      else if t = kTVMFFIDevice ti then
        (case Read 8 s of Inl e \<Rightarrow> Inl e | Inr (bs, s') \<Rightarrow>
           Inr (AnyDevice (DLDevice_of_bytes bs), s'))
      else if t = kTVMFFIFunction ti then
        (case Read 8 s of Inl e \<Rightarrow> Inl e | Inr (bs, s') \<Rightarrow> Inr (AnyFunction (le_word bs), s'))
      else if t = kTVMFFIModule ti then
        (case Read 8 s of Inl e \<Rightarrow> Inl e | Inr (bs, s') \<Rightarrow> Inr (AnyModule (le_word bs), s'))
      else if t = kTVMFFIRawStr ti then
        (case Read 8 s of Inl e \<Rightarrow> Inl e | Inr (lb, s') \<Rightarrow>
         case Read (unat (le_word lb :: uint64)) s' of Inl e \<Rightarrow> Inl e | Inr (str, s'') \<Rightarrow>
           Inr (AnyRawStr (c_str (str @ [0])), s''))
      else if t = kTVMFFIByteArrayPtr ti then
        (case Read 8 s of Inl e \<Rightarrow> Inl e | Inr (lb, s') \<Rightarrow>
         case Read (unat (le_word lb :: uint64)) s' of Inl e \<Rightarrow> Inl e | Inr (bs, s'') \<Rightarrow>
           Inr (AnyByteArrayPtr bs, s''))
      else if t = kTVMFFIDLTensorPtr ti then
        (case ReceiveDLTensor s of Inl e \<Rightarrow> Inl e | Inr (arr, s') \<Rightarrow>
           Inr (AnyDLTensorPtr arr, s'))
      else if kTVMFFIStaticObjectBegin ti \<le>s t then rd t s
      else Inl (ThrowError kUnknownTypeIndex))"

fun RecvPackedArgs ::
  "TypeIndex \<Rightarrow> (int32 \<Rightarrow> byte list \<Rightarrow> error + ('o TVMFFIAny \<times> byte list)) \<Rightarrow> nat \<Rightarrow> byte list
     \<Rightarrow> error + ('o TVMFFIAny list \<times> byte list)" where
  "RecvPackedArgs ti rd 0 s = Inr ([], s)"
| "RecvPackedArgs ti rd (Suc n) s =
     (case Read 4 s of
        Inl e \<Rightarrow> Inl e
      | Inr (tb, s1) \<Rightarrow>
          (case RecvPackedArg ti rd (le_word tb) s1 of
             Inl e \<Rightarrow> Inl e
           | Inr (arg, s2) \<Rightarrow>
               (case RecvPackedArgs ti rd n s2 of
                  Inl e \<Rightarrow> Inl e
                | Inr (args, s3) \<Rightarrow> Inr (arg # args, s3))))"

text \<open>
  \<^verbatim>\<open>RecvPackedSeq\<close> returns \<^verbatim>\<open>*out_num_args\<close>, the sequence, and the channel after
  reading. The loop runs \<^verbatim>\<open>num_args\<close> times, not at all when it is zero or negative.
\<close>

definition RecvPackedSeq ::
  "TypeIndex \<Rightarrow> (int32 \<Rightarrow> byte list \<Rightarrow> error + ('o TVMFFIAny \<times> byte list)) \<Rightarrow> byte list
     \<Rightarrow> error + ((int32 \<times> 'o TVMFFIAny list) \<times> byte list)" where
  "RecvPackedSeq ti rd s =
     (case Read 4 s of
        Inl e \<Rightarrow> Inl e
      | Inr (nb, s1) \<Rightarrow>
          (let num_args = (le_word nb :: int32) in
           if num_args = 0 then Inr ((num_args, []), s1)
           else case RecvPackedArgs ti rd (nat (sint num_args)) s1 of
                  Inl e \<Rightarrow> Inl e
                | Inr (packed_args, s2) \<Rightarrow> Inr ((num_args, packed_args), s2)))"

section \<open>Representable argument values\<close>

text \<open>
  What the C types of the source guarantee of an argument that can be sent: a tensor
  descriptor is dense (\<^verbatim>\<open>strides\<close> is null) and its shape array has \<^verbatim>\<open>ndim\<close> entries, a
  C string holds no NUL before its terminator, a length fits the 64-bit \<^verbatim>\<open>uint64_t\<close>.
  Function and Module handles travel from client to server only. NDArray values and
  values of the channel's object codec are outside this set.
\<close>

fun representable :: "bool \<Rightarrow> 'o TVMFFIAny \<Rightarrow> bool" where
  "representable client_mode (AnyDLTensorPtr arr) =
     (strides arr = None \<and> 0 \<le> sint (ndim arr) \<and> length (shape arr) = nat (sint (ndim arr)))"
| "representable client_mode (AnyRawStr s) = (0 \<notin> set s \<and> length s < 2 ^ 64)"
| "representable client_mode (AnyByteArrayPtr bs) = (length bs < 2 ^ 64)"
| "representable client_mode (AnyFunction h) = client_mode"
| "representable client_mode (AnyModule h) = client_mode"
| "representable client_mode (AnyNDArray h) = False"
| "representable client_mode (AnyOther t obj) = False"
| "representable client_mode v = True"

text \<open>A channel without object codec, and a sequence with one value of each kind.\<close>

definition no_wr :: "int32 \<Rightarrow> unit \<Rightarrow> error + byte list" where
  "no_wr t obj = Inl CheckFailed"

definition no_nb :: "int32 \<Rightarrow> unit \<Rightarrow> error + uint64" where
  "no_nb t obj = Inl CheckFailed"

definition no_rd :: "int32 \<Rightarrow> byte list \<Rightarrow> error + (unit TVMFFIAny \<times> byte list)" where
  "no_rd t s = Inl CheckFailed"

definition example_tensor :: DLTensor where
  "example_tensor =
     \<lparr>data = 4096, device = \<lparr>device_type = 2, device_id = 0\<rparr>, ndim = 2,
      dtype = \<lparr>code = 2, bits = 32, lanes = 1\<rparr>, shape = [3, 4], strides = None,
      byte_offset = 0\<rparr>"

definition example_args :: "unit TVMFFIAny list" where
  "example_args =
     [AnyNone, AnyBool 1, AnyInt (- 5), AnyFloat 4609434218613702656,
      AnyDevice \<lparr>device_type = 2, device_id = 1\<rparr>,
      AnyDataType \<lparr>code = 2, bits = 32, lanes = 1\<rparr>,
      AnyOpaquePtr 3735928559, AnyDLTensorPtr example_tensor,
      AnyRawStr [104, 105], AnyByteArrayPtr [0, 255]]"

section \<open>The arguments \<^verbatim>\<open>SendPackedSeq\<close> rejects\<close>

text \<open>
  The cases in which the encoder calls \<^verbatim>\<open>ThrowError\<close>, with the status it passes, read
  off the branches of \<^verbatim>\<open>SendPackedSeq\<close> and \<^verbatim>\<open>SendDLTensor\<close>; an object of the channel's
  codec is rejected when that codec rejects it. \<open>written_before_throw\<close> is what the
  encoder has written of the rejected argument after its type index: nothing, except
  for a tensor descriptor, whose \<^verbatim>\<open>strides\<close> are tested after the handle, the device, the
  rank, the dtype and the shape have been written.
\<close>

fun rejected :: "(int32 \<Rightarrow> 'o \<Rightarrow> error + byte list) \<Rightarrow> bool \<Rightarrow> 'o TVMFFIAny \<Rightarrow> error option" where
  "rejected wr client_mode (AnyNDArray h) = Some (ThrowError kInvalidTypeCodeNDArray)"
| "rejected wr client_mode (AnyFunction h) =
     (if client_mode then None else Some (ThrowError kInvalidTypeCodeObject))"
| "rejected wr client_mode (AnyModule h) =
     (if client_mode then None else Some (ThrowError kInvalidTypeCodeObject))"
| "rejected wr client_mode (AnyDLTensorPtr arr) =
     (if strides arr \<noteq> None then Some (ThrowError kInvalidDLTensorFieldStride) else None)"
| "rejected wr client_mode (AnyOther t obj) =
     (case wr t obj of Inl e \<Rightarrow> Some e | Inr bs \<Rightarrow> None)"
| "rejected wr client_mode v = None"

fun written_before_throw :: "'o TVMFFIAny \<Rightarrow> byte list" where
  "written_before_throw (AnyDLTensorPtr arr) =
     bytes_u64 (data arr) @ bytes_DLDevice (device arr) @ bytes_i32 (ndim arr)
       @ bytes_DLDataType (dtype arr) @ bytes_i64_array (take (nat (sint (ndim arr))) (shape arr))"
| "written_before_throw v = []"

definition strided_tensor :: DLTensor where
  "strided_tensor = example_tensor\<lparr>strides := Some [4, 1]\<rparr>"

section \<open>The packet format\<close>

text \<open>
  The format of a message packet in the words of the spec,
  \<^verbatim>\<open>[u64 total_length][command_code][payload]\<close>: the length counts the command code and
  the payload.
\<close>

definition packet :: "RPCCode \<Rightarrow> byte list \<Rightarrow> byte list" where
  "packet rpc_code payload =
     bytes_u64 (of_nat (4 + length payload)) @ bytes_i32 (RPCCode_int rpc_code) @ payload"

text \<open>
  The object codec of a channel is consistent when the size \<^verbatim>\<open>GetFFIAnyProtocolBytes\<close>
  announces for an object is the number of bytes \<^verbatim>\<open>WriteFFIAny\<close> writes for it. Both
  belong to the channel, outside the source files at hand.
\<close>

definition sizes_agree ::
  "(int32 \<Rightarrow> 'o \<Rightarrow> error + byte list) \<Rightarrow> (int32 \<Rightarrow> 'o \<Rightarrow> error + uint64) \<Rightarrow> bool" where
  "sizes_agree wr nb \<longleftrightarrow>
     (\<forall>t obj k bs. nb t obj = Inr k \<longrightarrow> wr t obj = Inr bs \<longrightarrow> k = of_nat (length bs))"

section \<open>The in-process message queue (\<^verbatim>\<open>threaded_session.cc\<close>)\<close>

text \<open>
  Modelled from the spec: \<^verbatim>\<open>support::RingBuffer\<close> is declared outside the source files at
  hand. It is the byte queue of the in-process channel: \<open>RingBuffer_Write\<close> appends
  bytes, \<open>RingBuffer_Read\<close> removes the oldest ones, and fails when fewer are stored.
\<close>

definition RingBuffer_Write :: "byte list \<Rightarrow> byte list \<Rightarrow> byte list" where
  "RingBuffer_Write bs ring = ring @ bs"

definition RingBuffer_Read :: "nat \<Rightarrow> byte list \<Rightarrow> error + (byte list \<times> byte list)" where
  "RingBuffer_Read n ring =
     (if n \<le> length ring then Inr (take n ring, drop n ring) else Inl CheckFailed)"

text \<open>
  The fields of \<^verbatim>\<open>DiscoThreadedMessageQueue\<close>. \<^verbatim>\<open>msg_cnt_\<close> is a \<^verbatim>\<open>std::atomic<int>\<close>, a
  32-bit counter that wraps around. The mutex and the condition variable have no state
  of their own here: the two critical sections are atomic steps, and outside them the
  producer only touches \<^verbatim>\<open>write_buffer_\<close> and the consumer only \<^verbatim>\<open>read_buffer_\<close> and
  \<^verbatim>\<open>read_offset_\<close>, so a \<^verbatim>\<open>Send\<close> and a \<^verbatim>\<open>Recv\<close> are steps on the record that
  interleave as wholes.
\<close>

record DiscoThreadedMessageQueue =
  write_buffer :: "byte list"
  read_buffer :: "byte list"
  read_offset :: nat
  dequeue_waiting :: bool
  msg_cnt :: int32
  ring_buffer :: "byte list"

definition empty_queue :: DiscoThreadedMessageQueue where
  "empty_queue =
     \<lparr>write_buffer = [], read_buffer = [], read_offset = 0, dequeue_waiting = False,
      msg_cnt = 0, ring_buffer = []\<rparr>"

definition CommitSendAndNotifyEnqueue :: "DiscoThreadedMessageQueue \<Rightarrow> DiscoThreadedMessageQueue" where
  "CommitSendAndNotifyEnqueue q =
     q\<lparr>msg_cnt := msg_cnt q + 1,
       ring_buffer := RingBuffer_Write (write_buffer q) (ring_buffer q),
       write_buffer := []\<rparr>"

text \<open>
  \<^verbatim>\<open>Send\<close>: \<^verbatim>\<open>ReturnPackedSeq\<close> writes the packet through
  \<^verbatim>\<open>DiscoThreadedMessageQueue::Write\<close>, which appends to \<^verbatim>\<open>write_buffer_\<close> (the stream
  channel on that field); then the packet is committed. An error leaves what was
  written in \<^verbatim>\<open>write_buffer_\<close>.
\<close>

definition Send ::
  "TypeIndex \<Rightarrow> (int32 \<Rightarrow> 'o \<Rightarrow> error + byte list) \<Rightarrow> (int32 \<Rightarrow> 'o \<Rightarrow> error + uint64)
     \<Rightarrow> 'o TVMFFIAny list \<Rightarrow> DiscoThreadedMessageQueue
     \<Rightarrow> (error \<times> DiscoThreadedMessageQueue) + DiscoThreadedMessageQueue" where
  "Send ti wr nb args q =
     (case ReturnPackedSeq (StreamChannel wr nb) ti args (write_buffer q) of
        Inl (e, buf) \<Rightarrow> Inl (e, q\<lparr>write_buffer := buf\<rparr>)
      | Inr buf \<Rightarrow> Inr (CommitSendAndNotifyEnqueue (q\<lparr>write_buffer := buf\<rparr>)))"

text \<open>
  \<^verbatim>\<open>DequeueNextPacket\<close>. The wait on the condition variable returns only once
  \<^verbatim>\<open>msg_cnt_ > 0\<close>: while it is not, the call does not return, which is the result \<open>None\<close>.
  The command code read at the end is not looked at by the source.
\<close>

definition DequeueNextPacket ::
  "DiscoThreadedMessageQueue \<Rightarrow> (error + DiscoThreadedMessageQueue) option" where
  "DequeueNextPacket q =
     (if \<not> 0 <s msg_cnt q then None
      else Some
        (let q1 = q\<lparr>dequeue_waiting := False, msg_cnt := msg_cnt q - 1\<rparr> in
         case RingBuffer_Read 8 (ring_buffer q1) of
           Inl e \<Rightarrow> Inl e
         | Inr (nbytes, ring1) \<Rightarrow>
             (let packet_nbytes = (le_word nbytes :: uint64) in
              case RingBuffer_Read (unat packet_nbytes) ring1 of
                Inl e \<Rightarrow> Inl e
              | Inr (pkt, ring2) \<Rightarrow>
                  (let q2 = q1\<lparr>read_buffer := pkt, ring_buffer := ring2, read_offset := 0\<rparr> in
                   case Read 4 (drop (read_offset q2) (read_buffer q2)) of
                     Inl e \<Rightarrow> Inl e
                   | Inr (code_bytes, rest) \<Rightarrow>
                       Inr (q2\<lparr>read_offset := read_offset q2 + 4\<rparr>)))))"

text \<open>
  \<^verbatim>\<open>Recv\<close>: one packet is dequeued, then \<^verbatim>\<open>RecvPackedSeq\<close> reads from \<^verbatim>\<open>read_buffer_\<close> at
  \<^verbatim>\<open>read_offset_\<close>.
\<close>

definition Recv ::
  "TypeIndex \<Rightarrow> (int32 \<Rightarrow> byte list \<Rightarrow> error + ('o TVMFFIAny \<times> byte list))
     \<Rightarrow> DiscoThreadedMessageQueue
     \<Rightarrow> (error + ('o TVMFFIAny list \<times> DiscoThreadedMessageQueue)) option" where
  "Recv ti rd q =
     (case DequeueNextPacket q of
        None \<Rightarrow> None
      | Some (Inl e) \<Rightarrow> Some (Inl e)
      | Some (Inr q1) \<Rightarrow>
          Some (case RecvPackedSeq ti rd (drop (read_offset q1) (read_buffer q1)) of
                  Inl e \<Rightarrow> Inl e
                | Inr ((num_args, packed_args), rest) \<Rightarrow>
                    Inr (packed_args,
                         q1\<lparr>read_offset := length (read_buffer q1) - length rest\<rparr>)))"

text \<open>
  A run of the queue: the producer's \<^verbatim>\<open>Send\<close>s and the consumer's \<^verbatim>\<open>Recv\<close>s in the order
  in which their critical sections take place. The run gives what the \<^verbatim>\<open>Recv\<close>s
  returned, in order.
\<close>

datatype 'o queue_event = SendEvent "'o TVMFFIAny list" | RecvEvent

fun run_queue ::
  "TypeIndex \<Rightarrow> (int32 \<Rightarrow> 'o \<Rightarrow> error + byte list) \<Rightarrow> (int32 \<Rightarrow> 'o \<Rightarrow> error + uint64)
     \<Rightarrow> (int32 \<Rightarrow> byte list \<Rightarrow> error + ('o TVMFFIAny \<times> byte list))
     \<Rightarrow> 'o queue_event list \<Rightarrow> DiscoThreadedMessageQueue
     \<Rightarrow> (error + ('o TVMFFIAny list list \<times> DiscoThreadedMessageQueue)) option" where
  "run_queue ti wr nb rd [] q = Some (Inr ([], q))"
| "run_queue ti wr nb rd (SendEvent args # evs) q =
     (case Send ti wr nb args q of
        Inl (e, q') \<Rightarrow> Some (Inl e)
      | Inr q' \<Rightarrow> run_queue ti wr nb rd evs q')"
| "run_queue ti wr nb rd (RecvEvent # evs) q =
     (case Recv ti rd q of
        None \<Rightarrow> None
      | Some (Inl e) \<Rightarrow> Some (Inl e)
      | Some (Inr (args, q')) \<Rightarrow>
          (case run_queue ti wr nb rd evs q' of
             None \<Rightarrow> None
           | Some (Inl e) \<Rightarrow> Some (Inl e)
           | Some (Inr (out, q'')) \<Rightarrow> Some (Inr (args # out, q''))))"

text \<open>
  The queue of the spec: a first-in first-out list of the packed sequences sent and not
  yet received; a \<^verbatim>\<open>Recv\<close> on the empty list waits.
\<close>

fun fifo ::
  "'o queue_event list \<Rightarrow> 'o TVMFFIAny list list
     \<Rightarrow> ('o TVMFFIAny list list \<times> 'o TVMFFIAny list list) option" where
  "fifo [] pending = Some ([], pending)"
| "fifo (SendEvent args # evs) pending = fifo evs (pending @ [args])"
| "fifo (RecvEvent # evs) [] = None"
| "fifo (RecvEvent # evs) (args # pending) =
     (case fifo evs pending of
        None \<Rightarrow> None
      | Some (out, pending') \<Rightarrow> Some (args # out, pending'))"

text \<open>
  A sequence that \<^verbatim>\<open>Send\<close> can frame: its values are representable (for a reply,
  \<^verbatim>\<open>client_mode\<close> is false), their number fits the 32-bit count and the packet the 64-bit
  length.
\<close>

definition sendable ::
  "TypeIndex \<Rightarrow> (int32 \<Rightarrow> 'o \<Rightarrow> error + byte list) \<Rightarrow> (int32 \<Rightarrow> 'o \<Rightarrow> error + uint64)
     \<Rightarrow> 'o TVMFFIAny list \<Rightarrow> bool" where
  "sendable ti wr nb args \<longleftrightarrow>
     list_all (representable False) args \<and> length args < 2 ^ 31 \<and>
     (case SendPackedSeq (StreamChannel wr nb) ti args False [] of
        Inl e \<Rightarrow> False
      | Inr payload \<Rightarrow> 4 + length payload < 2 ^ 64)"

fun sent :: "'o queue_event list \<Rightarrow> 'o TVMFFIAny list list" where
  "sent [] = []"
| "sent (SendEvent args # evs) = args # sent evs"
| "sent (RecvEvent # evs) = sent evs"

text \<open>
  For the statements about the queue: the payload that \<^verbatim>\<open>SendPackedSeq\<close> writes for a
  sequence, the packet \<^verbatim>\<open>Send\<close> makes of it, and the relation between a queue and the
  list of the sequences sent and not yet received: the ring buffer holds their packets,
  one after the other and nothing else, \<^verbatim>\<open>msg_cnt_\<close> is their number, and
  \<^verbatim>\<open>write_buffer_\<close> is empty.
\<close>

definition encode ::
  "TypeIndex \<Rightarrow> (int32 \<Rightarrow> 'o \<Rightarrow> error + byte list) \<Rightarrow> (int32 \<Rightarrow> 'o \<Rightarrow> error + uint64)
     \<Rightarrow> 'o TVMFFIAny list \<Rightarrow> byte list" where
  "encode ti wr nb args =
     (case SendPackedSeq (StreamChannel wr nb) ti args False [] of
        Inl e \<Rightarrow> []
      | Inr payload \<Rightarrow> payload)"

definition frame ::
  "TypeIndex \<Rightarrow> (int32 \<Rightarrow> 'o \<Rightarrow> error + byte list) \<Rightarrow> (int32 \<Rightarrow> 'o \<Rightarrow> error + uint64)
     \<Rightarrow> 'o TVMFFIAny list \<Rightarrow> byte list" where
  "frame ti wr nb args = packet kReturn (encode ti wr nb args)"

definition queue_holds ::
  "TypeIndex \<Rightarrow> (int32 \<Rightarrow> 'o \<Rightarrow> error + byte list) \<Rightarrow> (int32 \<Rightarrow> 'o \<Rightarrow> error + uint64)
     \<Rightarrow> DiscoThreadedMessageQueue \<Rightarrow> 'o TVMFFIAny list list \<Rightarrow> bool" where
  "queue_holds ti wr nb q pending \<longleftrightarrow>
     ring_buffer q = concat (map (frame ti wr nb) pending) \<and>
     msg_cnt q = of_nat (length pending) \<and> write_buffer q = []"

section \<open>The threaded session (\<^verbatim>\<open>threaded_session.cc\<close>)\<close>

text \<open>
  The C++ \<^verbatim>\<open>int\<close>s of the session code (worker ids, counts of workers and groups) are
  integers here; \<^verbatim>\<open>/\<close> and \<^verbatim>\<open>%\<close> truncate towards zero (\<open>sdiv\<close> and \<open>smod\<close>).

  Modelled from the spec: \<^verbatim>\<open>DiscoWorker\<close> is declared outside the source files at hand.
  The spec gives a worker its identity (global worker id, total worker count, group
  count) and a register file, a mapping from register ids to values; the source reads
  \<^verbatim>\<open>register_file.at(reg_id)\<close>, so the register file is a vector.
\<close>

record 'v DiscoWorker =
  worker_id :: int
  num_workers :: int
  num_groups :: int
  register_file :: "'v list"

text \<open>
  \<^verbatim>\<open>DiscoWorkerThread\<close>: a worker, its channel and its thread. Of the channel from the
  controller to the worker the record keeps the commands sent and not yet executed by
  the worker's thread, oldest first.
\<close>

record ('v, 'cmd) DiscoWorkerThread =
  worker :: "'v DiscoWorker"
  queued :: "'cmd list"

definition new_DiscoWorkerThread :: "int \<Rightarrow> int \<Rightarrow> int \<Rightarrow> ('v, 'cmd) DiscoWorkerThread" where
  "new_DiscoWorkerThread i n_workers n_groups =
     \<lparr>worker = \<lparr>worker_id = i, num_workers = n_workers, num_groups = n_groups,
                 register_file = []\<rparr>,
      queued = []\<rparr>"

record ('v, 'cmd) ThreadedSessionObj =
  workers :: "('v, 'cmd) DiscoWorkerThread list"

text \<open>The constructor: \<^verbatim>\<open>for (int i = 0; i < num_workers; ++i) workers_.emplace_back(...)\<close>.\<close>

definition new_ThreadedSessionObj :: "int \<Rightarrow> int \<Rightarrow> ('v, 'cmd) ThreadedSessionObj" where
  "new_ThreadedSessionObj n_workers n_groups =
     \<lparr>workers = map (\<lambda>i. new_DiscoWorkerThread (int i) n_workers n_groups) [0..<nat n_workers]\<rparr>"

definition GetNumWorkers :: "('v, 'cmd) ThreadedSessionObj \<Rightarrow> int" where
  "GetNumWorkers s = int (length (workers s))"

text \<open>
  \<^verbatim>\<open>Session::ThreadedSession\<close>. The remainder is undefined in C++ for a zero divisor and
  for \<^verbatim>\<open>INT_MIN % -1\<close>.
\<close>

definition ThreadedSession :: "int \<Rightarrow> int \<Rightarrow> error + ('v, 'cmd) ThreadedSessionObj" where
  "ThreadedSession n_workers num_group =
     (if num_group = 0 \<or> (n_workers = - (2 ^ 31) \<and> num_group = - 1) then Inl Undefined
      else if n_workers smod num_group \<noteq> 0 then Inl CheckFailed
      else Inr (new_ThreadedSessionObj n_workers num_group))"

text \<open>\<^verbatim>\<open>workers_.at(worker_id)\<close>\<close>

definition workers_at ::
  "('v, 'cmd) ThreadedSessionObj \<Rightarrow> int \<Rightarrow> error + ('v, 'cmd) DiscoWorkerThread" where
  "workers_at s wid =
     (if 0 \<le> wid \<and> wid < int (length (workers s)) then Inr (workers s ! nat wid)
      else Inl OutOfRange)"

text \<open>\<^verbatim>\<open>SendPacked\<close>: the command joins the channel of the worker.\<close>

definition ThreadedSession_SendPacked ::
  "int \<Rightarrow> 'cmd \<Rightarrow> ('v, 'cmd) ThreadedSessionObj \<Rightarrow> error + ('v, 'cmd) ThreadedSessionObj" where
  "ThreadedSession_SendPacked wid args s =
     (case workers_at s wid of
        Inl e \<Rightarrow> Inl e
      | Inr w \<Rightarrow> Inr (s\<lparr>workers := (workers s)[nat wid := w\<lparr>queued := queued w @ [args]\<rparr>]\<rparr>))"

text \<open>
  Modelled from the spec: \<^verbatim>\<open>SyncWorker\<close> of \<^verbatim>\<open>BcastSessionObj\<close> and the receive loop of the
  worker are outside the source files at hand. The spec: the worker executes its
  commands in the order received, and Sync is a no-op command that, once processed,
  guarantees that all commands enqueued before it have completed. \<open>exec\<close> is the
  execution collaborator: what a command does to the worker that executes it.
\<close>

definition drain ::
  "('cmd \<Rightarrow> 'v DiscoWorker \<Rightarrow> 'v DiscoWorker) \<Rightarrow> ('v, 'cmd) DiscoWorkerThread
     \<Rightarrow> ('v, 'cmd) DiscoWorkerThread" where
  "drain exec w = \<lparr>worker = fold exec (queued w) (worker w), queued = []\<rparr>"

definition SyncWorker ::
  "('cmd \<Rightarrow> 'v DiscoWorker \<Rightarrow> 'v DiscoWorker) \<Rightarrow> int \<Rightarrow> ('v, 'cmd) ThreadedSessionObj
     \<Rightarrow> error + ('v, 'cmd) ThreadedSessionObj" where
  "SyncWorker exec wid s =
     (case workers_at s wid of
        Inl e \<Rightarrow> Inl e
      | Inr w \<Rightarrow> Inr (s\<lparr>workers := (workers s)[nat wid := drain exec w]\<rparr>))"

text \<open>
  Modelled from the spec: \<^verbatim>\<open>DiscoWorker::SetRegister\<close> is outside the source files at
  hand. The spec: the controller overwrites the value stashed under a register id.
\<close>

definition SetRegister :: "int \<Rightarrow> 'v \<Rightarrow> 'v DiscoWorker \<Rightarrow> error + 'v DiscoWorker" where
  "SetRegister reg_id v w =
     (if 0 \<le> reg_id \<and> reg_id < int (length (register_file w))
      then Inr (w\<lparr>register_file := (register_file w)[nat reg_id := v]\<rparr>)
      else Inl CheckFailed)"

text \<open>\<^verbatim>\<open>register_file.at(reg_id)\<close>\<close>

definition register_file_at :: "'v DiscoWorker \<Rightarrow> int \<Rightarrow> error + 'v" where
  "register_file_at w reg_id =
     (if 0 \<le> reg_id \<and> reg_id < int (length (register_file w))
      then Inr (register_file w ! nat reg_id)
      else Inl OutOfRange)"

definition DebugGetFromRemote ::
  "('cmd \<Rightarrow> 'v DiscoWorker \<Rightarrow> 'v DiscoWorker) \<Rightarrow> int \<Rightarrow> int \<Rightarrow> ('v, 'cmd) ThreadedSessionObj
     \<Rightarrow> error + ('v \<times> ('v, 'cmd) ThreadedSessionObj)" where
  "DebugGetFromRemote exec reg_id wid s =
     (case SyncWorker exec wid s of
        Inl e \<Rightarrow> Inl e
      | Inr s1 \<Rightarrow>
          (case workers_at s1 wid of
             Inl e \<Rightarrow> Inl e
           | Inr w \<Rightarrow>
               (case register_file_at (worker w) reg_id of
                  Inl e \<Rightarrow> Inl e
                | Inr v \<Rightarrow> Inr (v, s1))))"

definition DebugSetRegister ::
  "('cmd \<Rightarrow> 'v DiscoWorker \<Rightarrow> 'v DiscoWorker) \<Rightarrow> int \<Rightarrow> 'v \<Rightarrow> int \<Rightarrow> ('v, 'cmd) ThreadedSessionObj
     \<Rightarrow> error + ('v, 'cmd) ThreadedSessionObj" where
  "DebugSetRegister exec reg_id v wid s =
     (case SyncWorker exec wid s of
        Inl e \<Rightarrow> Inl e
      | Inr s1 \<Rightarrow>
          (case workers_at s1 wid of
             Inl e \<Rightarrow> Inl e
           | Inr w \<Rightarrow>
               (case SetRegister reg_id v (worker w) of
                  Inl e \<Rightarrow> Inl e
                | Inr w' \<Rightarrow> Inr (s1\<lparr>workers := (workers s1)[nat wid := w\<lparr>worker := w'\<rparr>]\<rparr>))))"

text \<open>
  A command leaves a register alone when executing it changes neither the value stashed
  under that id nor the fact that the id is within the register file.
\<close>

definition leaves_register :: "('cmd \<Rightarrow> 'v DiscoWorker \<Rightarrow> 'v DiscoWorker) \<Rightarrow> int \<Rightarrow> 'cmd \<Rightarrow> bool" where
  "leaves_register exec reg_id c \<longleftrightarrow>
     (\<forall>w. reg_id < int (length (register_file w)) \<longrightarrow>
          reg_id < int (length (register_file (exec c w))) \<and>
          register_file (exec c w) ! nat reg_id = register_file w ! nat reg_id)"

text \<open>
  \<^verbatim>\<open>runtime.disco.socket_session_init_workers\<close> (\<^verbatim>\<open>socket_session.cc\<close>): the local worker of
  a node takes its global id. The four parameters and the fields of the worker are C++
  \<^verbatim>\<open>int\<close>s, and the sum and the two products are computed in 32 bits: a result out of
  range, undefined in C++, is taken as the two's complement arithmetic of the compiled
  code gives it.
\<close>

definition socket_session_init_workers ::
  "int \<Rightarrow> int \<Rightarrow> int \<Rightarrow> int \<Rightarrow> 'v DiscoWorker \<Rightarrow> 'v DiscoWorker" where
  "socket_session_init_workers n_nodes node_id n_groups num_workers_per_node w =
     w\<lparr>num_groups := n_groups,
       worker_id := sint ((word_of_int (worker_id w) :: int32)
                            + word_of_int node_id * word_of_int num_workers_per_node),
       num_workers := sint ((word_of_int n_nodes :: int32) * word_of_int num_workers_per_node)\<rparr>"

text \<open>
  Modelled from the spec: no code among the source files at hand computes the group
  of a worker. The spec: a group is a part of a partition of the workers, the number of
  groups divides the number of workers, and the ids of the topology follow
  \<^verbatim>\<open>worker_id / workers_per_node\<close>, the worker id divided by the number of workers of a
  unit. So a group is \<^verbatim>\<open>num_workers / num_groups\<close> workers of consecutive ids.
\<close>

definition workers_per_group :: "'v DiscoWorker \<Rightarrow> int" where
  "workers_per_group w = num_workers w sdiv num_groups w"

definition group_id :: "'v DiscoWorker \<Rightarrow> int" where
  "group_id w = worker_id w sdiv workers_per_group w"

text \<open>A series of \<^verbatim>\<open>SendPacked\<close> calls, each with its target worker.\<close>

fun SendPacked_all ::
  "(int \<times> 'cmd) list \<Rightarrow> ('v, 'cmd) ThreadedSessionObj \<Rightarrow> error + ('v, 'cmd) ThreadedSessionObj" where
  "SendPacked_all [] s = Inr s"
| "SendPacked_all ((wid, args) # sends) s =
     (case ThreadedSession_SendPacked wid args s of
        Inl e \<Rightarrow> Inl e
      | Inr s' \<Rightarrow> SendPacked_all sends s')"

text \<open>
  An instance for concrete inputs: values are numbers, a command \<open>(r, v)\<close> stores \<open>v\<close> in
  register \<open>r\<close>; three workers with four registers each, worker 2 with one command still
  queued that writes register 3.
\<close>

definition store_exec :: "int \<times> nat \<Rightarrow> nat DiscoWorker \<Rightarrow> nat DiscoWorker" where
  "store_exec c w = w\<lparr>register_file := (register_file w)[nat (fst c) := snd c]\<rparr>"

definition example_session :: "(nat, int \<times> nat) ThreadedSessionObj" where
  "example_session =
     \<lparr>workers =
        [\<lparr>worker = \<lparr>worker_id = 0, num_workers = 3, num_groups = 1, register_file = [0, 0, 0, 0]\<rparr>,
          queued = []\<rparr>,
         \<lparr>worker = \<lparr>worker_id = 1, num_workers = 3, num_groups = 1, register_file = [0, 0, 0, 0]\<rparr>,
          queued = []\<rparr>,
         \<lparr>worker = \<lparr>worker_id = 2, num_workers = 3, num_groups = 1, register_file = [0, 0, 0, 0]\<rparr>,
          queued = [(3, 9)]\<rparr>]\<rparr>"

section \<open>The socket session (\<^verbatim>\<open>socket_session.cc\<close>)\<close>

text \<open>
  The parameters of the protocol that are declared outside the source files at hand: the
  type indices, the channel's object codec, and the value of \<^verbatim>\<open>DiscoAction::kShutDown\<close>,
  from which \<^verbatim>\<open>enum class DiscoSocketAction\<close> counts on.
\<close>

record 'o DiscoProtocol =
  type_indices :: TypeIndex
  write_obj :: "int32 \<Rightarrow> 'o \<Rightarrow> error + byte list"
  obj_nbytes :: "int32 \<Rightarrow> 'o \<Rightarrow> error + uint64"
  read_obj :: "int32 \<Rightarrow> byte list \<Rightarrow> error + ('o TVMFFIAny \<times> byte list)"
  kShutDown :: int

definition DiscoSocketAction_kShutdown :: "'o DiscoProtocol \<Rightarrow> int" where
  "DiscoSocketAction_kShutdown P = kShutDown P"

definition DiscoSocketAction_kSend :: "'o DiscoProtocol \<Rightarrow> int" where
  "DiscoSocketAction_kSend P = kShutDown P + 1"

definition DiscoSocketAction_kReceive :: "'o DiscoProtocol \<Rightarrow> int" where
  "DiscoSocketAction_kReceive P = kShutDown P + 2"

text \<open>
  An \<^verbatim>\<open>int\<close> as argument value (\<^verbatim>\<open>PackedArgs::Fill\<close>, \<^verbatim>\<open>packed_args[i] = ...\<close>) and back
  (\<^verbatim>\<open>args[i].cast<int>()\<close>): the value is widened to the 64-bit member of the union, and
  narrowed to 32 bits again; a value that is neither Int nor Bool does not cast.
\<close>

definition Any_of_int :: "int \<Rightarrow> 'o TVMFFIAny" where
  "Any_of_int x = AnyInt (of_int x)"

fun cast_int :: "'o TVMFFIAny \<Rightarrow> error + int" where
  "cast_int (AnyInt v) = Inr (sint (ucast v :: int32))"
| "cast_int (AnyBool v) = Inr (sint (ucast v :: int32))"
| "cast_int v = Inl CheckFailed"

text \<open>
  Modelled from the spec: \<^verbatim>\<open>TCPSocket\<close> (\<^verbatim>\<open>support/socket.h\<close>) and
  \<^verbatim>\<open>DiscoStreamMessageQueue\<close> (\<^verbatim>\<open>message_queue.h\<close>) are outside the source files at hand.
  A socket is invalid (closed), listening, or the descriptor of one connection. Closing a
  closed socket is the double close the spec rules out: it is an error here. Of a
  connection the model keeps, for each direction, the packets written and not yet read.
  The spec on the socket-backed channel: the same packet framing travels over a
  connected stream socket, and ordering is guaranteed by the reliable stream. So \<open>Send\<close>
  adds the packet \<^verbatim>\<open>ReturnPackedSeq\<close> makes, and \<open>Recv\<close> takes the oldest packet, checks its
  length prefix and decodes its payload; while there is no packet it waits (\<open>None\<close>).
\<close>

datatype TCPSocket = INVALID_SOCKET | Listening | Connected nat

definition IsClosed :: "TCPSocket \<Rightarrow> bool" where
  "IsClosed sock \<longleftrightarrow> sock = INVALID_SOCKET"

definition Close :: "TCPSocket \<Rightarrow> error + TCPSocket" where
  "Close sock = (if IsClosed sock then Inl CheckFailed else Inr INVALID_SOCKET)"

record Connection =
  to_remote :: "byte list list"
  to_controller :: "byte list list"

definition stream_Send ::
  "'o DiscoProtocol \<Rightarrow> 'o TVMFFIAny list \<Rightarrow> byte list list \<Rightarrow> error + byte list list" where
  "stream_Send P args pkts =
     (case ReturnPackedSeq (StreamChannel (write_obj P) (obj_nbytes P)) (type_indices P) args [] of
        Inl (e, buf) \<Rightarrow> Inl e
      | Inr pkt \<Rightarrow> Inr (pkts @ [pkt]))"

definition stream_Recv ::
  "'o DiscoProtocol \<Rightarrow> byte list list \<Rightarrow> (error + ('o TVMFFIAny list \<times> byte list list)) option" where
  "stream_Recv P pkts =
     (case pkts of
        [] \<Rightarrow> None
      | pkt # rest \<Rightarrow>
          Some (case Read 8 pkt of
                  Inl e \<Rightarrow> Inl e
                | Inr (nbytes, body) \<Rightarrow>
                    if unat (le_word nbytes :: uint64) \<noteq> length body then Inl CheckFailed
                    else case Read 4 body of
                           Inl e \<Rightarrow> Inl e
                         | Inr (code_bytes, payload) \<Rightarrow>
                             (case RecvPackedSeq (type_indices P) (read_obj P) payload of
                                Inl e \<Rightarrow> Inl e
                              | Inr ((num_args, args), unread) \<Rightarrow> Inr (args, rest))))"

text \<open>
  \<^verbatim>\<open>DiscoSocketChannel\<close> holds a copy of the socket it was made from; \<^verbatim>\<open>Send\<close> and \<^verbatim>\<open>Reply\<close>
  write to the connection of that descriptor. \<open>net\<close> is the list of the connections, by
  descriptor. The controller writes \<open>to_remote\<close> and reads \<open>to_controller\<close>.
\<close>

definition channel_Send ::
  "'o DiscoProtocol \<Rightarrow> TCPSocket \<Rightarrow> 'o TVMFFIAny list \<Rightarrow> Connection list
     \<Rightarrow> error + Connection list" where
  "channel_Send P chan args net =
     (case chan of
        Connected fd \<Rightarrow>
          if fd < length net then
            (case stream_Send P args (to_remote (net ! fd)) of
               Inl e \<Rightarrow> Inl e
             | Inr pkts \<Rightarrow> Inr (net[fd := (net ! fd)\<lparr>to_remote := pkts\<rparr>]))
          else Inl CheckFailed
      | _ \<Rightarrow> Inl CheckFailed)"

definition channel_Recv ::
  "'o DiscoProtocol \<Rightarrow> TCPSocket \<Rightarrow> Connection list
     \<Rightarrow> (error + ('o TVMFFIAny list \<times> Connection list)) option" where
  "channel_Recv P chan net =
     (case chan of
        Connected fd \<Rightarrow>
          if fd < length net then
            (case stream_Recv P (to_controller (net ! fd)) of
               None \<Rightarrow> None
             | Some (Inl e) \<Rightarrow> Some (Inl e)
             | Some (Inr (args, pkts)) \<Rightarrow>
                 Some (Inr (args, net[fd := (net ! fd)\<lparr>to_controller := pkts\<rparr>])))
          else Some (Inl CheckFailed)
      | _ \<Rightarrow> Some (Inl CheckFailed))"

text \<open>
  The local session of a node is a \<^verbatim>\<open>BcastSession\<close> made by a global function outside the
  source files at hand: its operations, on a state \<open>'ls\<close>, are a parameter.
\<close>

record ('o, 'ls) BcastSession =
  BroadcastPacked :: "'o TVMFFIAny list \<Rightarrow> 'ls \<Rightarrow> error + 'ls"
  SendPacked :: "int \<Rightarrow> 'o TVMFFIAny list \<Rightarrow> 'ls \<Rightarrow> error + 'ls"
  RecvReplyPacked :: "int \<Rightarrow> 'ls \<Rightarrow> error + ('o TVMFFIAny list \<times> 'ls)"
  Shutdown :: "'ls \<Rightarrow> 'ls"

text \<open>
  The fields of \<^verbatim>\<open>SocketSessionObj\<close>. A remote channel is the socket copy it holds. \<open>network\<close>
  is no field of the class: it is the state of the connections that the descriptors
  stand for, which outlives the descriptors.
\<close>

record 'ls SocketSessionObj =
  num_nodes :: int
  num_workers_per_node :: int
  socket :: TCPSocket
  remote_sockets :: "TCPSocket list"
  remote_channels :: "TCPSocket list"
  local_session :: 'ls
  network :: "Connection list"

text \<open>
  The loop of the constructor, \<^verbatim>\<open>for (int i = 0; i + 1 < num_nodes; ++i)\<close>, from \<open>i\<close> on
  with \<open>k\<close> turns to go: \<^verbatim>\<open>Accept\<close> gives the descriptor of a new connection, a channel is
  made of it, and the metadata are sent through the channel.
\<close>

fun accept_nodes ::
  "'o DiscoProtocol \<Rightarrow> int \<Rightarrow> int \<Rightarrow> int \<Rightarrow> nat \<Rightarrow> int \<Rightarrow> 'ls SocketSessionObj
     \<Rightarrow> error + 'ls SocketSessionObj" where
  "accept_nodes P n_nodes n_workers_per_node n_groups 0 i s = Inr s"
| "accept_nodes P n_nodes n_workers_per_node n_groups (Suc k) i s =
     (let sock = Connected (length (network s));
          s1 = s\<lparr>remote_sockets := remote_sockets s @ [sock],
                 remote_channels := remote_channels s @ [sock],
                 network := network s @ [\<lparr>to_remote = [], to_controller = []\<rparr>]\<rparr>;
          packed_args = [Any_of_int n_nodes, Any_of_int n_workers_per_node, Any_of_int n_groups,
                         Any_of_int (i + 1)]
      in case channel_Send P (last (remote_channels s1)) packed_args (network s1) of
           Inl e \<Rightarrow> Inl e
         | Inr net' \<Rightarrow>
             accept_nodes P n_nodes n_workers_per_node n_groups k (i + 1) (s1\<lparr>network := net'\<rparr>))"

text \<open>
  The constructor of \<^verbatim>\<open>SocketSessionObj\<close>; \<open>ls\<close> is the local session as the global
  functions set it up.
\<close>

definition new_SocketSessionObj ::
  "'o DiscoProtocol \<Rightarrow> int \<Rightarrow> int \<Rightarrow> int \<Rightarrow> 'ls \<Rightarrow> error + 'ls SocketSessionObj" where
  "new_SocketSessionObj P n_nodes n_workers_per_node n_groups ls =
     accept_nodes P n_nodes n_workers_per_node n_groups (nat (n_nodes - 1)) 0
       \<lparr>num_nodes = n_nodes, num_workers_per_node = n_workers_per_node, socket = Listening,
        remote_sockets = [], remote_channels = [], local_session = ls, network = []\<rparr>"

text \<open>
  \<^verbatim>\<open>remote_channels_[node_id - 1]\<close>: the index is not checked, out of range the access is
  undefined.
\<close>

definition remote_channel :: "'ls SocketSessionObj \<Rightarrow> int \<Rightarrow> error + TCPSocket" where
  "remote_channel s idx =
     (if 0 \<le> idx \<and> idx < int (length (remote_channels s)) then Inr (remote_channels s ! nat idx)
      else Inl Undefined)"

definition SocketSession_SendPacked ::
  "'o DiscoProtocol \<Rightarrow> ('o, 'ls) BcastSession \<Rightarrow> int \<Rightarrow> 'o TVMFFIAny list \<Rightarrow> 'ls SocketSessionObj
     \<Rightarrow> error + 'ls SocketSessionObj" where
  "SocketSession_SendPacked P L wid args s =
     (if num_workers_per_node s = 0 then Inl Undefined
      else
        let node_id = wid sdiv num_workers_per_node s in
        if node_id = 0 then
          (case SendPacked L wid args (local_session s) of
             Inl e \<Rightarrow> Inl e
           | Inr ls \<Rightarrow> Inr (s\<lparr>local_session := ls\<rparr>))
        else
          let packed_args = [Any_of_int (DiscoSocketAction_kSend P), Any_of_int wid] @ args in
          case remote_channel s (node_id - 1) of
            Inl e \<Rightarrow> Inl e
          | Inr chan \<Rightarrow>
              (case channel_Send P chan packed_args (network s) of
                 Inl e \<Rightarrow> Inl e
               | Inr net' \<Rightarrow> Inr (s\<lparr>network := net'\<rparr>)))"

text \<open>
  The loops over all remote channels (\<^verbatim>\<open>BroadcastPacked\<close>, \<^verbatim>\<open>Shutdown\<close>) and over all remote
  sockets (\<^verbatim>\<open>Shutdown\<close>).
\<close>

fun send_all ::
  "'o DiscoProtocol \<Rightarrow> 'o TVMFFIAny list \<Rightarrow> TCPSocket list \<Rightarrow> Connection list
     \<Rightarrow> error + Connection list" where
  "send_all P args [] net = Inr net"
| "send_all P args (chan # chans) net =
     (case channel_Send P chan args net of
        Inl e \<Rightarrow> Inl e
      | Inr net' \<Rightarrow> send_all P args chans net')"

fun close_all :: "TCPSocket list \<Rightarrow> error + TCPSocket list" where
  "close_all [] = Inr []"
| "close_all (sock # socks) =
     (case Close sock of
        Inl e \<Rightarrow> Inl e
      | Inr sock' \<Rightarrow>
          (case close_all socks of
             Inl e \<Rightarrow> Inl e
           | Inr socks' \<Rightarrow> Inr (sock' # socks')))"

definition SocketSession_BroadcastPacked ::
  "'o DiscoProtocol \<Rightarrow> ('o, 'ls) BcastSession \<Rightarrow> 'o TVMFFIAny list \<Rightarrow> 'ls SocketSessionObj
     \<Rightarrow> error + 'ls SocketSessionObj" where
  "SocketSession_BroadcastPacked P L args s =
     (case BroadcastPacked L args (local_session s) of
        Inl e \<Rightarrow> Inl e
      | Inr ls \<Rightarrow>
          (let packed_args = [Any_of_int (DiscoSocketAction_kSend P), Any_of_int (- 1)] @ args in
           case send_all P packed_args (remote_channels s) (network s) of
             Inl e \<Rightarrow> Inl e
           | Inr net' \<Rightarrow> Inr (s\<lparr>local_session := ls, network := net'\<rparr>)))"

text \<open>
  \<^verbatim>\<open>RecvReplyPacked\<close> in its two halves: for a remote worker the request that is sent, and
  the \<^verbatim>\<open>Recv\<close> that waits for the reply of the node; for a worker of node 0 the first
  half does nothing and the second asks the local session.
\<close>

definition SocketSession_RecvReplyPacked_send ::
  "'o DiscoProtocol \<Rightarrow> int \<Rightarrow> 'ls SocketSessionObj \<Rightarrow> error + 'ls SocketSessionObj" where
  "SocketSession_RecvReplyPacked_send P wid s =
     (if num_workers_per_node s = 0 then Inl Undefined
      else
        let node_id = wid sdiv num_workers_per_node s in
        if node_id = 0 then Inr s
        else
          let packed_args = [Any_of_int (DiscoSocketAction_kReceive P), Any_of_int wid] in
          case remote_channel s (node_id - 1) of
            Inl e \<Rightarrow> Inl e
          | Inr chan \<Rightarrow>
              (case channel_Send P chan packed_args (network s) of
                 Inl e \<Rightarrow> Inl e
               | Inr net' \<Rightarrow> Inr (s\<lparr>network := net'\<rparr>)))"

definition SocketSession_RecvReplyPacked_recv ::
  "'o DiscoProtocol \<Rightarrow> ('o, 'ls) BcastSession \<Rightarrow> int \<Rightarrow> 'ls SocketSessionObj
     \<Rightarrow> (error + ('o TVMFFIAny list \<times> 'ls SocketSessionObj)) option" where
  "SocketSession_RecvReplyPacked_recv P L wid s =
     (if num_workers_per_node s = 0 then Some (Inl Undefined)
      else
        let node_id = wid sdiv num_workers_per_node s in
        if node_id = 0 then
          Some (case RecvReplyPacked L wid (local_session s) of
                  Inl e \<Rightarrow> Inl e
                | Inr (reply, ls) \<Rightarrow> Inr (reply, s\<lparr>local_session := ls\<rparr>))
        else
          case remote_channel s (node_id - 1) of
            Inl e \<Rightarrow> Some (Inl e)
          | Inr chan \<Rightarrow>
              (case channel_Recv P chan (network s) of
                 None \<Rightarrow> None
               | Some (Inl e) \<Rightarrow> Some (Inl e)
               | Some (Inr (reply, net')) \<Rightarrow> Some (Inr (reply, s\<lparr>network := net'\<rparr>))))"

text \<open>
  \<^verbatim>\<open>Shutdown\<close>, which the destructor calls as well. \<^verbatim>\<open>Socket::Finalize\<close> has no state in the
  model.
\<close>

definition SocketSession_Shutdown ::
  "'o DiscoProtocol \<Rightarrow> 'ls SocketSessionObj \<Rightarrow> error + 'ls SocketSessionObj" where
  "SocketSession_Shutdown P s =
     (let packed_args = [Any_of_int (DiscoSocketAction_kShutdown P), Any_of_int (- 1)] in
      case send_all P packed_args (remote_channels s) (network s) of
        Inl e \<Rightarrow> Inl e
      | Inr net' \<Rightarrow>
          (case close_all (remote_sockets s) of
             Inl e \<Rightarrow> Inl e
           | Inr closed \<Rightarrow>
               (let s1 = s\<lparr>network := net', remote_sockets := [], remote_channels := []\<rparr> in
                if \<not> IsClosed (socket s1) then
                  (case Close (socket s1) of
                     Inl e \<Rightarrow> Inl e
                   | Inr sock \<Rightarrow> Inr (s1\<lparr>socket := sock\<rparr>))
                else Inr s1)))"

text \<open>
  \<^verbatim>\<open>RemoteSocketSession\<close>, the relay of a node. Its constructor reads the metadata from
  the channel; \<open>ls\<close> is the local session that \<^verbatim>\<open>InitLocalSession\<close> sets up.
\<close>

record 'ls RemoteSocketSession =
  relay_local_session :: 'ls
  relay_num_nodes :: int
  relay_node_id :: int
  relay_num_groups :: int
  relay_num_workers_per_node :: int

definition new_RemoteSocketSession ::
  "'o DiscoProtocol \<Rightarrow> int \<Rightarrow> 'ls \<Rightarrow> byte list list
     \<Rightarrow> (error + ('ls RemoteSocketSession \<times> byte list list)) option" where
  "new_RemoteSocketSession P num_local_workers ls inbox =
     (case stream_Recv P inbox of
        None \<Rightarrow> None
      | Some (Inl e) \<Rightarrow> Some (Inl e)
      | Some (Inr (metadata, inbox')) \<Rightarrow>
          Some (if length metadata \<noteq> 4 then Inl CheckFailed
                else case cast_int (metadata ! 0) of Inl e \<Rightarrow> Inl e | Inr nn \<Rightarrow>
                     case cast_int (metadata ! 1) of Inl e \<Rightarrow> Inl e | Inr wpn \<Rightarrow>
                     case cast_int (metadata ! 2) of Inl e \<Rightarrow> Inl e | Inr ng \<Rightarrow>
                     case cast_int (metadata ! 3) of Inl e \<Rightarrow> Inl e | Inr nid \<Rightarrow>
                     if \<not> wpn \<le> num_local_workers then Inl CheckFailed
                     else Inr (\<lparr>relay_local_session = ls, relay_num_nodes = nn, relay_node_id = nid,
                                relay_num_groups = ng, relay_num_workers_per_node = wpn\<rparr>, inbox')))"

text \<open>
  \<^verbatim>\<open>MainLoop\<close>, on the packets that have arrived (\<open>inbox\<close>) and those written for the
  controller (\<open>outbox\<close>). Each turn reads one packet. The loop is left by the shutdown
  action; with no packet left the relay waits in \<^verbatim>\<open>Recv\<close>. \<^verbatim>\<open>args[0]\<close> and \<^verbatim>\<open>args[1]\<close> are
  not checked against the number of arguments.
\<close>

datatype loop_state = Waiting | Returned

fun MainLoop ::
  "'o DiscoProtocol \<Rightarrow> ('o, 'ls) BcastSession \<Rightarrow> byte list list
     \<Rightarrow> 'ls RemoteSocketSession \<Rightarrow> byte list list
     \<Rightarrow> error + (loop_state \<times> 'ls RemoteSocketSession \<times> byte list list \<times> byte list list)" where
  "MainLoop P L [] r outbox = Inr (Waiting, r, [], outbox)"
| "MainLoop P L (pkt # inbox) r outbox =
     (case stream_Recv P [pkt] of
        None \<Rightarrow> Inl Undefined
      | Some (Inl e) \<Rightarrow> Inl e
      | Some (Inr (args, unused)) \<Rightarrow>
          if length args < 2 then Inl Undefined
          else case cast_int (args ! 0) of Inl e \<Rightarrow> Inl e | Inr action \<Rightarrow>
               case cast_int (args ! 1) of Inl e \<Rightarrow> Inl e | Inr wid \<Rightarrow>
               let local_worker_id = wid - relay_node_id r * relay_num_workers_per_node r in
               if action = DiscoSocketAction_kSend P then
                 (case (if wid = - 1 then BroadcastPacked L (drop 2 args) (relay_local_session r)
                        else SendPacked L local_worker_id (drop 2 args) (relay_local_session r)) of
                    Inl e \<Rightarrow> Inl e
                  | Inr ls \<Rightarrow> MainLoop P L inbox (r\<lparr>relay_local_session := ls\<rparr>) outbox)
               else if action = DiscoSocketAction_kReceive P then
                 (case RecvReplyPacked L local_worker_id (relay_local_session r) of
                    Inl e \<Rightarrow> Inl e
                  | Inr (reply, ls) \<Rightarrow>
                      (case stream_Send P reply outbox of
                         Inl e \<Rightarrow> Inl e
                       | Inr outbox' \<Rightarrow>
                           MainLoop P L inbox (r\<lparr>relay_local_session := ls\<rparr>) outbox'))
               else if action = DiscoSocketAction_kShutdown P then
                 Inr (Returned, r\<lparr>relay_local_session := Shutdown L (relay_local_session r)\<rparr>,
                      inbox, outbox)
               else Inl CheckFailed)"

text \<open>
  A call to a worker of a remote node, as the two processes carry it out:
  \<^verbatim>\<open>SendPacked\<close> and the request of \<^verbatim>\<open>RecvReplyPacked\<close> on the controller, the relay of the
  node working off its channel, and the \<^verbatim>\<open>Recv\<close> of the controller taking the reply.
\<close>

definition remote_call ::
  "'o DiscoProtocol \<Rightarrow> ('o, 'ls) BcastSession \<Rightarrow> int \<Rightarrow> 'o TVMFFIAny list
     \<Rightarrow> 'ls SocketSessionObj \<Rightarrow> 'ls RemoteSocketSession
     \<Rightarrow> (error + ('o TVMFFIAny list \<times> 'ls SocketSessionObj \<times> 'ls RemoteSocketSession)) option" where
  "remote_call P L wid args s r =
     (case SocketSession_SendPacked P L wid args s of
        Inl e \<Rightarrow> Some (Inl e)
      | Inr s1 \<Rightarrow>
          (case SocketSession_RecvReplyPacked_send P wid s1 of
             Inl e \<Rightarrow> Some (Inl e)
           | Inr s2 \<Rightarrow>
               (case remote_channel s2 (wid sdiv num_workers_per_node s2 - 1) of
                  Inr (Connected fd) \<Rightarrow>
                    (let conn = network s2 ! fd
                     in case MainLoop P L (to_remote conn) r (to_controller conn) of
                          Inl e \<Rightarrow> Some (Inl e)
                        | Inr (st, r', inbox, outbox) \<Rightarrow>
                            (let s3 = s2\<lparr>network := (network s2)[fd := \<lparr>to_remote = inbox,
                                                                         to_controller = outbox\<rparr>]\<rparr>
                             in case SocketSession_RecvReplyPacked_recv P L wid s3 of
                                  None \<Rightarrow> None
                                | Some (Inl e) \<Rightarrow> Some (Inl e)
                                | Some (Inr (reply, s4)) \<Rightarrow> Some (Inr (reply, s4, r'))))
                | _ \<Rightarrow> Some (Inl Undefined))))"

text \<open>
  The packet of the metadata that the controller sends to a node: a packed sequence of
  four Int values.
\<close>

definition metadata_packet :: "'o DiscoProtocol \<Rightarrow> int \<Rightarrow> int \<Rightarrow> int \<Rightarrow> int \<Rightarrow> byte list" where
  "metadata_packet P n_nodes n_workers_per_node n_groups nid =
     packet kReturn
       (bytes_i32 4 @
        concat (map (\<lambda>x. bytes_i32 (kTVMFFIInt (type_indices P)) @ bytes_u64 (of_int x))
                  [n_nodes, n_workers_per_node, n_groups, nid]))"

text \<open>
  The wire format of the claim as it is written: the four numbers as native-endian
  integers and nothing else, 32 or 64 bits wide.
\<close>

definition four_integers_32 :: "int \<Rightarrow> int \<Rightarrow> int \<Rightarrow> int \<Rightarrow> byte list" where
  "four_integers_32 n_nodes n_workers_per_node n_groups nid =
     concat (map (\<lambda>x. bytes_i32 (of_int x)) [n_nodes, n_workers_per_node, n_groups, nid])"

definition four_integers_64 :: "int \<Rightarrow> int \<Rightarrow> int \<Rightarrow> int \<Rightarrow> byte list" where
  "four_integers_64 n_nodes n_workers_per_node n_groups nid =
     concat (map (\<lambda>x. bytes_u64 (of_int x)) [n_nodes, n_workers_per_node, n_groups, nid])"

text \<open>A protocol for concrete inputs: no object codec, \<^verbatim>\<open>kShutDown\<close> is 0.\<close>

definition example_protocol :: "unit DiscoProtocol" where
  "example_protocol =
     \<lparr>type_indices = ffi_TypeIndex, write_obj = no_wr, obj_nbytes = no_nb, read_obj = no_rd,
      kShutDown = 0\<rparr>"

text \<open>
  A local session for concrete inputs: every worker replies with the arguments it was
  sent (the echo command of the spec); the state is the list of the replies not yet
  fetched, each with its worker.
\<close>

fun fetch_reply ::
  "int \<Rightarrow> (int \<times> 'a) list \<Rightarrow> error + ('a \<times> (int \<times> 'a) list)" where
  "fetch_reply wid [] = Inl CheckFailed"
| "fetch_reply wid ((w, a) # replies) =
     (if w = wid then Inr (a, replies)
      else case fetch_reply wid replies of
             Inl e \<Rightarrow> Inl e
           | Inr (b, replies') \<Rightarrow> Inr (b, (w, a) # replies'))"

definition echo_session :: "(unit, (int \<times> unit TVMFFIAny list) list) BcastSession" where
  "echo_session =
     \<lparr>BroadcastPacked = (\<lambda>args replies. Inr replies),
      SendPacked = (\<lambda>wid args replies. Inr (replies @ [(wid, args)])),
      RecvReplyPacked = fetch_reply,
      Shutdown = (\<lambda>replies. [])\<rparr>"

definition example_controller :: "(int \<times> unit TVMFFIAny list) list SocketSessionObj" where
  "example_controller =
     \<lparr>num_nodes = 2, num_workers_per_node = 2, socket = Listening,
      remote_sockets = [Connected 0], remote_channels = [Connected 0], local_session = [],
      network = [\<lparr>to_remote = [], to_controller = []\<rparr>]\<rparr>"

definition example_relay :: "(int \<times> unit TVMFFIAny list) list RemoteSocketSession" where
  "example_relay =
     \<lparr>relay_local_session = [], relay_num_nodes = 2, relay_node_id = 1, relay_num_groups = 1,
      relay_num_workers_per_node = 2\<rparr>"

section \<open>Auxiliary notions for the proofs\<close>

text \<open>The result of writing to a stream channel whose buffer already holds \<open>buf\<close>.\<close>

definition app_res :: "byte list \<Rightarrow> (error \<times> byte list) + byte list \<Rightarrow> (error \<times> byte list) + byte list" where
  "app_res buf r = (case r of Inl (e, b) \<Rightarrow> Inl (e, buf @ b) | Inr b \<Rightarrow> Inr (buf @ b))"

section \<open>Lemmas on the codec\<close>

lemma length_le_bytes [simp]: "length (le_bytes n w) = n"
  by (induction n arbitrary: w) simp_all

lemma le_word_le_bytes_take_bit:
  "le_word (le_bytes n w) = take_bit (8 * n) (w :: 'a::len word)"
proof (induction n arbitrary: w)
  case 0
  show ?case by simp
next
  case (Suc n)
  show ?case
    apply (simp add: Suc)
    apply (rule bit_word_eqI)
    apply (auto simp add: bit_simps)
    done
qed

lemma le_word_le_bytes:
  "LENGTH('a) \<le> 8 * n \<Longrightarrow> le_word (le_bytes n w) = (w :: 'a::len word)"
  by (simp add: le_word_le_bytes_take_bit take_bit_word_eq_self)

lemma length_bytes_i32 [simp]: "length (bytes_i32 w) = 4"
  by (simp add: bytes_i32_def)

lemma length_bytes_u64 [simp]: "length (bytes_u64 w) = 8"
  by (simp add: bytes_u64_def)

lemma le_word_bytes_i32 [simp]: "le_word (bytes_i32 w) = w"
  by (simp add: bytes_i32_def le_word_le_bytes)

lemma le_word_bytes_u64 [simp]: "le_word (bytes_u64 w) = w"
  by (simp add: bytes_u64_def le_word_le_bytes)

lemma length_bytes_DLDevice [simp]: "length (bytes_DLDevice d) = 8"
  by (simp add: bytes_DLDevice_def)

lemma length_bytes_DLDataType [simp]: "length (bytes_DLDataType t) = 4"
  by (simp add: bytes_DLDataType_def)

lemma DLDevice_of_bytes_inverse [simp]: "DLDevice_of_bytes (bytes_DLDevice d) = d"
  by (simp add: DLDevice_of_bytes_def bytes_DLDevice_def le_word_le_bytes)

lemma DLDataType_of_bytes_inverse [simp]: "DLDataType_of_bytes (bytes_DLDataType t) = t"
  by (simp add: DLDataType_of_bytes_def bytes_DLDataType_def le_word_le_bytes)

lemma Read_append [simp]: "length bs = n \<Longrightarrow> Read n (bs @ rest) = Inr (bs, rest)"
  by (simp add: Read_def)

lemma Read_exact [simp]: "length bs = n \<Longrightarrow> Read n bs = Inr (bs, [])"
  by (simp add: Read_def)

lemma ReadArray_i64_bytes [simp]:
  "ReadArray_i64 (length xs) (bytes_i64_array xs @ rest) = Inr (xs, rest)"
  by (induction xs) (simp_all add: bytes_i64_array_def)

lemma StrLength_c_string: "0 \<notin> set s \<Longrightarrow> StrLength (s @ [0]) = of_nat (length s)"
  by (induction s) auto

lemma c_str_c_string: "0 \<notin> set s \<Longrightarrow> c_str (s @ [0]) = s"
  by (induction s) (auto simp: c_str_def)

lemma unat_of_nat_len64: "n < 2 ^ 64 \<Longrightarrow> unat (of_nat n :: 64 word) = n"
  by (simp add: unat_of_nat take_bit_nat_eq_self)

lemma ReceiveDLTensor_SendDLTensor:
  assumes "strides arr = None" "0 \<le> sint (ndim arr)" "length (shape arr) = nat (sint (ndim arr))"
  shows "\<exists>bs. SendDLTensor (StreamChannel wr nb) arr buf = Inr (buf @ bs) \<and>
           (\<forall>rest. ReceiveDLTensor (bs @ rest) = Inr (arr, rest))"
proof -
  have "ReadArray_i64 (length (shape arr)) (bytes_i64_array (shape arr) @ r) = Inr (shape arr, r)" for r
    by simp
  then have rd: "ReadArray_i64 (nat (sint (ndim arr))) (bytes_i64_array (shape arr) @ r) = Inr (shape arr, r)" for r
    using assms(3) by simp
  show ?thesis
    apply (rule exI [where x = "bytes_u64 (data arr) @ bytes_DLDevice (device arr) @ bytes_i32 (ndim arr)
       @ bytes_DLDataType (dtype arr) @ bytes_i64_array (shape arr) @ bytes_u64 (byte_offset arr)"])
    using assms
    apply (simp add: SendDLTensor_def StreamChannel_def ReceiveDLTensor_def rd)
    done
qed

lemma RecvPackedArg_label:
  assumes "distinct (case_labels ti)"
  shows
    "RecvPackedArg ti rd (kTVMFFINone ti) s =
       Inr (AnyNone, s)"
    "RecvPackedArg ti rd (kTVMFFIBool ti) s =
       (case Read 8 s of Inl e \<Rightarrow> Inl e | Inr (bs, s') \<Rightarrow> Inr (AnyBool (le_word bs), s'))"
    "RecvPackedArg ti rd (kTVMFFIInt ti) s =
       (case Read 8 s of Inl e \<Rightarrow> Inl e | Inr (bs, s') \<Rightarrow> Inr (AnyInt (le_word bs), s'))"
    "RecvPackedArg ti rd (kTVMFFIFloat ti) s =
       (case Read 8 s of Inl e \<Rightarrow> Inl e | Inr (bs, s') \<Rightarrow> Inr (AnyFloat (le_word bs), s'))"
    "RecvPackedArg ti rd (kTVMFFIOpaquePtr ti) s =
       (case Read 8 s of Inl e \<Rightarrow> Inl e | Inr (bs, s') \<Rightarrow> Inr (AnyOpaquePtr (le_word bs), s'))"
    "RecvPackedArg ti rd (kTVMFFIDataType ti) s =
       (case Read 4 s of Inl e \<Rightarrow> Inl e | Inr (bs, s') \<Rightarrow>
         case Read 4 s' of Inl e \<Rightarrow> Inl e | Inr (padding, s'') \<Rightarrow>
           Inr (AnyDataType (DLDataType_of_bytes bs), s''))"
    "RecvPackedArg ti rd (kTVMFFIDevice ti) s =
       (case Read 8 s of Inl e \<Rightarrow> Inl e | Inr (bs, s') \<Rightarrow>
           Inr (AnyDevice (DLDevice_of_bytes bs), s'))"
    "RecvPackedArg ti rd (kTVMFFIFunction ti) s =
       (case Read 8 s of Inl e \<Rightarrow> Inl e | Inr (bs, s') \<Rightarrow> Inr (AnyFunction (le_word bs), s'))"
    "RecvPackedArg ti rd (kTVMFFIModule ti) s =
       (case Read 8 s of Inl e \<Rightarrow> Inl e | Inr (bs, s') \<Rightarrow> Inr (AnyModule (le_word bs), s'))"
    "RecvPackedArg ti rd (kTVMFFIRawStr ti) s =
       (case Read 8 s of Inl e \<Rightarrow> Inl e | Inr (lb, s') \<Rightarrow>
         case Read (unat (le_word lb :: uint64)) s' of Inl e \<Rightarrow> Inl e | Inr (str, s'') \<Rightarrow>
           Inr (AnyRawStr (c_str (str @ [0])), s''))"
    "RecvPackedArg ti rd (kTVMFFIByteArrayPtr ti) s =
       (case Read 8 s of Inl e \<Rightarrow> Inl e | Inr (lb, s') \<Rightarrow>
         case Read (unat (le_word lb :: uint64)) s' of Inl e \<Rightarrow> Inl e | Inr (bs, s'') \<Rightarrow>
           Inr (AnyByteArrayPtr bs, s''))"
    "RecvPackedArg ti rd (kTVMFFIDLTensorPtr ti) s =
       (case ReceiveDLTensor s of Inl e \<Rightarrow> Inl e | Inr (arr, s') \<Rightarrow>
           Inr (AnyDLTensorPtr arr, s'))"
  using assms by (simp_all add: case_labels_def RecvPackedArg_def)

lemma RecvPackedArg_SendPackedArg:
  assumes "distinct (case_labels ti)" "representable cm v"
  shows "\<exists>pl. SendPackedArg (StreamChannel wr nb) ti cm v buf = Inr (buf @ bytes_i32 (type_index ti v) @ pl) \<and>
           (\<forall>rest. RecvPackedArg ti rd (type_index ti v) (pl @ rest) = Inr (v, rest))"
proof (cases v)
  case (AnyDLTensorPtr arr)
  with assms(2) obtain bs where bs: "SendDLTensor (StreamChannel wr nb) arr (buf @ bytes_i32 (kTVMFFIDLTensorPtr ti)) = Inr ((buf @ bytes_i32 (kTVMFFIDLTensorPtr ti)) @ bs)"
     "\<And>rest. ReceiveDLTensor (bs @ rest) = Inr (arr, rest)"
    using ReceiveDLTensor_SendDLTensor [of arr wr nb "buf @ bytes_i32 (kTVMFFIDLTensorPtr ti)"] by auto
  have "Write (StreamChannel wr nb) (bytes_i32 (kTVMFFIDLTensorPtr ti)) buf = buf @ bytes_i32 (kTVMFFIDLTensorPtr ti)"
    by (simp add: StreamChannel_def)
  with bs assms(1) show ?thesis
    unfolding AnyDLTensorPtr by (simp add: RecvPackedArg_label)
next
  case (AnyRawStr s)
  with assms show ?thesis
    by (simp add: RecvPackedArg_label StreamChannel_def StrLength_c_string
         c_str_c_string unat_of_nat_len64)
next
  case (AnyByteArrayPtr bs)
  with assms show ?thesis
    by (simp add: RecvPackedArg_label StreamChannel_def unat_of_nat_len64)
qed (use assms in \<open>simp_all add: RecvPackedArg_label StreamChannel_def\<close>)

lemma RecvPackedArgs_SendPackedArgs:
  assumes "distinct (case_labels ti)" "list_all (representable cm) xs"
  shows "\<exists>bs. SendPackedArgs (StreamChannel wr nb) ti cm xs buf = Inr (buf @ bs) \<and>
           (\<forall>rest. RecvPackedArgs ti rd (length xs) (bs @ rest) = Inr (xs, rest))"
  using assms(2)
proof (induction xs arbitrary: buf)
  case Nil
  show ?case by simp
next
  case (Cons v xs)
  from Cons.prems have v: "representable cm v" and xs: "list_all (representable cm) xs"
    by simp_all
  obtain pl where pl:
    "SendPackedArg (StreamChannel wr nb) ti cm v buf = Inr (buf @ bytes_i32 (type_index ti v) @ pl)"
    "\<And>rest. RecvPackedArg ti rd (type_index ti v) (pl @ rest) = Inr (v, rest)"
    using RecvPackedArg_SendPackedArg [OF assms(1) v] by blast
  obtain bs where bs:
    "SendPackedArgs (StreamChannel wr nb) ti cm xs (buf @ bytes_i32 (type_index ti v) @ pl)
       = Inr ((buf @ bytes_i32 (type_index ti v) @ pl) @ bs)"
    "\<And>rest. RecvPackedArgs ti rd (length xs) (bs @ rest) = Inr (xs, rest)"
    using Cons.IH [OF xs] by blast
  show ?case
    apply (rule exI [where x = "bytes_i32 (type_index ti v) @ pl @ bs"])
    using pl bs by (simp del: SendPackedArg.simps)
qed


lemma sint_of_nat_len31: "n < 2 ^ 31 \<Longrightarrow> sint (of_nat n :: 32 word) = int n"
  by (simp add: signed_of_nat signed_take_bit_int_eq_self)

lemma app_res_simps [simp]:
  "app_res buf (Inl (e, b)) = Inl (e, buf @ b)"
  "app_res buf (Inr b) = Inr (buf @ b)"
  by (simp_all add: app_res_def)

lemma app_res_app_res: "app_res a (app_res b r) = app_res (a @ b) r"
  by (cases r) (auto simp: app_res_def)

lemma SendDLTensor_StreamChannel_append:
  "SendDLTensor (StreamChannel wr nb) arr buf
     = app_res buf (SendDLTensor (StreamChannel wr nb) arr [])"
  by (simp add: SendDLTensor_def StreamChannel_def Let_def)

lemma SendPackedArg_StreamChannel_append:
  "SendPackedArg (StreamChannel wr nb) ti cm v buf
     = app_res buf (SendPackedArg (StreamChannel wr nb) ti cm v [])"
proof (cases v)
  case (AnyDLTensorPtr arr)
  have w: "Write (StreamChannel wr nb) bs b = b @ bs" for bs b
    by (simp add: StreamChannel_def)
  show ?thesis
    unfolding AnyDLTensorPtr
    apply (simp add: w)
    apply (subst SendDLTensor_StreamChannel_append)
    apply (subst (2) SendDLTensor_StreamChannel_append)
    apply (simp add: app_res_app_res)
    done
next
  case (AnyOther t obj)
  then show ?thesis
    by (simp add: StreamChannel_def Let_def split: sum.splits)
qed (simp_all add: StreamChannel_def Let_def)

lemma SendPackedArgs_StreamChannel_append:
  "SendPackedArgs (StreamChannel wr nb) ti cm xs buf
     = app_res buf (SendPackedArgs (StreamChannel wr nb) ti cm xs [])"
proof (induction xs arbitrary: buf)
  case Nil
  show ?case by simp
next
  case (Cons v xs)
  show ?case
  proof (cases "SendPackedArg (StreamChannel wr nb) ti cm v []")
    case (Inl eb)
    then show ?thesis
      using SendPackedArg_StreamChannel_append [of wr nb ti cm v buf]
      by (cases eb) (simp del: SendPackedArg.simps)
  next
    case (Inr b)
    then show ?thesis
      using SendPackedArg_StreamChannel_append [of wr nb ti cm v buf]
        Cons.IH [of "buf @ b"] Cons.IH [of b]
      by (simp del: SendPackedArg.simps add: app_res_app_res)
  qed
qed

lemma SendPackedSeq_StreamChannel_append:
  "SendPackedSeq (StreamChannel wr nb) ti xs cm buf
     = app_res buf (SendPackedSeq (StreamChannel wr nb) ti xs cm [])"
proof -
  have w: "Write (StreamChannel wr nb) bs b = b @ bs" for bs b
    by (simp add: StreamChannel_def)
  show ?thesis
    unfolding SendPackedSeq_def w
    apply (subst SendPackedArgs_StreamChannel_append)
    apply (subst (2) SendPackedArgs_StreamChannel_append)
    apply (simp add: app_res_app_res)
    done
qed

lemma RecvPackedArgs_prefix:
  assumes "distinct (case_labels ti)" "list_all (representable cm) xs"
    and "SendPackedArgs (StreamChannel wr nb) ti cm xs [] = Inr bs"
  shows "RecvPackedArgs ti rd (length xs + m) (bs @ rest) =
           (case RecvPackedArgs ti rd m rest of
              Inl e \<Rightarrow> Inl e
            | Inr (ys, s) \<Rightarrow> Inr (xs @ ys, s))"
  using assms(2,3)
proof (induction xs arbitrary: bs)
  case Nil
  then show ?case by (simp split: sum.splits)
next
  case (Cons v xs)
  from Cons.prems have v: "representable cm v" and xs: "list_all (representable cm) xs"
    by simp_all
  obtain pl where pl:
    "SendPackedArg (StreamChannel wr nb) ti cm v [] = Inr ([] @ bytes_i32 (type_index ti v) @ pl)"
    "\<And>rest. RecvPackedArg ti rd (type_index ti v) (pl @ rest) = Inr (v, rest)"
    using RecvPackedArg_SendPackedArg [OF assms(1) v] by blast
  from Cons.prems(2) pl(1) have
    "SendPackedArgs (StreamChannel wr nb) ti cm xs (bytes_i32 (type_index ti v) @ pl) = Inr bs"
    by (simp del: SendPackedArg.simps)
  then obtain bs' where bs': "SendPackedArgs (StreamChannel wr nb) ti cm xs [] = Inr bs'"
    and bs: "bs = (bytes_i32 (type_index ti v) @ pl) @ bs'"
    by (subst (asm) SendPackedArgs_StreamChannel_append)
       (cases "SendPackedArgs (StreamChannel wr nb) ti cm xs []", auto)
  show ?case
    using pl(2) Cons.IH [OF xs bs'] unfolding bs
    by (simp split: sum.splits)
qed

lemma le_bytes_numeral:
  "le_bytes (numeral k) w = ucast w # le_bytes (pred_numeral k) (drop_bit 8 w)"
  by (simp add: numeral_eq_Suc)

lemma RecvPackedArg_unknown:
  assumes "t \<notin> set (case_labels ti)" "t <s kTVMFFIStaticObjectBegin ti"
  shows "RecvPackedArg ti rd t s = Inl (ThrowError kUnknownTypeIndex)"
  using assms by (simp add: RecvPackedArg_def case_labels_def word_sle_eq word_sless_alt)

lemma RecvPackedSeq_SendPackedSeq:
  assumes "distinct (case_labels ti)"
    and "list_all (representable cm) xs"
    and "length xs < 2 ^ 31"
  shows "\<exists>bs. SendPackedSeq (StreamChannel wr nb) ti xs cm buf = Inr (buf @ bs) \<and>
           (\<forall>rest. RecvPackedSeq ti rd (bs @ rest)
                     = Inr ((of_nat (length xs), xs), rest))"
proof -
  let ?n = "of_nat (length xs) :: int32"
  obtain bs where bs:
    "SendPackedArgs (StreamChannel wr nb) ti cm xs (buf @ bytes_i32 ?n)
       = Inr ((buf @ bytes_i32 ?n) @ bs)"
    "\<And>rest. RecvPackedArgs ti rd (length xs) (bs @ rest) = Inr (xs, rest)"
    using RecvPackedArgs_SendPackedArgs [OF assms(1,2)] by blast
  have n: "nat (sint ?n) = length xs"
    using assms(3) by (simp add: sint_of_nat_len31)
  have z: "?n = 0 \<longleftrightarrow> xs = []"
    using n by (metis length_0_conv nat_zero_as_int of_nat_0 sint_0 semiring_1_class.of_nat_0)
  have "RecvPackedSeq ti rd ((bytes_i32 ?n @ bs) @ rest) = Inr ((?n, xs), rest)" for rest
  proof (cases "xs = []")
    case True
    with bs(1) have "bs = []" by simp
    with True show ?thesis by (simp add: RecvPackedSeq_def)
  next
    case False
    with z have "?n \<noteq> 0" by simp
    then show ?thesis using bs(2) n by (simp add: RecvPackedSeq_def)
  qed
  moreover have "SendPackedSeq (StreamChannel wr nb) ti xs cm buf
                   = Inr (buf @ bytes_i32 ?n @ bs)"
    using bs(1) by (simp add: SendPackedSeq_def StreamChannel_def)
  ultimately show ?thesis by blast
qed

lemma SendPackedArg_accepted:
  "rejected wr cm v = None \<Longrightarrow> \<exists>bs. SendPackedArg (StreamChannel wr nb) ti cm v [] = Inr bs"
  by (cases v)
     (simp_all add: StreamChannel_def SendDLTensor_def Let_def split: if_splits sum.splits)

lemma SendPackedArg_rejected:
  "rejected wr cm v = Some e \<Longrightarrow>
     SendPackedArg (StreamChannel wr nb) ti cm v []
       = Inl (e, bytes_i32 (type_index ti v) @ written_before_throw v)"
  by (cases v)
     (simp_all add: StreamChannel_def SendDLTensor_def Let_def split: if_splits sum.splits)

lemma SendPackedArgs_accepted:
  "list_all (\<lambda>v. rejected wr cm v = None) xs \<Longrightarrow>
     \<exists>bs. SendPackedArgs (StreamChannel wr nb) ti cm xs [] = Inr bs"
proof (induction xs)
  case Nil
  show ?case by simp
next
  case (Cons v xs)
  then obtain b bs where b: "SendPackedArg (StreamChannel wr nb) ti cm v [] = Inr b"
    and bs: "SendPackedArgs (StreamChannel wr nb) ti cm xs [] = Inr bs"
    using SendPackedArg_accepted [of wr cm v nb ti] by auto
  show ?case
    using b bs SendPackedArgs_StreamChannel_append [of wr nb ti cm xs b]
    by (simp del: SendPackedArg.simps)
qed

lemma SendPackedArgs_first_rejected:
  assumes "list_all (\<lambda>v. rejected wr cm v = None) pre" "rejected wr cm v = Some e"
  shows "\<exists>bs. SendPackedArgs (StreamChannel wr nb) ti cm pre [] = Inr bs \<and>
           SendPackedArgs (StreamChannel wr nb) ti cm (pre @ v # post) []
             = Inl (e, bs @ bytes_i32 (type_index ti v) @ written_before_throw v)"
  using assms(1)
proof (induction pre)
  case Nil
  show ?case
    using SendPackedArg_rejected [OF assms(2), of nb ti] by (simp del: SendPackedArg.simps)
next
  case (Cons u pre)
  then obtain b where b: "SendPackedArg (StreamChannel wr nb) ti cm u [] = Inr b"
    using SendPackedArg_accepted [of wr cm u nb ti] by auto
  from Cons obtain bs where bs: "SendPackedArgs (StreamChannel wr nb) ti cm pre [] = Inr bs"
    and r: "SendPackedArgs (StreamChannel wr nb) ti cm (pre @ v # post) []
             = Inl (e, bs @ bytes_i32 (type_index ti v) @ written_before_throw v)"
    by auto
  show ?case
    using b bs r SendPackedArgs_StreamChannel_append [of wr nb ti cm pre b]
      SendPackedArgs_StreamChannel_append [of wr nb ti cm "pre @ v # post" b]
    by (simp del: SendPackedArg.simps)
qed

lemma SendPackedSeq_accepted:
  assumes "list_all (\<lambda>v. rejected wr cm v = None) xs"
  shows "\<exists>bs. SendPackedSeq (StreamChannel wr nb) ti xs cm buf = Inr (buf @ bs)"
proof -
  obtain bs where "SendPackedArgs (StreamChannel wr nb) ti cm xs [] = Inr bs"
    using SendPackedArgs_accepted [OF assms] by blast
  then show ?thesis
    unfolding SendPackedSeq_def
    by (subst SendPackedArgs_StreamChannel_append) (simp add: StreamChannel_def)
qed

lemma length_bytes_i64_array [simp]: "length (bytes_i64_array xs) = 8 * length xs"
  by (induction xs) (simp_all add: bytes_i64_array_def)

lemma getter_Write [simp]:
  "Write (PackedSeqNumBytesGetter ch) bs n = n + of_nat (length bs)"
  by (simp add: PackedSeqNumBytesGetter_def)

lemma stream_Write [simp]: "Write (StreamChannel wr nb) bs buf = buf @ bs"
  by (simp add: StreamChannel_def)

lemma stream_MessageStart [simp]: "MessageStart (StreamChannel wr nb) n buf = buf"
  by (simp add: StreamChannel_def)

lemma stream_MessageDone [simp]: "MessageDone (StreamChannel wr nb) buf = buf"
  by (simp add: StreamChannel_def)

lemma getter_counts_arg:
  assumes "\<And>t obj k bs. v = AnyOther t obj \<Longrightarrow> nb t obj = Inr k \<Longrightarrow> wr t obj = Inr bs
             \<Longrightarrow> k = of_nat (length bs)"
    and "SendPackedArg (PackedSeqNumBytesGetter (StreamChannel wr nb)) ti cm v n = Inr n'"
    and "SendPackedArg (StreamChannel wr nb) ti cm v [] = Inr bs"
  shows "n' = n + of_nat (length bs)"
proof (cases v)
  case (AnyOther t obj)
  with assms(2,3) show ?thesis
    using assms(1) [of t obj]
    by (auto simp: PackedSeqNumBytesGetter_def StreamChannel_def Let_def split: sum.splits)
next
  case (AnyDLTensorPtr arr)
  with assms(2,3) show ?thesis
    by (auto simp: SendDLTensor_def Let_def split: if_splits)
qed (use assms(2,3) in \<open>auto simp: Let_def split: if_splits\<close>)

lemma getter_counts_args:
  assumes "\<And>t obj k bs. AnyOther t obj \<in> set xs \<Longrightarrow> nb t obj = Inr k \<Longrightarrow> wr t obj = Inr bs
             \<Longrightarrow> k = of_nat (length bs)"
    and "SendPackedArgs (PackedSeqNumBytesGetter (StreamChannel wr nb)) ti cm xs n = Inr n'"
    and "SendPackedArgs (StreamChannel wr nb) ti cm xs [] = Inr bs"
  shows "n' = n + of_nat (length bs)"
  using assms
proof (induction xs arbitrary: n bs)
  case Nil
  then show ?case by simp
next
  case (Cons v xs)
  from Cons.prems(2) obtain n1 where
    n1: "SendPackedArg (PackedSeqNumBytesGetter (StreamChannel wr nb)) ti cm v n = Inr n1"
    and n': "SendPackedArgs (PackedSeqNumBytesGetter (StreamChannel wr nb)) ti cm xs n1 = Inr n'"
    by (auto simp del: SendPackedArg.simps split: sum.splits)
  from Cons.prems(3) obtain b1 where
    b1: "SendPackedArg (StreamChannel wr nb) ti cm v [] = Inr b1"
    and bs: "SendPackedArgs (StreamChannel wr nb) ti cm xs b1 = Inr bs"
    by (auto simp del: SendPackedArg.simps split: sum.splits)
  from bs obtain b2 where b2: "SendPackedArgs (StreamChannel wr nb) ti cm xs [] = Inr b2"
    and bs_eq: "bs = b1 @ b2"
    by (subst (asm) SendPackedArgs_StreamChannel_append)
       (cases "SendPackedArgs (StreamChannel wr nb) ti cm xs []", auto)
  have "n1 = n + of_nat (length b1)"
    using Cons.prems(1) by (intro getter_counts_arg [OF _ n1 b1]) auto
  moreover have "n' = n1 + of_nat (length b2)"
    using Cons.prems(1) by (intro Cons.IH [OF _ n' b2]) auto
  ultimately show ?case
    using bs_eq by simp
qed


lemma SendPackedArg_getter_representable:
  "representable False v \<Longrightarrow>
     \<exists>n'. SendPackedArg (PackedSeqNumBytesGetter ch) ti False v n = Inr n'"
  by (cases v) (simp_all add: SendDLTensor_def Let_def)

lemma SendPackedArgs_getter_representable:
  "list_all (representable False) xs \<Longrightarrow>
     \<exists>n'. SendPackedArgs (PackedSeqNumBytesGetter ch) ti False xs n = Inr n'"
proof (induction xs arbitrary: n)
  case Nil
  show ?case by simp
next
  case (Cons v xs)
  then obtain n1 where "SendPackedArg (PackedSeqNumBytesGetter ch) ti False v n = Inr n1"
    using SendPackedArg_getter_representable [of v ch ti n] by auto
  with Cons show ?case
    by (simp del: SendPackedArg.simps)
qed

lemma representable_not_rejected:
  "representable cm v \<Longrightarrow> rejected wr cm v = None"
  by (cases v) simp_all

lemma ReturnPackedSeq_packet:
  assumes "\<And>t obj k bs. AnyOther t obj \<in> set xs \<Longrightarrow> nb t obj = Inr k \<Longrightarrow> wr t obj = Inr bs
             \<Longrightarrow> k = of_nat (length bs)"
    and "ReturnPackedSeq (StreamChannel wr nb) ti xs buf = Inr buf'"
  shows "\<exists>payload. SendPackedSeq (StreamChannel wr nb) ti xs False [] = Inr payload \<and>
           PackedSeqGetNumBytes (StreamChannel wr nb) ti xs False = Inr (of_nat (length payload)) \<and>
           buf' = buf @ packet kReturn payload"
proof -
  let ?S = "StreamChannel wr nb"
  let ?c = "bytes_i32 (of_nat (length xs))"
  from assms(2) obtain n where n: "PackedSeqGetNumBytes ?S ti xs False = Inr n"
    by (auto simp: ReturnPackedSeq_def split: sum.splits)
  then have g: "SendPackedArgs (PackedSeqNumBytesGetter ?S) ti False xs 4 = Inr n"
    by (auto simp: PackedSeqGetNumBytes_def SendPackedSeq_def split: sum.splits)
  from assms(2) n have
    s: "SendPackedSeq ?S ti xs False (buf @ bytes_u64 (4 + n) @ bytes_i32 (RPCCode_int kReturn)) = Inr buf'"
    by (auto simp: ReturnPackedSeq_def StreamChannel_def Let_def split: sum.splits)
  then obtain payload where p: "SendPackedSeq ?S ti xs False [] = Inr payload"
    and buf': "buf' = (buf @ bytes_u64 (4 + n) @ bytes_i32 (RPCCode_int kReturn)) @ payload"
    by (subst (asm) SendPackedSeq_StreamChannel_append)
       (cases "SendPackedSeq ?S ti xs False []", auto)
  from p obtain bs where bs: "SendPackedArgs ?S ti False xs [] = Inr bs"
    and payload: "payload = ?c @ bs"
    unfolding SendPackedSeq_def stream_Write
    by (subst (asm) SendPackedArgs_StreamChannel_append)
       (cases "SendPackedArgs ?S ti False xs []", auto)
  have "n = 4 + of_nat (length bs)"
    using assms(1) by (intro getter_counts_args [OF _ g bs])
  then have "n = of_nat (length payload)"
    by (simp add: payload)
  with n p buf' show ?thesis
    by (simp add: packet_def)
qed

lemma ReturnPackedSeq_representable:
  assumes "list_all (representable False) xs"
  shows "\<exists>buf'. ReturnPackedSeq (StreamChannel wr nb) ti xs buf = Inr buf'"
proof -
  let ?S = "StreamChannel wr nb"
  obtain n where "SendPackedArgs (PackedSeqNumBytesGetter ?S) ti False xs 4 = Inr n"
    using SendPackedArgs_getter_representable [OF assms] by blast
  then have n: "PackedSeqGetNumBytes ?S ti xs False = Inr n"
    by (simp add: PackedSeqGetNumBytes_def SendPackedSeq_def)
  from assms have "list_all (\<lambda>v. rejected wr False v = None) xs"
    by (simp add: list_all_iff representable_not_rejected)
  then obtain bs where
    "SendPackedSeq ?S ti xs False (buf @ bytes_u64 (4 + n) @ bytes_i32 (RPCCode_int kReturn))
       = Inr ((buf @ bytes_u64 (4 + n) @ bytes_i32 (RPCCode_int kReturn)) @ bs)"
    using SendPackedSeq_accepted by blast
  with n show ?thesis
    by (simp add: ReturnPackedSeq_def Let_def)
qed

lemma ReturnException_packet:
  assumes "0 \<notin> set msg" "length msg < 2 ^ 64"
  shows "ReturnException (StreamChannel wr nb) ti msg buf
           = buf @ packet kException (bytes_i32 1 @ bytes_i32 (kTVMFFIRawStr ti)
                     @ bytes_u64 (of_nat (length msg)) @ msg)"
  using assms
  by (simp add: ReturnException_def Let_def packet_def StrLength_c_string unat_of_nat_len64
        StreamChannel_def)

lemma ReturnVoid_packet:
  "ReturnVoid (StreamChannel wr nb) ti buf
     = buf @ packet kReturn (bytes_i32 1 @ bytes_i32 (kTVMFFINone ti))"
  by (simp add: ReturnVoid_def Let_def packet_def StreamChannel_def)

lemma packet_length_prefix:
  assumes "4 + length payload < 2 ^ 64"
  shows "unat (le_word (take 8 (packet c payload)) :: uint64) = length (drop 8 (packet c payload))"
  using assms by (simp add: packet_def unat_of_nat_len64 del: of_nat_add)

section \<open>Lemmas on the message queue\<close>

lemma sendable_encode:
  assumes "sendable ti wr nb args"
  shows "SendPackedSeq (StreamChannel wr nb) ti args False [] = Inr (encode ti wr nb args)"
    and "4 + length (encode ti wr nb args) < 2 ^ 64"
  using assms by (auto simp: sendable_def encode_def split: sum.splits)

lemma representable_no_AnyOther:
  "list_all (representable cm) xs \<Longrightarrow> AnyOther t obj \<notin> set xs"
  by (auto simp: list_all_iff)

lemma ReturnPackedSeq_sendable:
  assumes "sendable ti wr nb args"
  shows "ReturnPackedSeq (StreamChannel wr nb) ti args buf = Inr (buf @ frame ti wr nb args)"
proof -
  from assms have r: "list_all (representable False) args"
    by (simp add: sendable_def)
  obtain buf' where b: "ReturnPackedSeq (StreamChannel wr nb) ti args buf = Inr buf'"
    using ReturnPackedSeq_representable [OF r] by blast
  have "\<exists>payload. SendPackedSeq (StreamChannel wr nb) ti args False [] = Inr payload \<and>
           PackedSeqGetNumBytes (StreamChannel wr nb) ti args False = Inr (of_nat (length payload)) \<and>
           buf' = buf @ packet kReturn payload"
    using representable_no_AnyOther [OF r]
    by (intro ReturnPackedSeq_packet [OF _ b]) auto
  with b sendable_encode(1) [OF assms] show ?thesis
    by (auto simp: frame_def)
qed

lemma Send_sendable:
  assumes "sendable ti wr nb args" "write_buffer q = []"
  shows "Send ti wr nb args q
           = Inr (q\<lparr>msg_cnt := msg_cnt q + 1,
                    ring_buffer := ring_buffer q @ frame ti wr nb args,
                    write_buffer := []\<rparr>)"
  using ReturnPackedSeq_sendable [OF assms(1), of "[]"] assms(2)
  by (simp add: Send_def CommitSendAndNotifyEnqueue_def RingBuffer_Write_def)

lemma Recv_head:
  assumes "distinct (case_labels ti)" "sendable ti wr nb args"
    and "ring_buffer q = frame ti wr nb args @ others" "0 <s msg_cnt q"
  shows "Recv ti rd q
           = Some (Inr (args,
               q\<lparr>dequeue_waiting := False, msg_cnt := msg_cnt q - 1,
                 read_buffer := bytes_i32 (RPCCode_int kReturn) @ encode ti wr nb args,
                 ring_buffer := others,
                 read_offset := 4 + length (encode ti wr nb args)\<rparr>))"
proof -
  let ?p = "encode ti wr nb args"
  from assms(2) have r: "list_all (representable False) args" and l: "length args < 2 ^ 31"
    by (simp_all add: sendable_def)
  obtain bs where "SendPackedSeq (StreamChannel wr nb) ti args False [] = Inr ([] @ bs)"
    and d: "\<And>rest. RecvPackedSeq ti rd (bs @ rest) = Inr ((of_nat (length args), args), rest)"
    using RecvPackedSeq_SendPackedSeq [OF assms(1) r l] by blast
  with sendable_encode(1) [OF assms(2)] have "bs = ?p"
    by simp
  with d [of "[]"] have dec: "RecvPackedSeq ti rd ?p = Inr ((of_nat (length args), args), [])"
    by simp
  have u: "unat (of_nat (4 + length ?p) :: uint64) = 4 + length ?p"
    using sendable_encode(2) [OF assms(2)] by (simp add: unat_of_nat_len64 del: of_nat_add)
  have dq: "DequeueNextPacket q
      = Some (Inr (q\<lparr>dequeue_waiting := False, msg_cnt := msg_cnt q - 1,
                       read_buffer := bytes_i32 (RPCCode_int kReturn) @ ?p,
                       ring_buffer := others, read_offset := 4\<rparr>))"
    using assms(3,4) u
    by (simp add: DequeueNextPacket_def RingBuffer_Read_def frame_def packet_def Let_def
          del: of_nat_add)
  show ?thesis
    by (simp add: Recv_def dq dec)
qed


lemma run_queue_fifo:
  assumes "distinct (case_labels ti)"
    and "list_all (sendable ti wr nb) (sent evs)"
    and "list_all (sendable ti wr nb) pending"
    and "queue_holds ti wr nb q pending"
    and "length pending + length (sent evs) < 2 ^ 31"
    and "fifo evs pending = Some (out, pending')"
  shows "\<exists>q'. run_queue ti wr nb rd evs q = Some (Inr (out, q')) \<and> queue_holds ti wr nb q' pending'"
  using assms(2-)
proof (induction evs pending arbitrary: q out rule: fifo.induct)
  case (1 pending)
  then show ?case by simp
next
  case (2 args evs pending)
  from "2.prems"(1) have a: "sendable ti wr nb args" and s: "list_all (sendable ti wr nb) (sent evs)"
    by simp_all
  let ?q = "q\<lparr>msg_cnt := msg_cnt q + 1,
               ring_buffer := ring_buffer q @ frame ti wr nb args, write_buffer := []\<rparr>"
  from "2.prems"(3) have snd: "Send ti wr nb args q = Inr ?q"
    using Send_sendable [OF a] by (simp add: queue_holds_def)
  from "2.prems"(3) have h: "queue_holds ti wr nb ?q (pending @ [args])"
    by (simp add: queue_holds_def)
  from "2.prems"(2) a have p: "list_all (sendable ti wr nb) (pending @ [args])"
    by simp
  from "2.prems"(4) have n: "length (pending @ [args]) + length (sent evs) < 2 ^ 31"
    by simp
  from "2.prems"(5) have f: "fifo evs (pending @ [args]) = Some (out, pending')"
    by simp
  from "2.IH" [OF s p h n f] snd show ?case
    by simp
next
  case (3 evs)
  then show ?case by simp
next
  case (4 evs args pending)
  from "4.prems"(5) obtain out' where f: "fifo evs pending = Some (out', pending')"
    and out: "out = args # out'"
    by (auto split: option.splits)
  from "4.prems"(2) have a: "sendable ti wr nb args" and p: "list_all (sendable ti wr nb) pending"
    by simp_all
  from "4.prems"(4) have "Suc (length pending) < 2 ^ 31"
    by simp
  then have "sint (of_nat (Suc (length pending)) :: int32) = int (Suc (length pending))"
    by (rule sint_of_nat_len31)
  with "4.prems"(3) have pos: "0 <s msg_cnt q"
    by (simp add: queue_holds_def word_sless_alt)
  from "4.prems"(3) have ring: "ring_buffer q = frame ti wr nb args @ concat (map (frame ti wr nb) pending)"
    by (simp add: queue_holds_def)
  let ?q = "q\<lparr>dequeue_waiting := False, msg_cnt := msg_cnt q - 1,
               read_buffer := bytes_i32 (RPCCode_int kReturn) @ encode ti wr nb args,
               ring_buffer := concat (map (frame ti wr nb) pending),
               read_offset := 4 + length (encode ti wr nb args)\<rparr>"
  have rcv: "Recv ti rd q = Some (Inr (args, ?q))"
    by (rule Recv_head [OF assms(1) a ring pos])
  from "4.prems"(3) have h: "queue_holds ti wr nb ?q pending"
    by (simp add: queue_holds_def)
  from "4.prems"(4) have n: "length pending + length (sent evs) < 2 ^ 31"
    by simp
  from "4.prems"(1) have s: "list_all (sendable ti wr nb) (sent evs)"
    by simp
  from "4.IH" [OF s p h n f] rcv out show ?case
    by auto
qed

lemma fifo_recvs: "fifo (replicate (length xss) RecvEvent) xss = Some (xss, [])"
  by (induction xss) simp_all

lemma fifo_sends: "fifo (map SendEvent xss @ evs) pending = fifo evs (pending @ xss)"
  by (induction xss arbitrary: pending) simp_all

lemma sent_sends_recvs [simp]: "sent (map SendEvent xss @ replicate n RecvEvent) = xss"
  by (induction xss) (simp_all, induction n, simp_all)

lemma sendable_example_args: "sendable ffi_TypeIndex no_wr no_nb example_args"
  by (simp add: sendable_def example_args_def example_tensor_def SendPackedSeq_def
        SendDLTensor_def StreamChannel_def Let_def StrLength_c_string)

lemma sendable_Nil: "sendable ffi_TypeIndex no_wr no_nb []"
  by (simp add: sendable_def SendPackedSeq_def StreamChannel_def)

lemma sendable_Int: "sendable ffi_TypeIndex no_wr no_nb [AnyInt 7]"
  by (simp add: sendable_def SendPackedSeq_def StreamChannel_def)

section \<open>Lemmas on the threaded session\<close>

lemma sdiv_nonneg: "0 \<le> a \<Longrightarrow> 0 < b \<Longrightarrow> a sdiv b = a div (b :: int)"
  by (simp add: signed_divide_int_def sgn_if)

lemma sint_word_of_int_32:
  "- (2 ^ 31) \<le> x \<Longrightarrow> x < 2 ^ 31 \<Longrightarrow> sint (word_of_int x :: int32) = x"
  by (simp add: signed_of_int signed_take_bit_int_eq_self)

lemma init_workers_global_id:
  assumes "0 \<le> node_id" "0 \<le> worker_id w" "worker_id w < wpn" "(node_id + 1) * wpn \<le> 2 ^ 31"
  shows "worker_id (socket_session_init_workers nn node_id ng wpn w) = worker_id w + node_id * wpn"
proof -
  from assms(2,3) have p: "0 < wpn" by linarith
  from assms p have 0: "0 \<le> worker_id w + node_id * wpn"
    by simp
  have "worker_id w + node_id * wpn < (node_id + 1) * wpn"
    using assms(3) by (simp add: algebra_simps)
  with assms(4) have 1: "worker_id w + node_id * wpn < 2 ^ 31"
    by linarith
  have "sint ((word_of_int (worker_id w) :: int32) + word_of_int node_id * word_of_int wpn)
          = sint (word_of_int (worker_id w + node_id * wpn) :: int32)"
    by simp
  also have "\<dots> = worker_id w + node_id * wpn"
    using 0 1 by (intro sint_word_of_int_32) simp_all
  finally show ?thesis
    by (simp add: socket_session_init_workers_def)
qed

lemma init_workers_node_id:
  assumes "0 \<le> node_id" "0 \<le> worker_id w" "worker_id w < wpn" "(node_id + 1) * wpn \<le> 2 ^ 31"
  shows "worker_id (socket_session_init_workers nn node_id ng wpn w) sdiv wpn = node_id"
    and "worker_id (socket_session_init_workers nn node_id ng wpn w) - node_id * wpn = worker_id w"
proof -
  note g = init_workers_global_id [OF assms]
  from assms have p: "0 < wpn" by linarith
  from assms have "0 \<le> worker_id w + node_id * wpn"
    by (simp add: p less_imp_le)
  then have "(worker_id w + node_id * wpn) sdiv wpn = (worker_id w + node_id * wpn) div wpn"
    using p by (rule sdiv_nonneg)
  also have "\<dots> = node_id"
    using assms p by simp
  finally show "worker_id (socket_session_init_workers nn node_id ng wpn w) sdiv wpn = node_id"
    by (simp add: g)
  show "worker_id (socket_session_init_workers nn node_id ng wpn w) - node_id * wpn = worker_id w"
    by (simp add: g)
qed

text \<open>Beyond the 32 bits the global id wraps.\<close>

lemma init_workers_out_of_range:
  "worker_id (socket_session_init_workers 4 2 1 1073741824
      \<lparr>worker_id = 3, num_workers = 1073741824, num_groups = 1, register_file = [] :: unit list\<rparr>)
     = - 2147483645"
  by (simp add: socket_session_init_workers_def)

lemma init_workers_counts:
  "num_groups (socket_session_init_workers nn node_id ng wpn w) = ng"
  "0 \<le> nn \<Longrightarrow> 0 \<le> wpn \<Longrightarrow> nn * wpn < 2 ^ 31 \<Longrightarrow>
     num_workers (socket_session_init_workers nn node_id ng wpn w) = nn * wpn"
proof -
  show "num_groups (socket_session_init_workers nn node_id ng wpn w) = ng"
    by (simp add: socket_session_init_workers_def)
  assume a: "0 \<le> nn" "0 \<le> wpn" "nn * wpn < 2 ^ 31"
  have "sint ((word_of_int nn :: int32) * word_of_int wpn) = sint (word_of_int (nn * wpn) :: int32)"
    by simp
  also have "\<dots> = nn * wpn"
  proof (rule sint_word_of_int_32)
    from a(1,2) have "0 \<le> nn * wpn"
      by simp
    then show "- (2 ^ 31) \<le> nn * wpn"
      by simp
    from a(3) show "nn * wpn < 2 ^ 31"
      by simp
  qed
  finally show "num_workers (socket_session_init_workers nn node_id ng wpn w) = nn * wpn"
    by (simp add: socket_session_init_workers_def)
qed

lemma group_id_range:
  assumes "0 < g" "0 < n" "n smod g = 0" "0 \<le> i" "i < n"
  shows "i sdiv (n sdiv g) = i div (n div (g :: int))" "0 \<le> i div (n div g)" "i div (n div g) < g"
proof -
  from assms(1-3) have m: "n mod g = 0"
    by (simp add: signed_modulo_int_def sgn_if split: if_splits)
  then have n: "n = g * (n div g)"
    by auto
  with assms(1,2) have k: "0 < n div g"
    by (metis mult_pos_pos zero_less_mult_pos)
  from assms(1,2) have d: "n sdiv g = n div g"
    by (simp add: sdiv_nonneg)
  from assms(4) k show "i sdiv (n sdiv g) = i div (n div g)"
    by (simp add: d sdiv_nonneg)
  from assms(4) k show "0 \<le> i div (n div g)"
    by (simp add: pos_imp_zdiv_nonneg_iff)
  from assms(5) n have b: "i < g * (n div g)"
    by simp
  have "i div (n div g) * (n div g) + i mod (n div g) = i"
    by (rule div_mult_mod_eq)
  moreover from k have "0 \<le> i mod (n div g)"
    by simp
  ultimately have le: "i div (n div g) * (n div g) \<le> i"
    by linarith
  show "i div (n div g) < g"
  proof (rule ccontr)
    assume "\<not> i div (n div g) < g"
    then have "g \<le> i div (n div g)"
      by simp
    with k have "g * (n div g) \<le> i div (n div g) * (n div g)"
      by (simp add: mult_right_mono)
    with le b show False
      by linarith
  qed
qed

lemma new_ThreadedSessionObj_workers:
  "length (workers (new_ThreadedSessionObj n g)) = nat n"
  "i < nat n \<Longrightarrow> worker (workers (new_ThreadedSessionObj n g :: ('v, 'cmd) ThreadedSessionObj) ! i)
     = \<lparr>worker_id = int i, num_workers = n, num_groups = g, register_file = []\<rparr>"
  by (simp_all add: new_ThreadedSessionObj_def new_DiscoWorkerThread_def)

lemma fold_leaves_register:
  assumes "list_all (leaves_register exec r) cs" "r < int (length (register_file w))"
  shows "r < int (length (register_file (fold exec cs w))) \<and>
         register_file (fold exec cs w) ! nat r = register_file w ! nat r"
  using assms
proof (induction cs arbitrary: w)
  case Nil
  then show ?case by simp
next
  case (Cons c cs)
  from Cons.prems have c: "leaves_register exec r c" and cs: "list_all (leaves_register exec r) cs"
    by simp_all
  from c Cons.prems(2) have 1: "r < int (length (register_file (exec c w)))"
    and 2: "register_file (exec c w) ! nat r = register_file w ! nat r"
    by (simp_all add: leaves_register_def)
  from Cons.IH [OF cs 1] 2 show ?case
    by simp
qed

lemma SendPacked_all_worker:
  assumes "0 \<le> wid" "wid < int (length (workers s))" "SendPacked_all sends s = Inr s'"
  shows "length (workers s') = length (workers s) \<and>
         workers s' ! nat wid
           = (workers s ! nat wid)
               \<lparr>queued := queued (workers s ! nat wid) @ map snd (filter (\<lambda>p. fst p = wid) sends)\<rparr>"
  using assms
proof (induction sends arbitrary: s)
  case Nil
  then show ?case by simp
next
  case (Cons p sends)
  obtain w c where p: "p = (w, c)" by (cases p)
  from Cons.prems(3) p obtain s1 where s1: "ThreadedSession_SendPacked w c s = Inr s1"
    and r: "SendPacked_all sends s1 = Inr s'"
    by (auto split: sum.splits)
  from s1 have w: "0 \<le> w" "w < int (length (workers s))"
    and s1_eq: "s1 = s\<lparr>workers := (workers s)[nat w := (workers s ! nat w)
                         \<lparr>queued := queued (workers s ! nat w) @ [c]\<rparr>]\<rparr>"
    by (auto simp: ThreadedSession_SendPacked_def workers_at_def split: if_splits)
  have len: "length (workers s1) = length (workers s)"
    by (simp add: s1_eq)
  from Cons.IH [OF Cons.prems(1) _ r] Cons.prems(2) len
  have ih: "length (workers s') = length (workers s1)"
    "workers s' ! nat wid = (workers s1 ! nat wid)
        \<lparr>queued := queued (workers s1 ! nat wid) @ map snd (filter (\<lambda>p. fst p = wid) sends)\<rparr>"
    by simp_all
  show ?case
  proof (cases "w = wid")
    case True
    with ih len Cons.prems(1,2) show ?thesis
      by (simp add: s1_eq p)
  next
    case False
    with w Cons.prems(1) have "nat w \<noteq> nat wid"
      by simp
    with ih len show ?thesis
      by (simp add: s1_eq p False)
  qed
qed

lemma leaves_register_store: "fst c \<noteq> r \<Longrightarrow> 0 \<le> fst c \<Longrightarrow> 0 \<le> r \<Longrightarrow> leaves_register store_exec r c"
  by (simp add: leaves_register_def store_exec_def)

section \<open>Lemmas on the socket session\<close>

lemma ReturnPackedSeq_ints4:
  "ReturnPackedSeq (StreamChannel wr nb) ti [Any_of_int a, Any_of_int b, Any_of_int c, Any_of_int d] buf
     = Inr (buf @ packet kReturn
         (bytes_i32 4 @
          concat (map (\<lambda>x. bytes_i32 (kTVMFFIInt ti) @ bytes_u64 (of_int x)) [a, b, c, d])))"
  by (simp add: ReturnPackedSeq_def PackedSeqGetNumBytes_def SendPackedSeq_def Any_of_int_def
        packet_def Let_def)

lemma ReturnPackedSeq_ints2:
  "ReturnPackedSeq (StreamChannel wr nb) ti [Any_of_int a, Any_of_int b] buf
     = Inr (buf @ packet kReturn
         (bytes_i32 2 @
          concat (map (\<lambda>x. bytes_i32 (kTVMFFIInt ti) @ bytes_u64 (of_int x)) [a, b])))"
  by (simp add: ReturnPackedSeq_def PackedSeqGetNumBytes_def SendPackedSeq_def Any_of_int_def
        packet_def Let_def)

lemma stream_Send_metadata:
  "stream_Send P [Any_of_int a, Any_of_int b, Any_of_int c, Any_of_int d] pkts
     = Inr (pkts @ [metadata_packet P a b c d])"
  by (simp add: stream_Send_def ReturnPackedSeq_ints4 metadata_packet_def)

lemma accept_nodes_result:
  assumes "length (remote_channels s) = length (network s)"
    and "length (remote_sockets s) = length (network s)"
  shows "accept_nodes P nn wpn ng k i s
     = Inr (s\<lparr>remote_sockets := remote_sockets s @ map Connected [length (network s)..<length (network s) + k],
              remote_channels := remote_channels s @ map Connected [length (network s)..<length (network s) + k],
              network := network s @ map (\<lambda>j. \<lparr>to_remote = [metadata_packet P nn wpn ng (i + 1 + int j)],
                                                 to_controller = []\<rparr>) [0..<k]\<rparr>)"
  using assms
proof (induction k arbitrary: i s)
  case 0
  then show ?case by simp
next
  case (Suc k)
  let ?m = "length (network s)"
  let ?s1 = "s\<lparr>remote_sockets := remote_sockets s @ [Connected ?m],
               remote_channels := remote_channels s @ [Connected ?m],
               network := network s @ [\<lparr>to_remote = [], to_controller = []\<rparr>]\<rparr>"
  have snd: "channel_Send P (Connected ?m) [Any_of_int nn, Any_of_int wpn, Any_of_int ng, Any_of_int (i + 1)]
               (network s @ [\<lparr>to_remote = [], to_controller = []\<rparr>])
             = Inr (network s @ [\<lparr>to_remote = [metadata_packet P nn wpn ng (i + 1)], to_controller = []\<rparr>])"
    by (simp add: channel_Send_def stream_Send_metadata nth_append)
  let ?s2 = "?s1\<lparr>network := network s @ [\<lparr>to_remote = [metadata_packet P nn wpn ng (i + 1)],
                                             to_controller = []\<rparr>]\<rparr>"
  have step: "accept_nodes P nn wpn ng (Suc k) i s = accept_nodes P nn wpn ng k (i + 1) ?s2"
    by (simp add: Let_def snd)
  have "[?m..<?m + Suc k] = ?m # [Suc ?m..<Suc ?m + k]"
    by (simp add: upt_rec)
  moreover have "map (\<lambda>j. \<lparr>to_remote = [metadata_packet P nn wpn ng (i + 1 + int j)], to_controller = []\<rparr>) [0..<Suc k]
      = \<lparr>to_remote = [metadata_packet P nn wpn ng (i + 1)], to_controller = []\<rparr>
        # map (\<lambda>j. \<lparr>to_remote = [metadata_packet P nn wpn ng (i + 1 + 1 + int j)], to_controller = []\<rparr>) [0..<k]"
    by (simp add: upt_rec [of 0] map_Suc_upt [symmetric] del: upt_Suc) (simp add: algebra_simps)
  ultimately show ?case
    unfolding step using Suc.prems
    by (subst Suc.IH) simp_all
qed

lemma cast_int_Any_of_int:
  assumes "- (2 ^ 31) \<le> x" "x < 2 ^ 31"
  shows "cast_int (Any_of_int x) = Inr x"
proof -
  have "(ucast (of_int x :: 64 word) :: 32 word) = of_int x"
    by (rule bit_word_eqI) (auto simp: bit_simps)
  moreover have "sint (of_int x :: 32 word) = x"
    using assms by (simp add: signed_of_int signed_take_bit_int_eq_self)
  ultimately show ?thesis
    by (simp add: Any_of_int_def)
qed

lemma stream_Send_sendable:
  assumes "sendable (type_indices P) (write_obj P) (obj_nbytes P) args"
  shows "stream_Send P args pkts
           = Inr (pkts @ [frame (type_indices P) (write_obj P) (obj_nbytes P) args])"
  using ReturnPackedSeq_sendable [OF assms, of "[]"] by (simp add: stream_Send_def)

lemma stream_Recv_frame:
  assumes "distinct (case_labels (type_indices P))"
    and "sendable (type_indices P) (write_obj P) (obj_nbytes P) args"
  shows "stream_Recv P (frame (type_indices P) (write_obj P) (obj_nbytes P) args # rest)
           = Some (Inr (args, rest))"
proof -
  let ?ti = "type_indices P" and ?wr = "write_obj P" and ?nb = "obj_nbytes P"
  let ?p = "encode ?ti ?wr ?nb args"
  from assms(2) have r: "list_all (representable False) args" and l: "length args < 2 ^ 31"
    by (simp_all add: sendable_def)
  obtain bs where "SendPackedSeq (StreamChannel ?wr ?nb) ?ti args False [] = Inr ([] @ bs)"
    and d: "\<And>rest. RecvPackedSeq ?ti (read_obj P) (bs @ rest) = Inr ((of_nat (length args), args), rest)"
    using RecvPackedSeq_SendPackedSeq [OF assms(1) r l] by blast
  with sendable_encode(1) [OF assms(2)] have "bs = ?p"
    by simp
  with d [of "[]"] have dec: "RecvPackedSeq ?ti (read_obj P) ?p = Inr ((of_nat (length args), args), [])"
    by simp
  have u: "unat (of_nat (4 + length ?p) :: uint64) = 4 + length ?p"
    using sendable_encode(2) [OF assms(2)] by (simp add: unat_of_nat_len64 del: of_nat_add)
  show ?thesis
    using u by (simp add: stream_Recv_def frame_def packet_def dec del: of_nat_add)
qed

lemma sendable_ints4:
  "sendable ti wr nb [Any_of_int a, Any_of_int b, Any_of_int c, Any_of_int d]"
  by (simp add: sendable_def Any_of_int_def SendPackedSeq_def)

lemma sendable_ints2: "sendable ti wr nb [Any_of_int a, Any_of_int b]"
  by (simp add: sendable_def Any_of_int_def SendPackedSeq_def)

lemma frame_ints4:
  "frame (type_indices P) (write_obj P) (obj_nbytes P)
     [Any_of_int a, Any_of_int b, Any_of_int c, Any_of_int d] = metadata_packet P a b c d"
  using ReturnPackedSeq_sendable
      [OF sendable_ints4 [of "type_indices P" "write_obj P" "obj_nbytes P" a b c d], of "[]"]
  by (simp add: ReturnPackedSeq_ints4 metadata_packet_def)

lemma new_SocketSessionObj_result:
  "new_SocketSessionObj P nn wpn ng ls
     = Inr \<lparr>num_nodes = nn, num_workers_per_node = wpn, socket = Listening,
            remote_sockets = map Connected [0..<nat (nn - 1)],
            remote_channels = map Connected [0..<nat (nn - 1)],
            local_session = ls,
            network = map (\<lambda>j. \<lparr>to_remote = [metadata_packet P nn wpn ng (1 + int j)],
                                to_controller = []\<rparr>) [0..<nat (nn - 1)]\<rparr>"
  unfolding new_SocketSessionObj_def
  by (subst accept_nodes_result) simp_all

lemma new_RemoteSocketSession_metadata:
  assumes "distinct (case_labels (type_indices P))"
    and "- (2 ^ 31) \<le> nn" "nn < 2 ^ 31" "- (2 ^ 31) \<le> wpn" "wpn < 2 ^ 31"
    and "- (2 ^ 31) \<le> ng" "ng < 2 ^ 31" "- (2 ^ 31) \<le> nid" "nid < 2 ^ 31"
    and "wpn \<le> num_local_workers"
  shows "new_RemoteSocketSession P num_local_workers ls (metadata_packet P nn wpn ng nid # rest)
           = Some (Inr (\<lparr>relay_local_session = ls, relay_num_nodes = nn, relay_node_id = nid,
                          relay_num_groups = ng, relay_num_workers_per_node = wpn\<rparr>, rest))"
  using stream_Recv_frame [OF assms(1) sendable_ints4, of nn wpn ng nid rest] assms(2-)
  by (simp add: new_RemoteSocketSession_def frame_ints4 cast_int_Any_of_int)

lemma send_all_Connected:
  assumes "sendable (type_indices P) (write_obj P) (obj_nbytes P) args"
    and "list_all (\<lambda>c. \<exists>fd. c = Connected fd \<and> fd < length net) chans"
  shows "\<exists>net'. send_all P args chans net = Inr net' \<and> length net' = length net"
  using assms(2)
proof (induction chans arbitrary: net)
  case Nil
  show ?case by simp
next
  case (Cons c chans)
  then obtain fd where c: "c = Connected fd" and fd: "fd < length net"
    by auto
  let ?net = "net[fd := (net ! fd)\<lparr>to_remote := to_remote (net ! fd)
                @ [frame (type_indices P) (write_obj P) (obj_nbytes P) args]\<rparr>]"
  have s: "channel_Send P c args net = Inr ?net"
    using fd by (simp add: channel_Send_def c stream_Send_sendable [OF assms(1)])
  from Cons.prems have "list_all (\<lambda>c. \<exists>fd. c = Connected fd \<and> fd < length ?net) chans"
    by simp
  from Cons.IH [OF this] s show ?case
    by simp
qed

lemma close_all_open:
  "list_all (\<lambda>sock. \<not> IsClosed sock) socks \<Longrightarrow>
     close_all socks = Inr (map (\<lambda>sock. INVALID_SOCKET) socks)"
  by (induction socks) (simp_all add: Close_def)

lemma Shutdown_twice:
  assumes "SocketSession_Shutdown P s = Inr s1"
  shows "remote_channels s1 = [] \<and> remote_sockets s1 = [] \<and> IsClosed (socket s1) \<and>
         SocketSession_Shutdown P s1 = Inr s1"
proof -
  from assms have a: "remote_channels s1 = []" "remote_sockets s1 = []" "IsClosed (socket s1)"
    by (auto simp: SocketSession_Shutdown_def Let_def Close_def IsClosed_def
          split: sum.splits if_splits)
  then have "SocketSession_Shutdown P s1 = Inr s1"
    by (cases s1) (simp add: SocketSession_Shutdown_def)
  with a show ?thesis
    by simp
qed

lemma Shutdown_constructed:
  assumes "new_SocketSessionObj P nn wpn ng ls = Inr s"
  shows "\<exists>s1. SocketSession_Shutdown P s = Inr s1"
proof -
  from assms have s: "s = \<lparr>num_nodes = nn, num_workers_per_node = wpn, socket = Listening,
            remote_sockets = map Connected [0..<nat (nn - 1)],
            remote_channels = map Connected [0..<nat (nn - 1)],
            local_session = ls,
            network = map (\<lambda>j. \<lparr>to_remote = [metadata_packet P nn wpn ng (1 + int j)],
                                to_controller = []\<rparr>) [0..<nat (nn - 1)]\<rparr>"
    by (simp add: new_SocketSessionObj_result)
  have "list_all (\<lambda>c. \<exists>fd. c = Connected fd \<and> fd < length (network s)) (remote_channels s)"
    by (simp add: s list_all_iff)
  from send_all_Connected
    [OF sendable_ints2 [of "type_indices P" "write_obj P" "obj_nbytes P"
          "DiscoSocketAction_kShutdown P" "- 1"] this]
  obtain net' where n: "send_all P [Any_of_int (DiscoSocketAction_kShutdown P), Any_of_int (- 1)]
                          (remote_channels s) (network s) = Inr net'"
    by blast
  have "list_all (\<lambda>sock. \<not> IsClosed sock) (remote_sockets s)"
    by (simp add: s list_all_iff IsClosed_def)
  from close_all_open [OF this] n show ?thesis
    by (simp add: SocketSession_Shutdown_def Let_def) (simp add: s IsClosed_def Close_def)
qed

lemma MainLoop_send_receive:
  assumes d: "distinct (case_labels (type_indices P))"
    and k: "- (2 ^ 31) \<le> kShutDown P" "kShutDown P + 2 < 2 ^ 31"
    and w: "- (2 ^ 31) \<le> wid" "wid < 2 ^ 31" "wid \<noteq> - 1"
    and s1: "sendable (type_indices P) (write_obj P) (obj_nbytes P)
               (Any_of_int (DiscoSocketAction_kSend P) # Any_of_int wid # args)"
    and l1: "SendPacked L (wid - relay_node_id r * relay_num_workers_per_node r) args
               (relay_local_session r) = Inr ls1"
    and l2: "RecvReplyPacked L (wid - relay_node_id r * relay_num_workers_per_node r) ls1
               = Inr (reply, ls2)"
    and s2: "sendable (type_indices P) (write_obj P) (obj_nbytes P) reply"
  shows "MainLoop P L
           [frame (type_indices P) (write_obj P) (obj_nbytes P)
              (Any_of_int (DiscoSocketAction_kSend P) # Any_of_int wid # args),
            frame (type_indices P) (write_obj P) (obj_nbytes P)
              [Any_of_int (DiscoSocketAction_kReceive P), Any_of_int wid]] r outbox
         = Inr (Waiting, r\<lparr>relay_local_session := ls2\<rparr>, [],
                outbox @ [frame (type_indices P) (write_obj P) (obj_nbytes P) reply])"
proof -
  have c1: "cast_int (Any_of_int (DiscoSocketAction_kSend P) :: 'a TVMFFIAny) = Inr (DiscoSocketAction_kSend P)"
    using k by (intro cast_int_Any_of_int) (simp_all add: DiscoSocketAction_kSend_def)
  have c2: "cast_int (Any_of_int (DiscoSocketAction_kReceive P) :: 'a TVMFFIAny) = Inr (DiscoSocketAction_kReceive P)"
    using k by (intro cast_int_Any_of_int) (simp_all add: DiscoSocketAction_kReceive_def)
  have c3: "cast_int (Any_of_int wid :: 'a TVMFFIAny) = Inr wid"
    using w by (intro cast_int_Any_of_int)
  have ne: "DiscoSocketAction_kReceive P \<noteq> DiscoSocketAction_kSend P"
    by (simp add: DiscoSocketAction_kSend_def DiscoSocketAction_kReceive_def)
  have r1: "stream_Recv P [frame (type_indices P) (write_obj P) (obj_nbytes P)
              (Any_of_int (DiscoSocketAction_kSend P) # Any_of_int wid # args)]
            = Some (Inr (Any_of_int (DiscoSocketAction_kSend P) # Any_of_int wid # args, []))"
    by (rule stream_Recv_frame [OF d s1])
  have r2: "stream_Recv P [frame (type_indices P) (write_obj P) (obj_nbytes P)
              [Any_of_int (DiscoSocketAction_kReceive P), Any_of_int wid]]
            = Some (Inr ([Any_of_int (DiscoSocketAction_kReceive P), Any_of_int wid], []))"
    by (rule stream_Recv_frame [OF d sendable_ints2])
  show ?thesis
    using w(3) ne
    by (simp add: r1 r2 c1 c2 c3 l1 l2 Let_def stream_Send_sendable [OF s2])
qed

lemma MainLoop_broadcast:
  assumes d: "distinct (case_labels (type_indices P))"
    and k: "- (2 ^ 31) \<le> kShutDown P" "kShutDown P + 2 < 2 ^ 31"
    and s1: "sendable (type_indices P) (write_obj P) (obj_nbytes P)
               (Any_of_int (DiscoSocketAction_kSend P) # Any_of_int (- 1) # args)"
    and l1: "BroadcastPacked L args (relay_local_session r) = Inr ls1"
  shows "MainLoop P L
           [frame (type_indices P) (write_obj P) (obj_nbytes P)
              (Any_of_int (DiscoSocketAction_kSend P) # Any_of_int (- 1) # args)] r outbox
         = Inr (Waiting, r\<lparr>relay_local_session := ls1\<rparr>, [], outbox)"
proof -
  have c1: "cast_int (Any_of_int (DiscoSocketAction_kSend P) :: 'a TVMFFIAny) = Inr (DiscoSocketAction_kSend P)"
    using k by (intro cast_int_Any_of_int) (simp_all add: DiscoSocketAction_kSend_def)
  have c3: "cast_int (Any_of_int (- 1) :: 'a TVMFFIAny) = Inr (- 1)"
    by (intro cast_int_Any_of_int) simp_all
  have r1: "stream_Recv P [frame (type_indices P) (write_obj P) (obj_nbytes P)
              (Any_of_int (DiscoSocketAction_kSend P) # Any_of_int (- 1) # args)]
            = Some (Inr (Any_of_int (DiscoSocketAction_kSend P) # Any_of_int (- 1) # args, []))"
    by (rule stream_Recv_frame [OF d s1])
  show ?thesis
    by (simp add: r1 c1 c3 l1 Let_def)
qed

lemma remote_channel_network [simp]:
  "remote_channel (s\<lparr>network := n\<rparr>) idx = remote_channel s idx"
  by (simp add: remote_channel_def)

lemma remote_call_reply:
  assumes d: "distinct (case_labels (type_indices P))"
    and k: "- (2 ^ 31) \<le> kShutDown P" "kShutDown P + 2 < 2 ^ 31"
    and wpn: "0 < num_workers_per_node s"
    and w: "num_workers_per_node s \<le> wid" "wid < 2 ^ 31"
    and ch: "remote_channel s (wid sdiv num_workers_per_node s - 1) = Inr (Connected fd)"
      "fd < length (network s)" "network s ! fd = \<lparr>to_remote = [], to_controller = []\<rparr>"
    and r: "relay_node_id r = wid sdiv num_workers_per_node s"
      "relay_num_workers_per_node r = num_workers_per_node s"
    and s1: "sendable (type_indices P) (write_obj P) (obj_nbytes P)
               (Any_of_int (DiscoSocketAction_kSend P) # Any_of_int wid # args)"
    and l1: "SendPacked L (wid - wid sdiv num_workers_per_node s * num_workers_per_node s) args
               (relay_local_session r) = Inr ls1"
    and l2: "RecvReplyPacked L (wid - wid sdiv num_workers_per_node s * num_workers_per_node s) ls1
               = Inr (reply, ls2)"
    and s2: "sendable (type_indices P) (write_obj P) (obj_nbytes P) reply"
  shows "remote_call P L wid args s r = Some (Inr (reply, s, r\<lparr>relay_local_session := ls2\<rparr>))"
proof -
  let ?ti = "type_indices P" and ?wr = "write_obj P" and ?nb = "obj_nbytes P"
  let ?wpn = "num_workers_per_node s"
  let ?node = "wid sdiv ?wpn"
  let ?f1 = "frame ?ti ?wr ?nb (Any_of_int (DiscoSocketAction_kSend P) # Any_of_int wid # args)"
  let ?f2 = "frame ?ti ?wr ?nb [Any_of_int (DiscoSocketAction_kReceive P), Any_of_int wid]"
  let ?fr = "frame ?ti ?wr ?nb reply"
  from wpn w have wid0: "0 \<le> wid" by linarith
  have "?node = wid div ?wpn"
    using wid0 wpn by (rule sdiv_nonneg)
  moreover have "0 < wid div ?wpn"
    using wpn w(1) by (simp add: pos_imp_zdiv_pos_iff)
  ultimately have node: "?node \<noteq> 0"
    by simp
  let ?s1 = "s\<lparr>network := (network s)[fd := \<lparr>to_remote = [?f1], to_controller = []\<rparr>]\<rparr>"
  have snd1: "SocketSession_SendPacked P L wid args s = Inr ?s1"
    using wpn node ch
    by (simp add: SocketSession_SendPacked_def Let_def channel_Send_def
          stream_Send_sendable [OF s1])
  let ?s2 = "s\<lparr>network := (network s)[fd := \<lparr>to_remote = [?f1, ?f2], to_controller = []\<rparr>]\<rparr>"
  have ch1: "remote_channel ?s1 (?node - 1) = Inr (Connected fd)"
    using ch(1) by simp
  have snd2: "SocketSession_RecvReplyPacked_send P wid ?s1 = Inr ?s2"
    using wpn node ch1 ch(2)
    by (simp add: SocketSession_RecvReplyPacked_send_def Let_def channel_Send_def
          stream_Send_sendable [OF sendable_ints2])
  have ch2: "remote_channel ?s2 (wid sdiv num_workers_per_node ?s2 - 1) = Inr (Connected fd)"
    using ch(1) by simp
  from w wid0 have wr: "- (2 ^ 31) \<le> wid" "wid < 2 ^ 31" "wid \<noteq> - 1"
    by simp_all
  have loop: "MainLoop P L [?f1, ?f2] r [] = Inr (Waiting, r\<lparr>relay_local_session := ls2\<rparr>, [], [] @ [?fr])"
    using l1 l2 by (intro MainLoop_send_receive [OF d k wr s1 _ _ s2]) (simp_all add: r)
  let ?s3 = "?s2\<lparr>network := (network ?s2)[fd := \<lparr>to_remote = [], to_controller = [?fr]\<rparr>]\<rparr>"
  have ch3: "remote_channel ?s3 (?node - 1) = Inr (Connected fd)"
    using ch(1) by simp
  have net: "(network s)[fd := \<lparr>to_remote = [], to_controller = []\<rparr>] = network s"
    using ch(3) by (metis list_update_id)
  have rcv: "SocketSession_RecvReplyPacked_recv P L wid ?s3 = Some (Inr (reply, s))"
    using wpn node ch3 ch(2)
    by (simp add: SocketSession_RecvReplyPacked_recv_def Let_def channel_Recv_def
          stream_Recv_frame [OF d s2] net)
  show ?thesis
  proof -
    have "network ?s2 ! fd = \<lparr>to_remote = [?f1, ?f2], to_controller = []\<rparr>"
      using ch(2) by simp
    with loop have loop': "MainLoop P L (to_remote (network ?s2 ! fd)) r (to_controller (network ?s2 ! fd))
        = Inr (Waiting, r\<lparr>relay_local_session := ls2\<rparr>, [], [?fr])"
      by simp
    show ?thesis
      unfolding remote_call_def snd1 sum.case snd2 ch2 TCPSocket.case Let_def loop' prod.case rcv
        option.case
      by simp
  qed
qed

section \<open>Claims\<close>

text \<open>
  C1. Codec round trip: for every packed sequence of representable argument values,
  \<^verbatim>\<open>RecvPackedSeq\<close> applied to the bytes that \<^verbatim>\<open>SendPackedSeq\<close> appends to a channel returns
  the argument count and a sequence equal to the original, and leaves what follows in
  the channel unread. Numbers, strings and byte buffers come back bit for bit, opaque
  handles and tensor descriptors with the same 64-bit handle and the same metadata.
\<close>

theorem codec_round_trip:
  assumes "distinct (case_labels ti)"
    and "list_all (representable client_mode) packed_args"
    and "length packed_args < 2 ^ 31"
  shows "\<exists>bs. SendPackedSeq (StreamChannel wr nb) ti packed_args client_mode buf = Inr (buf @ bs) \<and>
           (\<forall>rest. RecvPackedSeq ti rd (bs @ rest)
                     = Inr ((of_nat (length packed_args), packed_args), rest))"
  using assms by (rule RecvPackedSeq_SendPackedSeq)

theorem codec_round_trip_witness:
  "\<exists>bs. SendPackedSeq (StreamChannel no_wr no_nb) ffi_TypeIndex example_args False [] = Inr bs \<and>
     RecvPackedSeq ffi_TypeIndex no_rd bs = Inr ((10, example_args), [])"
proof -
  have d: "distinct (case_labels ffi_TypeIndex)"
    by (simp add: case_labels_def ffi_TypeIndex_def)
  have r: "list_all (representable False) example_args"
    by (simp add: example_args_def example_tensor_def)
  have l: "length example_args < 2 ^ 31"
    by (simp add: example_args_def)
  obtain bs where
    s: "SendPackedSeq (StreamChannel no_wr no_nb) ffi_TypeIndex example_args False [] = Inr ([] @ bs)"
    and g: "\<And>rest. RecvPackedSeq ffi_TypeIndex no_rd (bs @ rest)
       = Inr ((of_nat (length example_args), example_args), rest)"
    using codec_round_trip [OF d r l, of no_wr no_nb "[]" no_rd] by blast
  have n: "(of_nat (length example_args) :: int32) = 10"
    by (simp add: example_args_def)
  from s g [of "[]"] show ?thesis
    unfolding n by auto
qed

text \<open>
  C6. An unknown type tag is fatal on decode: when \<^verbatim>\<open>RecvPackedSeq\<close>, after any number of
  well-formed arguments, reads a type index that is none of the case labels and lies
  below \<^verbatim>\<open>kTVMFFIStaticObjectBegin\<close>, it stops with \<^verbatim>\<open>kUnknownTypeIndex\<close>, whatever
  follows in the channel: the argument is neither skipped nor given a value.
\<close>

theorem unknown_type_index_fatal:
  assumes "distinct (case_labels ti)"
    and "list_all (representable client_mode) (packed_args :: 'o TVMFFIAny list)"
    and "SendPackedArgs (StreamChannel wr nb) ti client_mode packed_args [] = Inr bs"
    and "int (length packed_args) < sint num_args"
    and "t \<notin> set (case_labels ti)"
    and "t <s kTVMFFIStaticObjectBegin ti"
  shows "RecvPackedSeq ti rd (bytes_i32 num_args @ bs @ bytes_i32 t @ rest)
           = (Inl (ThrowError kUnknownTypeIndex)
               :: error + ((int32 \<times> 'o TVMFFIAny list) \<times> byte list))"
proof -
  from assms(4) have nz: "num_args \<noteq> 0"
    by auto
  from assms(4) have "length packed_args < nat (sint num_args)"
    by linarith
  then obtain m where m: "nat (sint num_args) = length packed_args + Suc m"
    using less_imp_Suc_add by auto
  have "RecvPackedArgs ti rd (length packed_args + Suc m) (bs @ bytes_i32 t @ rest)
          = Inl (ThrowError kUnknownTypeIndex)"
    using RecvPackedArgs_prefix [OF assms(1,2,3), of rd "Suc m" "bytes_i32 t @ rest"]
      RecvPackedArg_unknown [OF assms(5,6), of rd rest]
    by simp
  with nz m show ?thesis
    by (simp add: RecvPackedSeq_def)
qed

theorem unknown_type_index_fatal_witness:
  "RecvPackedSeq ffi_TypeIndex no_rd
     (bytes_i32 2 @ [1, 0, 0, 0, 7, 0, 0, 0, 0, 0, 0, 0] @ bytes_i32 10 @ [1, 2, 3])
     = Inl (ThrowError kUnknownTypeIndex)"
proof -
  have d: "distinct (case_labels ffi_TypeIndex)"
    by (simp add: case_labels_def ffi_TypeIndex_def)
  have r: "list_all (representable False) [AnyInt 7 :: unit TVMFFIAny]"
    by simp
  have s: "SendPackedArgs (StreamChannel no_wr no_nb) ffi_TypeIndex False [AnyInt 7] []
             = Inr [1, 0, 0, 0, 7, 0, 0, 0, 0, 0, 0, 0]"
    by (simp add: StreamChannel_def bytes_i32_def bytes_u64_def ffi_TypeIndex_def le_bytes_numeral)
  have n: "int (length [AnyInt 7 :: unit TVMFFIAny]) < sint (2 :: int32)"
    by simp
  have t: "(10 :: int32) \<notin> set (case_labels ffi_TypeIndex)"
    by (simp add: case_labels_def ffi_TypeIndex_def)
  have b: "(10 :: int32) <s kTVMFFIStaticObjectBegin ffi_TypeIndex"
    by (simp add: ffi_TypeIndex_def word_sless_alt)
  show ?thesis
    using unknown_type_index_fatal [OF d r s n t b] by simp
qed

text \<open>
  C10, as the code has it. \<^verbatim>\<open>SendPackedSeq\<close> on a stream channel returns normally when no
  argument is rejected, and otherwise stops at the first rejected argument with the
  status of that case: an NDArray value always, a Function or Module value when
  \<^verbatim>\<open>client_mode\<close> is false, a tensor descriptor whose \<^verbatim>\<open>strides\<close> are not null, an object
  the channel's codec rejects. At that moment the channel holds the argument count, the
  arguments before, the type index of the rejected argument and \<open>written_before_throw\<close>
  of it: nothing more for an NDArray, Function or Module value, the handle, device,
  rank, dtype and shape for a strided tensor. So every tensor descriptor of a sequence
  that was sent in full is dense.
\<close>

theorem encoder_domain_restriction:
  "(list_all (\<lambda>v. rejected wr client_mode v = None) packed_args \<longrightarrow>
      (\<exists>bs. SendPackedSeq (StreamChannel wr nb) ti packed_args client_mode buf = Inr (buf @ bs)))
   \<and> (\<forall>pre v post e.
        packed_args = pre @ v # post \<and> list_all (\<lambda>u. rejected wr client_mode u = None) pre
          \<and> rejected wr client_mode v = Some e \<longrightarrow>
        (\<exists>bs. SendPackedArgs (StreamChannel wr nb) ti client_mode pre [] = Inr bs \<and>
           SendPackedSeq (StreamChannel wr nb) ti packed_args client_mode buf
             = Inl (e, buf @ bytes_i32 (of_nat (length packed_args)) @ bs
                         @ bytes_i32 (type_index ti v) @ written_before_throw v)))
   \<and> ((\<exists>b. SendPackedSeq (StreamChannel wr nb) ti packed_args client_mode buf = Inr b) \<longrightarrow>
        (\<forall>arr. AnyDLTensorPtr arr \<in> set packed_args \<longrightarrow> strides arr = None))"
proof -
  let ?S = "StreamChannel wr nb"
  let ?n = "bytes_i32 (of_nat (length packed_args))"
  have seq: "SendPackedSeq ?S ti packed_args client_mode buf
               = app_res (buf @ ?n) (SendPackedArgs ?S ti client_mode packed_args [])"
    unfolding SendPackedSeq_def
    by (subst SendPackedArgs_StreamChannel_append) (simp add: StreamChannel_def)
  have A: "\<exists>bs. SendPackedSeq ?S ti packed_args client_mode buf = Inr (buf @ bs)"
    if "list_all (\<lambda>v. rejected wr client_mode v = None) packed_args"
    using SendPackedArgs_accepted [OF that, of nb ti] unfolding seq by auto
  have B: "\<exists>bs. SendPackedArgs ?S ti client_mode pre [] = Inr bs \<and>
             SendPackedSeq ?S ti packed_args client_mode buf
               = Inl (e, buf @ ?n @ bs @ bytes_i32 (type_index ti v) @ written_before_throw v)"
    if "packed_args = pre @ v # post" "list_all (\<lambda>u. rejected wr client_mode u = None) pre"
      "rejected wr client_mode v = Some e" for pre v post e
    using SendPackedArgs_first_rejected [OF that(2,3), of nb ti post] seq
    unfolding that(1) by auto
  have C: "strides arr = None"
    if ok: "SendPackedSeq ?S ti packed_args client_mode buf = Inr b"
      and mem: "AnyDLTensorPtr arr \<in> set packed_args" for b arr
  proof (rule ccontr)
    assume "strides arr \<noteq> None"
    then have "rejected wr client_mode (AnyDLTensorPtr arr) \<noteq> None"
      by simp
    with mem have "\<exists>x \<in> set packed_args. rejected wr client_mode x \<noteq> None"
      by blast
    then obtain pre v post where s: "packed_args = pre @ v # post"
      and v: "rejected wr client_mode v \<noteq> None"
      and pre: "\<forall>u \<in> set pre. \<not> rejected wr client_mode u \<noteq> None"
      using split_list_first_prop [of packed_args "\<lambda>x. rejected wr client_mode x \<noteq> None"]
      by blast
    from v obtain e where e: "rejected wr client_mode v = Some e"
      by auto
    from pre have "list_all (\<lambda>u. rejected wr client_mode u = None) pre"
      by (simp add: list_all_iff)
    from B [OF s this e] ok show False
      by auto
  qed
  from A B C show ?thesis
    by blast
qed

theorem strided_tensor_payload_counterexample:
  "SendPackedSeq (StreamChannel no_wr no_nb) ffi_TypeIndex [AnyDLTensorPtr strided_tensor] False []
     = Inl (ThrowError kInvalidDLTensorFieldStride,
            [1, 0, 0, 0, 7, 0, 0, 0,
             0, 16, 0, 0, 0, 0, 0, 0, 2, 0, 0, 0, 0, 0, 0, 0, 2, 0, 0, 0, 2, 32, 1, 0,
             3, 0, 0, 0, 0, 0, 0, 0, 4, 0, 0, 0, 0, 0, 0, 0])"
  by (simp add: SendPackedSeq_def SendDLTensor_def StreamChannel_def ffi_TypeIndex_def
        strided_tensor_def example_tensor_def bytes_i32_def bytes_u64_def bytes_DLDevice_def
        bytes_DLDataType_def bytes_i64_array_def le_bytes_numeral)

theorem encoder_domain_restriction_witness:
  "\<exists>bs. SendPackedSeq (StreamChannel no_wr no_nb) ffi_TypeIndex
           [AnyInt 1, AnyNDArray 5, AnyInt 2] False []
     = Inl (ThrowError kInvalidTypeCodeNDArray, [3, 0, 0, 0] @ bs @ [70, 0, 0, 0])"
proof -
  have "[AnyInt 1, AnyNDArray 5, AnyInt 2] = [AnyInt 1] @ AnyNDArray 5 # [AnyInt 2 :: unit TVMFFIAny]
      \<and> list_all (\<lambda>u. rejected no_wr False u = None) [AnyInt 1 :: unit TVMFFIAny]
      \<and> rejected no_wr False (AnyNDArray 5 :: unit TVMFFIAny) = Some (ThrowError kInvalidTypeCodeNDArray)"
    by simp
  with encoder_domain_restriction [of no_wr False "[AnyInt 1, AnyNDArray 5, AnyInt 2]" no_nb ffi_TypeIndex "[]"]
  obtain bs where
    "SendPackedSeq (StreamChannel no_wr no_nb) ffi_TypeIndex [AnyInt 1, AnyNDArray 5, AnyInt 2] False []
       = Inl (ThrowError kInvalidTypeCodeNDArray,
              [] @ bytes_i32 (of_nat (length [AnyInt 1, AnyNDArray 5, AnyInt 2 :: unit TVMFFIAny])) @ bs
                @ bytes_i32 (type_index ffi_TypeIndex (AnyNDArray 5 :: unit TVMFFIAny))
                @ written_before_throw (AnyNDArray 5 :: unit TVMFFIAny))"
    by blast
  then show ?thesis
    by (simp add: ffi_TypeIndex_def bytes_i32_def le_bytes_numeral)
qed

text \<open>
  C2. Packet framing on a stream channel with a consistent object codec.
  \<^verbatim>\<open>ReturnPackedSeq\<close> returns for every sequence of representable values, and whenever it
  returns it has appended exactly one packet \<^verbatim>\<open>[u64 total_length][kReturn][payload]\<close>,
  whose payload is what \<^verbatim>\<open>SendPackedSeq\<close> writes for the same arguments and whose size
  is what \<^verbatim>\<open>PackedSeqGetNumBytes\<close> computed beforehand. \<^verbatim>\<open>ReturnException\<close> appends one
  packet with code \<^verbatim>\<open>kException\<close> holding one raw string, \<^verbatim>\<open>ReturnVoid\<close> one packet with
  code \<^verbatim>\<open>kReturn\<close> holding one None value. In a packet the 64-bit prefix is the exact
  number of bytes after it.
\<close>

theorem packet_framing:
  assumes "sizes_agree wr nb"
  shows "(list_all (representable False) packed_args \<longrightarrow>
            (\<exists>buf'. ReturnPackedSeq (StreamChannel wr nb) ti packed_args buf = Inr buf'))
       \<and> (\<forall>buf'. ReturnPackedSeq (StreamChannel wr nb) ti packed_args buf = Inr buf' \<longrightarrow>
            (\<exists>payload.
               SendPackedSeq (StreamChannel wr nb) ti packed_args False [] = Inr payload \<and>
               PackedSeqGetNumBytes (StreamChannel wr nb) ti packed_args False
                 = Inr (of_nat (length payload)) \<and>
               buf' = buf @ packet kReturn payload))
       \<and> (0 \<notin> set msg \<and> length msg < 2 ^ 64 \<longrightarrow>
            ReturnException (StreamChannel wr nb) ti msg buf
              = buf @ packet kException (bytes_i32 1 @ bytes_i32 (kTVMFFIRawStr ti)
                        @ bytes_u64 (of_nat (length msg)) @ msg))
       \<and> ReturnVoid (StreamChannel wr nb) ti buf
            = buf @ packet kReturn (bytes_i32 1 @ bytes_i32 (kTVMFFINone ti))
       \<and> (4 + length payload < 2 ^ 64 \<longrightarrow>
            unat (le_word (take 8 (packet c payload)) :: uint64)
              = length (drop 8 (packet c payload)))"
proof (intro conjI impI allI)
  assume "list_all (representable False) packed_args"
  then show "\<exists>buf'. ReturnPackedSeq (StreamChannel wr nb) ti packed_args buf = Inr buf'"
    by (rule ReturnPackedSeq_representable)
next
  fix buf'
  assume "ReturnPackedSeq (StreamChannel wr nb) ti packed_args buf = Inr buf'"
  moreover from assms have
    "\<And>t obj k bs. nb t obj = Inr k \<Longrightarrow> wr t obj = Inr bs \<Longrightarrow> k = of_nat (length bs)"
    by (simp add: sizes_agree_def)
  ultimately show "\<exists>payload.
     SendPackedSeq (StreamChannel wr nb) ti packed_args False [] = Inr payload \<and>
     PackedSeqGetNumBytes (StreamChannel wr nb) ti packed_args False
       = Inr (of_nat (length payload)) \<and>
     buf' = buf @ packet kReturn payload"
    using ReturnPackedSeq_packet [of packed_args nb wr ti buf buf'] by blast
next
  assume "0 \<notin> set msg \<and> length msg < 2 ^ 64"
  then show "ReturnException (StreamChannel wr nb) ti msg buf
      = buf @ packet kException (bytes_i32 1 @ bytes_i32 (kTVMFFIRawStr ti)
                @ bytes_u64 (of_nat (length msg)) @ msg)"
    by (simp add: ReturnException_packet)
next
  show "ReturnVoid (StreamChannel wr nb) ti buf
      = buf @ packet kReturn (bytes_i32 1 @ bytes_i32 (kTVMFFINone ti))"
    by (rule ReturnVoid_packet)
next
  assume "4 + length payload < 2 ^ 64"
  then show "unat (le_word (take 8 (packet c payload)) :: uint64)
      = length (drop 8 (packet c payload))"
    by (rule packet_length_prefix)
qed

theorem packet_framing_witness:
  "(\<exists>payload.
      SendPackedSeq (StreamChannel no_wr no_nb) ffi_TypeIndex example_args False [] = Inr payload \<and>
      PackedSeqGetNumBytes (StreamChannel no_wr no_nb) ffi_TypeIndex example_args False
        = Inr (of_nat (length payload)) \<and>
      ReturnPackedSeq (StreamChannel no_wr no_nb) ffi_TypeIndex example_args [9]
        = Inr ([9] @ packet kReturn payload))
   \<and> ReturnException (StreamChannel no_wr no_nb) ffi_TypeIndex [101, 114, 114] [9]
        = [9] @ packet kException (bytes_i32 1 @ bytes_i32 8 @ bytes_u64 3 @ [101, 114, 114])
   \<and> unat (le_word (take 8 (packet kReturn [1, 2, 3])) :: uint64)
        = length (drop 8 (packet kReturn [1, 2, 3]))"
proof -
  have c: "sizes_agree no_wr no_nb"
    by (simp add: sizes_agree_def no_nb_def)
  note f = packet_framing [OF c, of example_args ffi_TypeIndex "[9]" "[101, 114, 114]"
      "[1, 2, 3]" kReturn]
  have r: "list_all (representable False) example_args"
    by (simp add: example_args_def example_tensor_def)
  from f r obtain buf' where
    b: "ReturnPackedSeq (StreamChannel no_wr no_nb) ffi_TypeIndex example_args [9] = Inr buf'"
    by blast
  with f obtain payload where
    "SendPackedSeq (StreamChannel no_wr no_nb) ffi_TypeIndex example_args False [] = Inr payload"
    "PackedSeqGetNumBytes (StreamChannel no_wr no_nb) ffi_TypeIndex example_args False
       = Inr (of_nat (length payload))"
    "buf' = [9] @ packet kReturn payload"
    by blast
  with b have 1: "\<exists>payload.
      SendPackedSeq (StreamChannel no_wr no_nb) ffi_TypeIndex example_args False [] = Inr payload \<and>
      PackedSeqGetNumBytes (StreamChannel no_wr no_nb) ffi_TypeIndex example_args False
        = Inr (of_nat (length payload)) \<and>
      ReturnPackedSeq (StreamChannel no_wr no_nb) ffi_TypeIndex example_args [9]
        = Inr ([9] @ packet kReturn payload)"
    by blast
  from f have 2: "ReturnException (StreamChannel no_wr no_nb) ffi_TypeIndex [101, 114, 114] [9]
        = [9] @ packet kException (bytes_i32 1 @ bytes_i32 8 @ bytes_u64 3 @ [101, 114, 114])"
    by (simp add: ffi_TypeIndex_def)
  from f have 3: "unat (le_word (take 8 (packet kReturn [1, 2, 3])) :: uint64)
        = length (drop 8 (packet kReturn [1, 2, 3]))"
    by simp
  from 1 2 3 show ?thesis
    by blast
qed

text \<open>
  C3. First-in first-out, exactly-once delivery on one \<^verbatim>\<open>DiscoThreadedMessageQueue\<close>,
  started empty. (1) After the \<^verbatim>\<open>Send\<close>s of \<open>N\<close> sendable sequences, \<open>N\<close> \<^verbatim>\<open>Recv\<close>s return
  exactly these sequences in the order sent, and leave the ring buffer empty and
  \<^verbatim>\<open>msg_cnt_\<close> zero. (2) The same for every interleaving of \<^verbatim>\<open>Send\<close>s and \<^verbatim>\<open>Recv\<close>s in
  which no \<^verbatim>\<open>Recv\<close> has to wait: the \<^verbatim>\<open>Recv\<close>s return what the first-in first-out list
  returns, and the queue holds the packets of what is still pending. (3) One \<^verbatim>\<open>Recv\<close>
  dequeues exactly one packet: the read buffer then holds the command code and the
  payload of the oldest sequence and nothing else, the decoder has read all of it, and
  the packets of the other sequences stay in the ring buffer. \<open>N\<close> is below \<open>2^31\<close>,
  the range of the 32-bit \<^verbatim>\<open>msg_cnt_\<close>.
\<close>

theorem fifo_exactly_once:
  assumes "distinct (case_labels ti)"
  shows "(list_all (sendable ti wr nb) xss \<and> length xss < 2 ^ 31 \<longrightarrow>
            (\<exists>q. run_queue ti wr nb rd (map SendEvent xss @ replicate (length xss) RecvEvent)
                    empty_queue = Some (Inr (xss, q)) \<and>
                  ring_buffer q = [] \<and> msg_cnt q = 0))
       \<and> (list_all (sendable ti wr nb) (sent evs) \<and> length (sent evs) < 2 ^ 31 \<and>
            fifo evs [] = Some (out, pending) \<longrightarrow>
            (\<exists>q. run_queue ti wr nb rd evs empty_queue = Some (Inr (out, q)) \<and>
                  queue_holds ti wr nb q pending))
       \<and> (sendable ti wr nb args \<and> queue_holds ti wr nb q0 (args # others) \<and>
            Suc (length others) < 2 ^ 31 \<longrightarrow>
            (\<exists>q. Recv ti rd q0 = Some (Inr (args, q)) \<and>
                  read_buffer q = bytes_i32 (RPCCode_int kReturn) @ encode ti wr nb args \<and>
                  read_offset q = length (read_buffer q) \<and>
                  queue_holds ti wr nb q others))"
proof (intro conjI impI)
  have e: "queue_holds ti wr nb empty_queue []"
    by (simp add: queue_holds_def empty_queue_def)
  {
    assume a: "list_all (sendable ti wr nb) xss \<and> length xss < 2 ^ 31"
    let ?evs = "map SendEvent xss @ replicate (length xss) RecvEvent"
    have f: "fifo ?evs [] = Some (xss, [])"
      by (simp add: fifo_sends fifo_recvs)
    from a have "list_all (sendable ti wr nb) (sent ?evs)" "length [] + length (sent ?evs) < 2 ^ 31"
      by simp_all
    from run_queue_fifo [OF assms this(1) _ e this(2) f, of rd]
    show "\<exists>q. run_queue ti wr nb rd ?evs empty_queue = Some (Inr (xss, q)) \<and>
               ring_buffer q = [] \<and> msg_cnt q = 0"
      by (auto simp: queue_holds_def)
  }
  {
    assume a: "list_all (sendable ti wr nb) (sent evs) \<and> length (sent evs) < 2 ^ 31 \<and>
               fifo evs [] = Some (out, pending)"
    then have "list_all (sendable ti wr nb) (sent evs)" "length [] + length (sent evs) < 2 ^ 31"
      "fifo evs [] = Some (out, pending)"
      by simp_all
    from run_queue_fifo [OF assms this(1) _ e this(2,3), of rd]
    show "\<exists>q. run_queue ti wr nb rd evs empty_queue = Some (Inr (out, q)) \<and>
               queue_holds ti wr nb q pending"
      by simp
  }
  {
    assume a: "sendable ti wr nb args \<and> queue_holds ti wr nb q0 (args # others) \<and>
               Suc (length others) < 2 ^ 31"
    then have s: "sendable ti wr nb args" and h: "queue_holds ti wr nb q0 (args # others)"
      and n: "Suc (length others) < 2 ^ 31"
      by simp_all
    from n have "sint (of_nat (Suc (length others)) :: int32) = int (Suc (length others))"
      by (rule sint_of_nat_len31)
    with h have pos: "0 <s msg_cnt q0"
      by (simp add: queue_holds_def word_sless_alt)
    from h have ring: "ring_buffer q0 = frame ti wr nb args @ concat (map (frame ti wr nb) others)"
      by (simp add: queue_holds_def)
    from Recv_head [OF assms s ring pos, of rd] h
    show "\<exists>q. Recv ti rd q0 = Some (Inr (args, q)) \<and>
               read_buffer q = bytes_i32 (RPCCode_int kReturn) @ encode ti wr nb args \<and>
               read_offset q = length (read_buffer q) \<and>
               queue_holds ti wr nb q others"
      by (simp add: queue_holds_def)
  }
qed

theorem fifo_exactly_once_witness:
  "\<exists>q. run_queue ffi_TypeIndex no_wr no_nb no_rd
          [SendEvent example_args, SendEvent [], RecvEvent, SendEvent [AnyInt 7], RecvEvent,
           RecvEvent] empty_queue
        = Some (Inr ([example_args, [], [AnyInt 7]], q)) \<and>
        ring_buffer q = [] \<and> msg_cnt q = 0"
proof -
  let ?evs = "[SendEvent example_args, SendEvent [], RecvEvent, SendEvent [AnyInt 7], RecvEvent,
               RecvEvent :: unit queue_event]"
  have d: "distinct (case_labels ffi_TypeIndex)"
    by (simp add: case_labels_def ffi_TypeIndex_def)
  have s: "list_all (sendable ffi_TypeIndex no_wr no_nb) (sent ?evs)"
    by (simp add: sendable_example_args sendable_Nil sendable_Int)
  have n: "length (sent ?evs) < 2 ^ 31"
    by simp
  have f: "fifo ?evs [] = Some ([example_args, [], [AnyInt 7]], [])"
    by simp
  from fifo_exactly_once [OF d, of no_wr no_nb _ no_rd ?evs "[example_args, [], [AnyInt 7]]" "[]"]
    s n f
  obtain q where "run_queue ffi_TypeIndex no_wr no_nb no_rd ?evs empty_queue
                    = Some (Inr ([example_args, [], [AnyInt 7]], q))"
    and "queue_holds ffi_TypeIndex no_wr no_nb q []"
    by blast
  then show ?thesis
    by (auto simp: queue_holds_def)
qed

text \<open>
  C5. Topology validation. For a group count other than zero (and apart from the
  undefined \<^verbatim>\<open>INT_MIN % -1\<close>), \<^verbatim>\<open>Session::ThreadedSession\<close> fails its \<^verbatim>\<open>CHECK_EQ\<close> when
  \<^verbatim>\<open>num_workers % num_group\<close> is not zero, and otherwise constructs the session.

  \<^item> Worker \<open>i\<close> of the constructed session has the id \<open>i\<close> and the two counts. The
    session is one node: the id divided by the number of workers is 0. With a positive
    group count, the group id of worker \<open>i\<close> is \<open>i\<close> divided by the size of a group, and
    lies between 0 and the group count.
  \<^item> So 6 workers in 4 groups fail, and 6 workers in 3 groups give the workers 0 to 5,
    all of node 0, in the groups 0, 0, 1, 1, 2, 2.
  \<^item> When a threaded session of \<open>wpn\<close> workers is the local session of node \<open>node_id\<close>
    of a socket session of \<open>nn\<close> nodes whose worker ids fit the 32 bits,
    \<^verbatim>\<open>socket_session_init_workers\<close> gives its worker \<open>i\<close> the global id
    \<open>i + node_id * wpn\<close>, the worker count \<open>nn * wpn\<close> and the group count of the socket
    session. The quotient of the global id by \<open>wpn\<close> is the node id, and the relay's
    subtraction gives back \<open>i\<close>.
\<close>

theorem topology_validation:
  "(num_group \<noteq> 0 \<and> \<not> (n = - (2 ^ 31) \<and> num_group = - 1) \<longrightarrow>
      (n smod num_group \<noteq> 0 \<longrightarrow>
         (ThreadedSession n num_group :: error + ('v, 'cmd) ThreadedSessionObj) = Inl CheckFailed) \<and>
      (n smod num_group = 0 \<longrightarrow>
         (\<exists>s :: ('v, 'cmd) ThreadedSessionObj.
            ThreadedSession n num_group = Inr s \<and> GetNumWorkers s = int (nat n) \<and>
            (\<forall>i < nat n.
               worker (workers s ! i)
                 = \<lparr>worker_id = int i, num_workers = n, num_groups = num_group,
                    register_file = []\<rparr> \<and>
               worker_id (worker (workers s ! i)) sdiv GetNumWorkers s = 0 \<and>
               (0 < num_group \<longrightarrow>
                  group_id (worker (workers s ! i)) = int i div (n div num_group) \<and>
                  0 \<le> group_id (worker (workers s ! i)) \<and>
                  group_id (worker (workers s ! i)) < num_group)))))
   \<and> (ThreadedSession 6 4 :: error + ('v, 'cmd) ThreadedSessionObj) = Inl CheckFailed
   \<and> (\<exists>s :: ('v, 'cmd) ThreadedSessionObj.
        ThreadedSession 6 3 = Inr s \<and> GetNumWorkers s = 6 \<and>
        map (\<lambda>t. (worker_id (worker t), num_workers (worker t), num_groups (worker t),
                  worker_id (worker t) sdiv GetNumWorkers s, group_id (worker t))) (workers s)
          = [(0, 6, 3, 0, 0), (1, 6, 3, 0, 0), (2, 6, 3, 0, 1), (3, 6, 3, 0, 1),
             (4, 6, 3, 0, 2), (5, 6, 3, 0, 2)])
   \<and> (0 \<le> node_id \<and> node_id < nn \<and> nn * wpn < 2 ^ 31 \<and>
      (ThreadedSession wpn g0 :: error + ('v, 'cmd) ThreadedSessionObj) = Inr ls \<and> i < nat wpn \<longrightarrow>
        socket_session_init_workers nn node_id ng wpn (worker (workers ls ! i))
          = \<lparr>worker_id = int i + node_id * wpn, num_workers = nn * wpn, num_groups = ng,
             register_file = []\<rparr> \<and>
        worker_id (socket_session_init_workers nn node_id ng wpn (worker (workers ls ! i))) sdiv wpn
          = node_id \<and>
        worker_id (socket_session_init_workers nn node_id ng wpn (worker (workers ls ! i)))
          - node_id * wpn = int i)"
proof -
  have 1: "(ThreadedSession n num_group :: error + ('v, 'cmd) ThreadedSessionObj) = Inl CheckFailed"
    if "num_group \<noteq> 0 \<and> \<not> (n = - (2 ^ 31) \<and> num_group = - 1)" "n smod num_group \<noteq> 0"
    using that by (simp add: ThreadedSession_def)
  have 2: "\<exists>s :: ('v, 'cmd) ThreadedSessionObj.
            ThreadedSession n num_group = Inr s \<and> GetNumWorkers s = int (nat n) \<and>
            (\<forall>i < nat n.
               worker (workers s ! i)
                 = \<lparr>worker_id = int i, num_workers = n, num_groups = num_group,
                    register_file = []\<rparr> \<and>
               worker_id (worker (workers s ! i)) sdiv GetNumWorkers s = 0 \<and>
               (0 < num_group \<longrightarrow>
                  group_id (worker (workers s ! i)) = int i div (n div num_group) \<and>
                  0 \<le> group_id (worker (workers s ! i)) \<and>
                  group_id (worker (workers s ! i)) < num_group))"
    if a: "num_group \<noteq> 0 \<and> \<not> (n = - (2 ^ 31) \<and> num_group = - 1)" and m: "n smod num_group = 0"
  proof -
    let ?s = "new_ThreadedSessionObj n num_group :: ('v, 'cmd) ThreadedSessionObj"
    from a m have c: "(ThreadedSession n num_group :: error + ('v, 'cmd) ThreadedSessionObj) = Inr ?s"
      by (simp add: ThreadedSession_def)
    have l: "GetNumWorkers ?s = int (nat n)"
      by (simp add: GetNumWorkers_def new_ThreadedSessionObj_workers)
    have w: "worker (workers ?s ! i)
                 = \<lparr>worker_id = int i, num_workers = n, num_groups = num_group,
                    register_file = []\<rparr>" if "i < nat n" for i
      using that by (rule new_ThreadedSessionObj_workers)
    have nd: "worker_id (worker (workers ?s ! i)) sdiv GetNumWorkers ?s = 0" if "i < nat n" for i
    proof -
      from that have "0 < n" "int i < n"
        by simp_all
      then have "int i sdiv n = int i div n"
        by (simp add: sdiv_nonneg)
      also have "\<dots> = 0"
        using \<open>int i < n\<close> by simp
      finally show ?thesis
        using \<open>0 < n\<close> by (simp add: w [OF that] l)
    qed
    have g: "group_id (worker (workers ?s ! i)) = int i div (n div num_group) \<and>
                  0 \<le> group_id (worker (workers ?s ! i)) \<and>
                  group_id (worker (workers ?s ! i)) < num_group"
      if "i < nat n" "0 < num_group" for i
    proof -
      from that have p: "0 < n" "0 \<le> int i" "int i < n"
        by simp_all
      note r = group_id_range [OF that(2) p(1) m p(2,3)]
      have "group_id (worker (workers ?s ! i)) = int i sdiv (n sdiv num_group)"
        by (simp add: group_id_def workers_per_group_def w [OF that(1)])
      with r show ?thesis
        by simp
    qed
    from c l w nd g show ?thesis
      by (intro exI [where x = ?s]) blast
  qed
  have 3: "(ThreadedSession 6 4 :: error + ('v, 'cmd) ThreadedSessionObj) = Inl CheckFailed"
    by (simp add: ThreadedSession_def signed_modulo_int_def)
  have u: "[0..<6] = [0, 1, 2, 3, 4, 5]"
    by (simp add: upt_rec)
  have d: "(6::int) sdiv 3 = 2" "(0::int) sdiv 2 = 0" "(1::int) sdiv 2 = 0" "(2::int) sdiv 2 = 1"
    "(3::int) sdiv 2 = 1" "(4::int) sdiv 2 = 2" "(5::int) sdiv 2 = 2"
    "(0::int) sdiv 6 = 0" "(1::int) sdiv 6 = 0" "(2::int) sdiv 6 = 0"
    "(3::int) sdiv 6 = 0" "(4::int) sdiv 6 = 0" "(5::int) sdiv 6 = 0"
    by (simp_all add: signed_divide_int_def)
  have 4: "\<exists>s :: ('v, 'cmd) ThreadedSessionObj.
        ThreadedSession 6 3 = Inr s \<and> GetNumWorkers s = 6 \<and>
        map (\<lambda>t. (worker_id (worker t), num_workers (worker t), num_groups (worker t),
                  worker_id (worker t) sdiv GetNumWorkers s, group_id (worker t))) (workers s)
          = [(0, 6, 3, 0, 0), (1, 6, 3, 0, 0), (2, 6, 3, 0, 1), (3, 6, 3, 0, 1),
             (4, 6, 3, 0, 2), (5, 6, 3, 0, 2)]"
    by (simp add: ThreadedSession_def signed_modulo_int_def GetNumWorkers_def
          new_ThreadedSessionObj_def new_DiscoWorkerThread_def u group_id_def
          workers_per_group_def d o_def)
  have 5: "socket_session_init_workers nn node_id ng wpn (worker (workers ls ! i))
          = \<lparr>worker_id = int i + node_id * wpn, num_workers = nn * wpn, num_groups = ng,
             register_file = []\<rparr> \<and>
        worker_id (socket_session_init_workers nn node_id ng wpn (worker (workers ls ! i))) sdiv wpn
          = node_id \<and>
        worker_id (socket_session_init_workers nn node_id ng wpn (worker (workers ls ! i)))
          - node_id * wpn = int i"
    if h: "0 \<le> node_id \<and> node_id < nn \<and> nn * wpn < 2 ^ 31 \<and>
      (ThreadedSession wpn g0 :: error + ('v, 'cmd) ThreadedSessionObj) = Inr ls \<and> i < nat wpn"
  proof -
    from h have ls: "ls = new_ThreadedSessionObj wpn g0"
      by (simp add: ThreadedSession_def split: if_splits)
    from h have i: "i < nat wpn"
      by simp
    then have "0 < wpn"
      by linarith
    with h have p: "0 < wpn" "0 \<le> nn" "node_id + 1 \<le> nn" "0 \<le> node_id"
      by simp_all
    let ?w = "worker (workers ls ! i)"
    have w: "?w = \<lparr>worker_id = int i, num_workers = wpn, num_groups = g0, register_file = []\<rparr>"
      unfolding ls using i by (rule new_ThreadedSessionObj_workers)
    from p have "(node_id + 1) * wpn \<le> nn * wpn"
      by (simp add: mult_right_mono)
    with h have b: "(node_id + 1) * wpn \<le> 2 ^ 31"
      by linarith
    have wi: "0 \<le> worker_id ?w" "worker_id ?w < wpn"
      using i by (simp_all add: w)
    note gid = init_workers_global_id [OF p(4) wi b, of nn ng]
    note nid = init_workers_node_id [OF p(4) wi b, of nn ng]
    from h p have cnt: "num_workers (socket_session_init_workers nn node_id ng wpn ?w) = nn * wpn"
      by (intro init_workers_counts) simp_all
    have grp: "num_groups (socket_session_init_workers nn node_id ng wpn ?w) = ng"
      by (rule init_workers_counts)
    have rf: "register_file (socket_session_init_workers nn node_id ng wpn ?w) = []"
      by (simp add: socket_session_init_workers_def w)
    have "socket_session_init_workers nn node_id ng wpn ?w
          = \<lparr>worker_id = int i + node_id * wpn, num_workers = nn * wpn, num_groups = ng,
             register_file = []\<rparr>"
      using gid cnt grp rf by (simp add: w)
    with nid show ?thesis
      by (simp add: w)
  qed
  from 1 2 3 4 5 show ?thesis
    by blast
qed


theorem topology_validation_witness:
  "(ThreadedSession 7 2 :: error + (unit, unit) ThreadedSessionObj) = Inl CheckFailed
   \<and> (\<exists>s :: (unit, unit) ThreadedSessionObj.
        ThreadedSession 8 4 = Inr s \<and> GetNumWorkers s = 8 \<and>
        worker (workers s ! 5)
          = \<lparr>worker_id = 5, num_workers = 8, num_groups = 4, register_file = []\<rparr> \<and>
        group_id (worker (workers s ! 5)) = 2)
   \<and> (\<exists>ls :: (unit, unit) ThreadedSessionObj.
        ThreadedSession 3 1 = Inr ls \<and>
        socket_session_init_workers 2 1 3 3 (worker (workers ls ! 2))
          = \<lparr>worker_id = 5, num_workers = 6, num_groups = 3, register_file = []\<rparr> \<and>
        worker_id (socket_session_init_workers 2 1 3 3 (worker (workers ls ! 2))) sdiv 3 = 1 \<and>
        group_id (socket_session_init_workers 2 1 3 3 (worker (workers ls ! 2))) = 2)"
proof -
  let ?ls = "new_ThreadedSessionObj 3 1 :: (unit, unit) ThreadedSessionObj"
  have c: "(ThreadedSession 3 1 :: error + (unit, unit) ThreadedSessionObj) = Inr ?ls"
    by (simp add: ThreadedSession_def signed_modulo_int_def)
  note t7 = topology_validation [where 'v = unit and 'cmd = unit and n = 7 and num_group = 2
      and node_id = 1 and nn = 2 and wpn = 3 and ng = 3 and ?g0.0 = 1 and ls = ?ls and i = 2]
  note t8 = topology_validation [where 'v = unit and 'cmd = unit and n = 8 and num_group = 4
      and node_id = 1 and nn = 2 and wpn = 3 and ng = 3 and ?g0.0 = 1 and ls = ?ls and i = 2]
  have 1: "(ThreadedSession 7 2 :: error + (unit, unit) ThreadedSessionObj) = Inl CheckFailed"
    using t7 by (simp add: signed_modulo_int_def)
  have "\<exists>s :: (unit, unit) ThreadedSessionObj.
          ThreadedSession 8 4 = Inr s \<and> GetNumWorkers s = int (nat 8) \<and>
          (\<forall>i < nat 8.
             worker (workers s ! i)
               = \<lparr>worker_id = int i, num_workers = 8, num_groups = 4, register_file = []\<rparr> \<and>
             worker_id (worker (workers s ! i)) sdiv GetNumWorkers s = 0 \<and>
             (0 < (4::int) \<longrightarrow>
                group_id (worker (workers s ! i)) = int i div (8 div 4) \<and>
                0 \<le> group_id (worker (workers s ! i)) \<and>
                group_id (worker (workers s ! i)) < 4))"
    using t8 by (simp add: signed_modulo_int_def)
  then obtain s :: "(unit, unit) ThreadedSessionObj" where
    s: "ThreadedSession 8 4 = Inr s" "GetNumWorkers s = int (nat 8)"
    "\<forall>i < nat 8.
       worker (workers s ! i)
         = \<lparr>worker_id = int i, num_workers = 8, num_groups = 4, register_file = []\<rparr> \<and>
       worker_id (worker (workers s ! i)) sdiv GetNumWorkers s = 0 \<and>
       (0 < (4::int) \<longrightarrow>
          group_id (worker (workers s ! i)) = int i div (8 div 4) \<and>
          0 \<le> group_id (worker (workers s ! i)) \<and>
          group_id (worker (workers s ! i)) < 4)"
    by blast
  have "(5::nat) < nat 8"
    by simp
  with s(3) have "worker (workers s ! 5)
         = \<lparr>worker_id = int 5, num_workers = 8, num_groups = 4, register_file = []\<rparr> \<and>
       worker_id (worker (workers s ! 5)) sdiv GetNumWorkers s = 0 \<and>
       (0 < (4::int) \<longrightarrow>
          group_id (worker (workers s ! 5)) = int 5 div (8 div 4) \<and>
          0 \<le> group_id (worker (workers s ! 5)) \<and>
          group_id (worker (workers s ! 5)) < 4)"
    by blast
  then have "worker (workers s ! 5)
          = \<lparr>worker_id = int 5, num_workers = 8, num_groups = 4, register_file = []\<rparr>"
    and "0 < (4::int) \<longrightarrow>
          group_id (worker (workers s ! 5)) = int 5 div (8 div 4) \<and>
          0 \<le> group_id (worker (workers s ! 5)) \<and>
          group_id (worker (workers s ! 5)) < 4"
    by blast+
  then have "worker (workers s ! 5)
          = \<lparr>worker_id = 5, num_workers = 8, num_groups = 4, register_file = []\<rparr>"
    and "group_id (worker (workers s ! 5)) = 2"
    by simp_all
  with s(1,2) have 2: "\<exists>s :: (unit, unit) ThreadedSessionObj.
        ThreadedSession 8 4 = Inr s \<and> GetNumWorkers s = 8 \<and>
        worker (workers s ! 5)
          = \<lparr>worker_id = 5, num_workers = 8, num_groups = 4, register_file = []\<rparr> \<and>
        group_id (worker (workers s ! 5)) = 2"
    by (intro exI [where x = s]) simp
  from t7 c have i: "socket_session_init_workers 2 1 3 3 (worker (workers ?ls ! 2))
          = \<lparr>worker_id = 5, num_workers = 6, num_groups = 3, register_file = []\<rparr> \<and>
        worker_id (socket_session_init_workers 2 1 3 3 (worker (workers ?ls ! 2))) sdiv 3 = 1"
    by simp
  have "(6::int) sdiv 3 = 2" "(5::int) sdiv 2 = 2"
    by (simp_all add: signed_divide_int_def)
  with i have "group_id (socket_session_init_workers 2 1 3 3 (worker (workers ?ls ! 2))) = 2"
    by (simp add: group_id_def workers_per_group_def)
  with i c have 3: "\<exists>ls :: (unit, unit) ThreadedSessionObj.
        ThreadedSession 3 1 = Inr ls \<and>
        socket_session_init_workers 2 1 3 3 (worker (workers ls ! 2))
          = \<lparr>worker_id = 5, num_workers = 6, num_groups = 3, register_file = []\<rparr> \<and>
        worker_id (socket_session_init_workers 2 1 3 3 (worker (workers ls ! 2))) sdiv 3 = 1 \<and>
        group_id (socket_session_init_workers 2 1 3 3 (worker (workers ls ! 2))) = 2"
    by (intro exI [where x = ?ls]) simp
  from 1 2 3 show ?thesis
    by blast
qed

text \<open>
  C9. Register-file consistency through the sync barrier. On a threaded session in any
  state, also with commands still queued to the worker, let \<^verbatim>\<open>DebugSetRegister\<close> store
  \<open>X\<close> under \<open>reg_id\<close> at worker \<open>wid\<close>, and let any commands then be sent to any workers.

  \<^item> \<^verbatim>\<open>DebugSetRegister\<close> first runs the barrier: the worker has executed every command
    that was queued to it, in order, before the register is overwritten, and nothing
    is left pending.
  \<^item> \<^verbatim>\<open>DebugGetFromRemote\<close> first runs the barrier as well: the worker has executed the
    commands sent to it since, in order, when the register is read, the value returned
    is the one stashed after them, and the session is left with that worker drained.
  \<^item> So when the commands sent to \<open>wid\<close> in between leave that register alone,
    \<^verbatim>\<open>DebugGetFromRemote\<close> returns \<open>X\<close>; a command that writes the register in between is
    seen by the read.
\<close>

theorem register_file_consistency:
  assumes "DebugSetRegister exec reg_id X wid s = Inr s1"
    and "SendPacked_all sends s1 = Inr s2"
  shows "workers s1 ! nat wid
           = \<lparr>worker = (fold exec (queued (workers s ! nat wid)) (worker (workers s ! nat wid)))
                \<lparr>register_file :=
                   (register_file (fold exec (queued (workers s ! nat wid))
                      (worker (workers s ! nat wid))))[nat reg_id := X]\<rparr>,
              queued = []\<rparr>
       \<and> DebugGetFromRemote exec reg_id wid s2
           = (case register_file_at
                     (fold exec (map snd (filter (\<lambda>p. fst p = wid) sends))
                        (worker (workers s1 ! nat wid))) reg_id of
                Inl e \<Rightarrow> Inl e
              | Inr v \<Rightarrow>
                  Inr (v, s2\<lparr>workers := (workers s2)[nat wid :=
                             \<lparr>worker = fold exec (map snd (filter (\<lambda>p. fst p = wid) sends))
                                         (worker (workers s1 ! nat wid)),
                              queued = []\<rparr>]\<rparr>))
       \<and> (list_all (leaves_register exec reg_id) (map snd (filter (\<lambda>p. fst p = wid) sends)) \<longrightarrow>
          DebugGetFromRemote exec reg_id wid s2
           = Inr (X, s2\<lparr>workers := (workers s2)[nat wid :=
                        \<lparr>worker = fold exec (map snd (filter (\<lambda>p. fst p = wid) sends))
                                    (worker (workers s1 ! nat wid)),
                         queued = []\<rparr>]\<rparr>))"
proof -
  let ?cs = "map snd (filter (\<lambda>p. fst p = wid) sends)"
  from assms(1) obtain s0 w w' where
    sync: "SyncWorker exec wid s = Inr s0" and at: "workers_at s0 wid = Inr w"
    and set: "SetRegister reg_id X (worker w) = Inr w'"
    and s1: "s1 = s0\<lparr>workers := (workers s0)[nat wid := w\<lparr>worker := w'\<rparr>]\<rparr>"
    by (auto simp: DebugSetRegister_def split: sum.splits)
  from sync have wid: "0 \<le> wid" "wid < int (length (workers s))"
    and s0: "s0 = s\<lparr>workers := (workers s)[nat wid := drain exec (workers s ! nat wid)]\<rparr>"
    by (auto simp: SyncWorker_def workers_at_def split: if_splits)
  from at wid s0 have w: "w = drain exec (workers s ! nat wid)"
    by (simp add: workers_at_def)
  from set have reg: "0 \<le> reg_id" "reg_id < int (length (register_file (worker w)))"
    and w': "w' = (worker w)\<lparr>register_file := (register_file (worker w))[nat reg_id := X]\<rparr>"
    by (auto simp: SetRegister_def split: if_splits)
  have len1: "length (workers s1) = length (workers s)"
    by (simp add: s1 s0)
  have w1: "workers s1 ! nat wid = w\<lparr>worker := w'\<rparr>"
    using wid by (simp add: s1 s0)
  have c1: "workers s1 ! nat wid
           = \<lparr>worker = (fold exec (queued (workers s ! nat wid)) (worker (workers s ! nat wid)))
                \<lparr>register_file :=
                   (register_file (fold exec (queued (workers s ! nat wid))
                      (worker (workers s ! nat wid))))[nat reg_id := X]\<rparr>,
              queued = []\<rparr>"
    by (simp add: w1 w' w drain_def)
  have ww: "worker (workers s1 ! nat wid) = w'"
    by (simp add: w1)
  from SendPacked_all_worker [OF wid(1) _ assms(2)] wid(2) len1 w1
  have len2: "length (workers s2) = length (workers s)"
    and w2: "workers s2 ! nat wid = (w\<lparr>worker := w'\<rparr>)\<lparr>queued := queued (w\<lparr>worker := w'\<rparr>) @ ?cs\<rparr>"
    by simp_all
  have q: "queued w = []"
    by (simp add: w drain_def)
  have d: "drain exec (workers s2 ! nat wid) = \<lparr>worker = fold exec ?cs w', queued = []\<rparr>"
    by (simp add: w2 drain_def q)
  let ?s3 = "s2\<lparr>workers := (workers s2)[nat wid := \<lparr>worker = fold exec ?cs w', queued = []\<rparr>]\<rparr>"
  have sync2: "SyncWorker exec wid s2 = Inr ?s3"
    using wid len2 by (simp add: SyncWorker_def workers_at_def d)
  have at3: "workers_at ?s3 wid = Inr \<lparr>worker = fold exec ?cs w', queued = []\<rparr>"
    using wid len2 by (simp add: workers_at_def)
  have c2: "DebugGetFromRemote exec reg_id wid s2
           = (case register_file_at (fold exec ?cs w') reg_id of
                Inl e \<Rightarrow> Inl e
              | Inr v \<Rightarrow> Inr (v, ?s3))"
    unfolding DebugGetFromRemote_def sync2 sum.case at3 by simp
  have c3: "DebugGetFromRemote exec reg_id wid s2 = Inr (X, ?s3)"
    if l: "list_all (leaves_register exec reg_id) ?cs"
  proof -
    have in_range: "reg_id < int (length (register_file w'))"
      using reg by (simp add: w')
    have val: "register_file w' ! nat reg_id = X"
      using reg by (simp add: w')
    from fold_leaves_register [OF l in_range] val
    have f: "reg_id < int (length (register_file (fold exec ?cs w')))"
      "register_file (fold exec ?cs w') ! nat reg_id = X"
      by simp_all
    then have "register_file_at (fold exec ?cs w') reg_id = Inr X"
      using reg(1) by (simp add: register_file_at_def)
    then show ?thesis
      unfolding c2 by simp
  qed
  from c1 c2 c3 show ?thesis
    unfolding ww by blast
qed


theorem register_file_consistency_witness:
  "\<exists>s1 s2 s3 s2' s3'.
     DebugSetRegister store_exec 3 42 2 example_session = Inr s1 \<and>
     register_file (worker (workers s1 ! 2)) = [0, 0, 0, 42] \<and> queued (workers s1 ! 2) = [] \<and>
     SendPacked_all [(2, (1, 5)), (0, (3, 7))] s1 = Inr s2 \<and>
     DebugGetFromRemote store_exec 3 2 s2 = Inr (42, s3) \<and>
     register_file (worker (workers s3 ! 2)) = [0, 5, 0, 42] \<and> queued (workers s3 ! 2) = [] \<and>
     SendPacked_all [(2, (3, 7))] s1 = Inr s2' \<and>
     DebugGetFromRemote store_exec 3 2 s2' = Inr (7, s3') \<and>
     register_file (worker (workers s3' ! 2)) = [0, 0, 0, 7] \<and> queued (workers s3' ! 2) = []"
proof -
  have "\<exists>s1. DebugSetRegister store_exec 3 42 2 example_session = Inr s1"
    by (simp add: DebugSetRegister_def SyncWorker_def workers_at_def example_session_def
          drain_def store_exec_def SetRegister_def)
  then obtain s1 where s1: "DebugSetRegister store_exec 3 42 2 example_session = Inr s1"
    by blast
  then have len: "length (workers s1) = 3"
    by (auto simp: DebugSetRegister_def SyncWorker_def workers_at_def example_session_def
          split: sum.splits if_splits)
  then have "\<exists>s2. SendPacked_all [(2, (1, 5)), (0, (3, 7))] s1 = Inr s2 \<and> length (workers s2) = 3"
    by (simp add: ThreadedSession_SendPacked_def workers_at_def)
  then obtain s2 where s2: "SendPacked_all [(2, (1, 5)), (0, (3, 7))] s1 = Inr s2"
    and len2: "length (workers s2) = 3"
    by blast
  from len have "\<exists>s2. SendPacked_all [(2, (3, 7))] s1 = Inr s2 \<and> length (workers s2) = 3"
    by (simp add: ThreadedSession_SendPacked_def workers_at_def)
  then obtain s2' where s2': "SendPacked_all [(2, (3, 7))] s1 = Inr s2'"
    and len2': "length (workers s2') = 3"
    by blast
  have n: "nat 2 = 2" "nat 3 = 3" "nat 1 = 1"
    by simp_all
  note a = register_file_consistency [OF s1 s2, unfolded n]
  note b = register_file_consistency [OF s1 s2', unfolded n]
  from a have w1: "workers s1 ! 2
      = \<lparr>worker = \<lparr>worker_id = 2, num_workers = 3, num_groups = 1, register_file = [0, 0, 0, 42]\<rparr>,
         queued = []\<rparr>"
    by (simp add: example_session_def store_exec_def)
  from a have ga: "DebugGetFromRemote store_exec 3 2 s2
      = Inr (42, s2\<lparr>workers := (workers s2)[2 :=
           \<lparr>worker = \<lparr>worker_id = 2, num_workers = 3, num_groups = 1, register_file = [0, 5, 0, 42]\<rparr>,
            queued = []\<rparr>]\<rparr>)"
    by (simp add: w1 store_exec_def register_file_at_def)
  from b have gb: "DebugGetFromRemote store_exec 3 2 s2'
      = Inr (7, s2'\<lparr>workers := (workers s2')[2 :=
           \<lparr>worker = \<lparr>worker_id = 2, num_workers = 3, num_groups = 1, register_file = [0, 0, 0, 7]\<rparr>,
            queued = []\<rparr>]\<rparr>)"
    by (simp add: w1 store_exec_def register_file_at_def)
  from s1 s2 s2' w1 ga gb len2 len2' show ?thesis
    by simp
qed

text \<open>
  C7, as the code has it. The constructor of the controller accepts one connection for
  each further node and at once sends the metadata through the channel of that
  connection: after it, the connection of node \<open>i + 1\<close> holds exactly one packet for the
  node and none for the controller, the packet
  \<^verbatim>\<open>[u64 length][kReturn][count 4]\<close> followed by the four numbers \<^verbatim>\<open>num_nodes\<close>,
  \<^verbatim>\<open>num_workers_per_node\<close>, \<^verbatim>\<open>num_groups\<close> and \<open>i + 1\<close>, each as the type index of Int and
  a native-endian 64-bit value. The constructor of the relay reads this packet first
  and takes the four numbers from it. The counterexample gives the 64 bytes on the wire
  for two nodes: they are not the four numbers alone, neither as 32-bit nor as 64-bit
  integers.
\<close>

theorem wire_handshake:
  assumes "distinct (case_labels (type_indices P))"
    and "0 \<le> nn" "nn < 2 ^ 31" "- (2 ^ 31) \<le> wpn" "wpn < 2 ^ 31"
    and "- (2 ^ 31) \<le> ng" "ng < 2 ^ 31"
    and "wpn \<le> num_local_workers"
    and "i < nat (nn - 1)"
  shows "\<exists>s. new_SocketSessionObj P nn wpn ng ls = Inr s \<and>
           length (network s) = nat (nn - 1) \<and>
           remote_channels s ! i = Connected i \<and>
           network s ! i = \<lparr>to_remote = [metadata_packet P nn wpn ng (int i + 1)],
                             to_controller = []\<rparr> \<and>
           new_RemoteSocketSession P num_local_workers rls (to_remote (network s ! i))
             = Some (Inr (\<lparr>relay_local_session = rls, relay_num_nodes = nn,
                            relay_node_id = int i + 1, relay_num_groups = ng,
                            relay_num_workers_per_node = wpn\<rparr>, []))"
proof -
  from assms(3,9) have nid: "- (2 ^ 31) \<le> int i + 1" "int i + 1 < 2 ^ 31"
    by linarith+
  from assms(2) have nn: "- (2 ^ 31) \<le> nn"
    by simp
  have r: "new_RemoteSocketSession P num_local_workers rls [metadata_packet P nn wpn ng (int i + 1)]
      = Some (Inr (\<lparr>relay_local_session = rls, relay_num_nodes = nn, relay_node_id = int i + 1,
                     relay_num_groups = ng, relay_num_workers_per_node = wpn\<rparr>, []))"
    by (rule new_RemoteSocketSession_metadata [OF assms(1) nn assms(3-7) nid assms(8)])
  show ?thesis
    using assms(9) r by (simp add: new_SocketSessionObj_result add.commute)
qed

theorem wire_handshake_witness:
  "\<exists>s. new_SocketSessionObj example_protocol 3 2 1 () = Inr s \<and>
     length (network s) = 2 \<and>
     network s ! 1 = \<lparr>to_remote = [metadata_packet example_protocol 3 2 1 2], to_controller = []\<rparr> \<and>
     new_RemoteSocketSession example_protocol 2 () (to_remote (network s ! 1))
       = Some (Inr (\<lparr>relay_local_session = (), relay_num_nodes = 3, relay_node_id = 2,
                      relay_num_groups = 1, relay_num_workers_per_node = 2\<rparr>, []))"
proof -
  have d: "distinct (case_labels (type_indices example_protocol))"
    by (simp add: example_protocol_def case_labels_def ffi_TypeIndex_def)
  from wire_handshake [OF d, of 3 2 1 2 1 "()" "()"]
  have "\<exists>s. new_SocketSessionObj example_protocol 3 2 1 () = Inr s \<and>
     length (network s) = 2 \<and> remote_channels s ! 1 = Connected 1 \<and>
     network s ! 1 = \<lparr>to_remote = [metadata_packet example_protocol 3 2 1 2], to_controller = []\<rparr> \<and>
     new_RemoteSocketSession example_protocol 2 () (to_remote (network s ! 1))
       = Some (Inr (\<lparr>relay_local_session = (), relay_num_nodes = 3, relay_node_id = 2,
                      relay_num_groups = 1, relay_num_workers_per_node = 2\<rparr>, []))"
    by simp
  then show ?thesis
    by blast
qed

theorem wire_handshake_counterexample:
  "new_SocketSessionObj example_protocol 2 2 1 ()
     = Inr \<lparr>num_nodes = 2, num_workers_per_node = 2, socket = Listening,
            remote_sockets = [Connected 0], remote_channels = [Connected 0], local_session = (),
            network =
              [\<lparr>to_remote =
                  [[56, 0, 0, 0, 0, 0, 0, 0, 4, 0, 0, 0, 4, 0, 0, 0,
                    1, 0, 0, 0, 2, 0, 0, 0, 0, 0, 0, 0, 1, 0, 0, 0, 2, 0, 0, 0, 0, 0, 0, 0,
                    1, 0, 0, 0, 1, 0, 0, 0, 0, 0, 0, 0, 1, 0, 0, 0, 1, 0, 0, 0, 0, 0, 0, 0]],
                to_controller = []\<rparr>]\<rparr>
   \<and> four_integers_32 2 2 1 1 = [2, 0, 0, 0, 2, 0, 0, 0, 1, 0, 0, 0, 1, 0, 0, 0]
   \<and> four_integers_64 2 2 1 1
       = [2, 0, 0, 0, 0, 0, 0, 0, 2, 0, 0, 0, 0, 0, 0, 0,
          1, 0, 0, 0, 0, 0, 0, 0, 1, 0, 0, 0, 0, 0, 0, 0]"
  by (simp add: new_SocketSessionObj_result metadata_packet_def packet_def example_protocol_def
        ffi_TypeIndex_def four_integers_32_def four_integers_64_def bytes_i32_def bytes_u64_def
        le_bytes_numeral)

text \<open>
  C8. Shutdown idempotence. Whenever \<^verbatim>\<open>Shutdown\<close> of a socket session returns, the lists of
  remote channels and remote sockets are empty and the listening socket is closed, and
  a second \<^verbatim>\<open>Shutdown\<close> (the call of the destructor after an explicit \<^verbatim>\<open>Shutdown\<close> is one)
  returns as well and leaves the whole state as it is: no shutdown command is sent
  again, and no socket is closed again, which in this model would be an error. For a
  session as its constructor leaves it, the first \<^verbatim>\<open>Shutdown\<close> returns.
\<close>

theorem shutdown_idempotent:
  "(SocketSession_Shutdown P s = Inr s1 \<longrightarrow>
      remote_channels s1 = [] \<and> remote_sockets s1 = [] \<and> IsClosed (socket s1) \<and>
      SocketSession_Shutdown P s1 = Inr s1)
   \<and> (new_SocketSessionObj P nn wpn ng ls = Inr s0 \<longrightarrow>
        (\<exists>s2. SocketSession_Shutdown P s0 = Inr s2 \<and> SocketSession_Shutdown P s2 = Inr s2))"
proof -
  have 1: "remote_channels s1 = [] \<and> remote_sockets s1 = [] \<and> IsClosed (socket s1) \<and>
      SocketSession_Shutdown P s1 = Inr s1" if "SocketSession_Shutdown P s = Inr s1"
    using that by (rule Shutdown_twice)
  have 2: "\<exists>s2. SocketSession_Shutdown P s0 = Inr s2 \<and> SocketSession_Shutdown P s2 = Inr s2"
    if "new_SocketSessionObj P nn wpn ng ls = Inr s0"
  proof -
    from Shutdown_constructed [OF that] obtain s2 where "SocketSession_Shutdown P s0 = Inr s2"
      by (rule exE)
    with Shutdown_twice [OF this] show ?thesis
      by blast
  qed
  from 1 2 show ?thesis
    by blast
qed

theorem shutdown_idempotent_witness:
  "\<exists>s0 s2. new_SocketSessionObj example_protocol 3 2 1 () = Inr s0 \<and>
     SocketSession_Shutdown example_protocol s0 = Inr s2 \<and>
     remote_channels s2 = [] \<and> remote_sockets s2 = [] \<and> IsClosed (socket s2) \<and>
     SocketSession_Shutdown example_protocol s2 = Inr s2"
proof -
  obtain s0 :: "unit SocketSessionObj" where
    s0: "new_SocketSessionObj example_protocol 3 2 1 () = Inr s0"
    by (simp add: new_SocketSessionObj_result)
  with shutdown_idempotent [of example_protocol s0 _ 3 2 1 "()" s0]
  obtain s2 where s2: "SocketSession_Shutdown example_protocol s0 = Inr s2"
    by blast
  with shutdown_idempotent [of example_protocol s0 s2 3 2 1 "()" s0] s0
  show ?thesis
    by blast
qed

text \<open>
  C4. Socket relay, end to end. The controller routes by the node id
  \<^verbatim>\<open>worker_id / num_workers_per_node\<close>. For a worker of a remote node, whose connection is
  idle, \<^verbatim>\<open>SendPacked\<close> followed by \<^verbatim>\<open>RecvReplyPacked\<close> on the socket session, with the relay
  of that node running its main loop in between, returns exactly the reply that
  \<^verbatim>\<open>SendPacked\<close> and \<^verbatim>\<open>RecvReplyPacked\<close> of the relay's local session give for the local
  worker \<^verbatim>\<open>worker_id - node_id * num_workers_per_node\<close>; the local session of the relay
  ends in the state these two local calls leave, and the controller and the connection
  are as before. A forwarded send whose target is \<^verbatim>\<open>-1\<close> makes the relay broadcast the
  arguments on its local session and wait for the next command. For a worker of node 0
  the three operations are those of the controller's local session.
\<close>

theorem socket_relay_equivalence:
  assumes "distinct (case_labels (type_indices P))"
    and "- (2 ^ 31) \<le> kShutDown P" "kShutDown P + 2 < 2 ^ 31"
  shows "(0 < num_workers_per_node s \<and> num_workers_per_node s \<le> wid \<and> wid < 2 ^ 31 \<and>
          remote_channel s (wid sdiv num_workers_per_node s - 1) = Inr (Connected fd) \<and>
          fd < length (network s) \<and>
          network s ! fd = \<lparr>to_remote = [], to_controller = []\<rparr> \<and>
          relay_node_id r = wid sdiv num_workers_per_node s \<and>
          relay_num_workers_per_node r = num_workers_per_node s \<and>
          sendable (type_indices P) (write_obj P) (obj_nbytes P)
            (Any_of_int (DiscoSocketAction_kSend P) # Any_of_int wid # args) \<and>
          SendPacked L (wid - relay_node_id r * relay_num_workers_per_node r) args
            (relay_local_session r) = Inr ls1 \<and>
          RecvReplyPacked L (wid - relay_node_id r * relay_num_workers_per_node r) ls1
            = Inr (reply, ls2) \<and>
          sendable (type_indices P) (write_obj P) (obj_nbytes P) reply \<longrightarrow>
          remote_call P L wid args s r
            = Some (Inr (reply, s, r\<lparr>relay_local_session := ls2\<rparr>)))
       \<and> (sendable (type_indices P) (write_obj P) (obj_nbytes P)
            (Any_of_int (DiscoSocketAction_kSend P) # Any_of_int (- 1) # args) \<and>
          BroadcastPacked L args (relay_local_session r) = Inr ls1 \<longrightarrow>
          MainLoop P L
            [frame (type_indices P) (write_obj P) (obj_nbytes P)
               (Any_of_int (DiscoSocketAction_kSend P) # Any_of_int (- 1) # args)] r outbox
            = Inr (Waiting, r\<lparr>relay_local_session := ls1\<rparr>, [], outbox))
       \<and> (num_workers_per_node s \<noteq> 0 \<and> wid sdiv num_workers_per_node s = 0 \<longrightarrow>
          SocketSession_SendPacked P L wid args s
            = (case SendPacked L wid args (local_session s) of
                 Inl e \<Rightarrow> Inl e
               | Inr ls \<Rightarrow> Inr (s\<lparr>local_session := ls\<rparr>)) \<and>
          SocketSession_RecvReplyPacked_send P wid s = Inr s \<and>
          SocketSession_RecvReplyPacked_recv P L wid s
            = Some (case RecvReplyPacked L wid (local_session s) of
                      Inl e \<Rightarrow> Inl e
                    | Inr (reply, ls) \<Rightarrow> Inr (reply, s\<lparr>local_session := ls\<rparr>)))"
proof -
  have 1: "remote_call P L wid args s r = Some (Inr (reply, s, r\<lparr>relay_local_session := ls2\<rparr>))"
    if "0 < num_workers_per_node s" "num_workers_per_node s \<le> wid" "wid < 2 ^ 31"
      "remote_channel s (wid sdiv num_workers_per_node s - 1) = Inr (Connected fd)"
      "fd < length (network s)"
      "network s ! fd = \<lparr>to_remote = [], to_controller = []\<rparr>"
      "relay_node_id r = wid sdiv num_workers_per_node s"
      "relay_num_workers_per_node r = num_workers_per_node s"
      "sendable (type_indices P) (write_obj P) (obj_nbytes P)
         (Any_of_int (DiscoSocketAction_kSend P) # Any_of_int wid # args)"
      "SendPacked L (wid - relay_node_id r * relay_num_workers_per_node r) args
         (relay_local_session r) = Inr ls1"
      "RecvReplyPacked L (wid - relay_node_id r * relay_num_workers_per_node r) ls1
         = Inr (reply, ls2)"
      "sendable (type_indices P) (write_obj P) (obj_nbytes P) reply"
    using that(10,11) unfolding that(7,8)
    by (intro remote_call_reply [OF assms that(1-9) _ _ that(12)])
  have 2: "MainLoop P L
            [frame (type_indices P) (write_obj P) (obj_nbytes P)
               (Any_of_int (DiscoSocketAction_kSend P) # Any_of_int (- 1) # args)] r outbox
            = Inr (Waiting, r\<lparr>relay_local_session := ls1\<rparr>, [], outbox)"
    if "sendable (type_indices P) (write_obj P) (obj_nbytes P)
            (Any_of_int (DiscoSocketAction_kSend P) # Any_of_int (- 1) # args)"
      "BroadcastPacked L args (relay_local_session r) = Inr ls1"
    using that by (intro MainLoop_broadcast [OF assms])
  have 3: "SocketSession_SendPacked P L wid args s
            = (case SendPacked L wid args (local_session s) of
                 Inl e \<Rightarrow> Inl e
               | Inr ls \<Rightarrow> Inr (s\<lparr>local_session := ls\<rparr>)) \<and>
          SocketSession_RecvReplyPacked_send P wid s = Inr s \<and>
          SocketSession_RecvReplyPacked_recv P L wid s
            = Some (case RecvReplyPacked L wid (local_session s) of
                      Inl e \<Rightarrow> Inl e
                    | Inr (reply, ls) \<Rightarrow> Inr (reply, s\<lparr>local_session := ls\<rparr>))"
    if "num_workers_per_node s \<noteq> 0" "wid sdiv num_workers_per_node s = 0"
    using that
    by (simp add: SocketSession_SendPacked_def SocketSession_RecvReplyPacked_send_def
          SocketSession_RecvReplyPacked_recv_def)
  from 1 2 3 show ?thesis
    by blast
qed

theorem socket_relay_equivalence_witness:
  "remote_call example_protocol echo_session 3 [AnyInt 7] example_controller example_relay
     = Some (Inr ([AnyInt 7], example_controller, example_relay))"
proof -
  have d: "distinct (case_labels (type_indices example_protocol))"
    by (simp add: example_protocol_def case_labels_def ffi_TypeIndex_def)
  have k: "- (2 ^ 31) \<le> kShutDown example_protocol" "kShutDown example_protocol + 2 < 2 ^ 31"
    by (simp_all add: example_protocol_def)
  have q: "(3::int) sdiv 2 = 1"
    by (simp add: signed_divide_int_def)
  have s1: "sendable (type_indices example_protocol) (write_obj example_protocol)
              (obj_nbytes example_protocol)
              (Any_of_int (DiscoSocketAction_kSend example_protocol) # Any_of_int 3 # [AnyInt 7])"
    by (simp add: sendable_def Any_of_int_def SendPackedSeq_def)
  have s2: "sendable (type_indices example_protocol) (write_obj example_protocol)
              (obj_nbytes example_protocol) [AnyInt 7 :: unit TVMFFIAny]"
    by (simp add: sendable_def SendPackedSeq_def)
  have l1: "SendPacked echo_session
              (3 - relay_node_id example_relay * relay_num_workers_per_node example_relay) [AnyInt 7]
              (relay_local_session example_relay) = Inr [(1, [AnyInt 7])]"
    by (simp add: echo_session_def example_relay_def)
  have l2: "RecvReplyPacked echo_session
              (3 - relay_node_id example_relay * relay_num_workers_per_node example_relay)
              [(1, [AnyInt 7])] = Inr ([AnyInt 7], [])"
    by (simp add: echo_session_def example_relay_def)
  have c: "remote_channel example_controller (3 sdiv num_workers_per_node example_controller - 1)
             = Inr (Connected 0)"
    by (simp add: remote_channel_def example_controller_def q)
  have "remote_call example_protocol echo_session 3 [AnyInt 7] example_controller example_relay
     = Some (Inr ([AnyInt 7], example_controller, example_relay\<lparr>relay_local_session := []\<rparr>))"
    using socket_relay_equivalence [OF d k, of example_controller 3 0 example_relay "[AnyInt 7]"
        echo_session "[(1, [AnyInt 7])]" "[AnyInt 7]" "[]"] s1 s2 l1 l2 c
    by (simp add: example_controller_def example_relay_def q)
  then show ?thesis
    by (simp add: example_relay_def)
qed

end
